(* ===== verification/Prelude.thy ===== *)
theory Prelude
  imports Main "HOL-Library.Word" "HOL-Library.AList" "HOL-Library.Multiset"
    "HOL-Library.List_Lexorder" "HOL-Library.Char_ord"
begin

text \<open>
  Shared vocabulary of the development: the machine integers of the Go sources, the model of a
  Go map with its \<open>range\<close> loop, and the generic list, map and maximum lemmas that the component
  theories use.

  A Go map is an association list with distinct keys (\<open>gm_wf\<close>). The order of the list is the
  order in which a \<open>range\<close> statement visits the entries. Go leaves that order open, so a theorem
  that is stated for every list with distinct keys covers every iteration order. Lookup is
  \<open>map_of\<close>, so two maps hold the same entries exactly when their \<open>map_of\<close> agree.
\<close>

section \<open>Machine integers\<close>

type_synonym u8 = "8 word"
type_synonym u16 = "16 word"
type_synonym u32 = "32 word"
type_synonym u64 = "64 word"

lemma unat_plus_one: "unat x + 1 < 2 ^ LENGTH('a) \<Longrightarrow> unat (x + 1 :: 'a::len word) = unat x + 1"
  by (simp add: unat_word_ariths)

lemma word_less_plus_one: "unat x + 1 < 2 ^ LENGTH('a) \<Longrightarrow> (x :: 'a::len word) < x + 1"
  by (simp add: word_less_nat_alt unat_plus_one)

section \<open>Collections of facts\<close>

named_theorems gomap_simps \<open>lookups and well-formedness of Go maps\<close>
named_theorems frame_simps \<open>fields and keys an operation leaves alone\<close>
named_theorems inv_intros \<open>operations keep the invariants of their component\<close>

section \<open>The interface of a Go map\<close>

text \<open>
  What a client of a map relies on: reading after a write or a delete, and that the entries a
  \<open>range\<close> loop visits are exactly the pairs a lookup finds, each key once.
\<close>

locale go_map =
  fixes lookup :: "'m \<Rightarrow> 'k \<Rightarrow> 'v option"
    and store :: "'k \<Rightarrow> 'v \<Rightarrow> 'm \<Rightarrow> 'm"
    and remove :: "'k \<Rightarrow> 'm \<Rightarrow> 'm"
    and entries :: "'m \<Rightarrow> ('k \<times> 'v) list"
    and wf_map :: "'m \<Rightarrow> bool"
  assumes lookup_store: "lookup (store k v m) j = (if j = k then Some v else lookup m j)"
    and lookup_remove: "wf_map m \<Longrightarrow> lookup (remove k m) j = (if j = k then None else lookup m j)"
    and lookup_entries: "lookup m j = map_of (entries m) j"
    and wf_distinct: "wf_map m \<Longrightarrow> distinct (map fst (entries m))"
    and wf_store: "wf_map m \<Longrightarrow> wf_map (store k v m)"
    and wf_remove: "wf_map m \<Longrightarrow> wf_map (remove k m)"
begin

text \<open>A loop that stores under some of the keys of a list, in any order.\<close>

lemma lookup_store_loop:
  assumes "distinct (map fst xs)"
  shows "lookup (fold (\<lambda>(k, x) acc. if P k x then store k (f k x) acc else acc) xs m) j
    = (case map_of xs j of
         Some x \<Rightarrow> if P j x then Some (f j x) else lookup m j
       | None \<Rightarrow> lookup m j)"
  using assms
proof (induction xs arbitrary: m)
  case Nil
  then show ?case by simp
next
  case (Cons p xs)
  obtain k x where p: "p = (k, x)" by force
  with Cons.prems have "k \<notin> fst ` set xs" and d: "distinct (map fst xs)" by auto
  then have "map_of xs k = None" by (simp add: map_of_eq_None_iff)
  then show ?case
    by (auto simp: p Cons.IH [OF d] lookup_store split: option.splits)
qed

lemma wf_store_loop:
  "wf_map m \<Longrightarrow> wf_map (fold (\<lambda>(k, x) acc. if P k x then store k (f k x) acc else acc) xs m)"
  by (induction xs arbitrary: m) (auto simp: wf_store)

text \<open>A loop that deletes the keys of a list.\<close>

lemma remove_loop:
  assumes "wf_map m"
  shows "wf_map (fold remove ks m)
    \<and> lookup (fold remove ks m) j = (if j \<in> set ks then None else lookup m j)"
  using assms by (induction ks arbitrary: m) (auto simp: wf_remove lookup_remove)

text \<open>An entry the loop visits is found by a lookup, whatever the order.\<close>

lemma entry_lookup: "wf_map m \<Longrightarrow> (k, v) \<in> set (entries m) \<longleftrightarrow> lookup m k = Some v"
  by (simp add: lookup_entries wf_distinct)

end

section \<open>Go maps as association lists\<close>

type_synonym ('k, 'v) gomap = "('k \<times> 'v) list"

definition gm_wf :: "('k, 'v) gomap \<Rightarrow> bool" where
  "gm_wf m \<longleftrightarrow> distinct (map fst m)"

abbreviation gm_put :: "'k \<Rightarrow> 'v \<Rightarrow> ('k, 'v) gomap \<Rightarrow> ('k, 'v) gomap" where
  "gm_put \<equiv> AList.update"

abbreviation gm_del :: "'k \<Rightarrow> ('k, 'v) gomap \<Rightarrow> ('k, 'v) gomap" where
  "gm_del \<equiv> AList.delete"

lemma gm_wf_Nil [simp]: "gm_wf []"
  by (simp add: gm_wf_def)

lemma gm_wf_put [gomap_simps, simp]: "gm_wf m \<Longrightarrow> gm_wf (gm_put k v m)"
  by (simp add: gm_wf_def distinct_update)

lemma gm_wf_del [gomap_simps, simp]: "gm_wf m \<Longrightarrow> gm_wf (gm_del k m)"
  by (simp add: gm_wf_def distinct_delete)

lemma map_of_gm_put [gomap_simps, simp]:
  "map_of (gm_put k v m) j = (if j = k then Some v else map_of m j)"
  by (simp add: update_conv)

lemma map_of_gm_del [gomap_simps, simp]:
  "map_of (gm_del k m) j = (if j = k then None else map_of m j)"
  by (simp add: delete_conv)

interpretation alist_map: go_map map_of AList.update AList.delete "\<lambda>m. m" gm_wf
  by unfold_locales (auto simp: gm_wf_def distinct_update distinct_delete)

lemmas gm_entry = alist_map.entry_lookup

text \<open>Two maps with the same lookups hold the same entries, possibly in another order.\<close>

lemma gm_same_lookup_mset:
  assumes "gm_wf m" and "gm_wf m'" and "map_of m = map_of m'"
  shows "mset m = mset m'"
proof -
  have "set m = set m'" using assms gm_entry by (metis subrelI subset_antisym)
  moreover have "distinct m" "distinct m'"
    using assms by (auto simp: gm_wf_def distinct_map)
  ultimately show ?thesis by (simp add: set_eq_iff_mset_eq_distinct)
qed

text \<open>The loop that copies a map through a function of its values.\<close>

definition gm_build :: "('v \<Rightarrow> 'w) \<Rightarrow> ('k, 'v) gomap \<Rightarrow> ('k, 'w) gomap" where
  "gm_build f m = fold (\<lambda>(k, v) acc. gm_put k (f v) acc) m []"

lemma map_of_gm_build [gomap_simps]:
  "gm_wf m \<Longrightarrow> map_of (gm_build f m) k = map_option f (map_of m k)"
  using alist_map.lookup_store_loop [of m "\<lambda>_ _. True" "\<lambda>_. f" "[]" k]
  by (simp add: gm_build_def gm_wf_def option.map_id split: option.splits)

lemma gm_wf_build [gomap_simps, simp]: "gm_wf (gm_build f m)"
  using alist_map.wf_store_loop [of "[]" "\<lambda>_ _. True" "\<lambda>_. f" m]
  by (simp add: gm_build_def)

lemma gm_put_fresh: "k \<notin> fst ` set m \<Longrightarrow> gm_put k v m = m @ [(k, v)]"
  by (induction m) auto

section \<open>Maxima over the entries of a map\<close>

text \<open>The loop \<open>a = max(a, g(x))\<close> over a list, and its two characteristic facts.\<close>

definition max_loop :: "('x \<Rightarrow> 'n::linorder) \<Rightarrow> 'x list \<Rightarrow> 'n \<Rightarrow> 'n" where
  "max_loop g xs a = fold (\<lambda>x a. max a (g x)) xs a"

lemma max_loop_simps [simp]:
  "max_loop g [] a = a"
  "max_loop g (x # xs) a = max_loop g xs (max a (g x))"
  by (simp_all add: max_loop_def)

lemma max_loop_le_iff: "max_loop g xs a \<le> c \<longleftrightarrow> a \<le> c \<and> (\<forall>x \<in> set xs. g x \<le> c)"
  by (induction xs arbitrary: a) auto

lemma max_loop_ge: "x \<in> set xs \<Longrightarrow> g x \<le> max_loop g xs a"
  using max_loop_le_iff [of g xs a "max_loop g xs a"] by blast

lemma max_loop_ge_start: "a \<le> max_loop g xs a"
  using max_loop_le_iff [of g xs a "max_loop g xs a"] by blast

lemma max_loop_attained: "max_loop g xs a = a \<or> (\<exists>x \<in> set xs. max_loop g xs a = g x)"
proof (induction xs arbitrary: a)
  case (Cons x xs)
  then show ?case
    using Cons.IH [of "max a (g x)"] by (auto simp: max_def)
qed simp

lemma max_loop_image_mono: "g ` set xs \<subseteq> h ` set ys \<Longrightarrow> max_loop g xs a \<le> max_loop h ys a"
  using max_loop_ge [of _ ys h a] by (force simp: max_loop_le_iff max_loop_ge_start)

lemma max_loop_set_eq: "g ` set xs = h ` set ys \<Longrightarrow> max_loop g xs a = max_loop h ys a"
  by (simp add: max_loop_image_mono order_antisym)

section \<open>Loops whose order does not matter\<close>

text \<open>
  A sum over the entries of a map depends only on the entries: a permutation of the list, which
  is another iteration order, gives the same sum, wrap-around included.
\<close>

lemma sum_loop_eq: "fold (\<lambda>x a. a + g x) xs (a :: 'n::comm_monoid_add) = a + sum_list (map g xs)"
  by (induction xs arbitrary: a) (auto simp: add.assoc add.commute)

lemma sum_list_map_mset:
  "mset xs = mset ys \<Longrightarrow> sum_list (map g xs) = (sum_list (map g ys) :: 'n::comm_monoid_add)"
  unfolding sum_mset_sum_list [symmetric] mset_map by simp

lemma sum_loop_mset:
  "mset xs = mset ys \<Longrightarrow> fold (\<lambda>x a. a + g x) xs (a :: 'n::comm_monoid_add)
    = fold (\<lambda>x a. a + g x) ys a"
  by (metis sum_loop_eq sum_list_map_mset)

end
