(* ===== verification/Lib.thy ===== *)
theory Lib
  imports Prelude
begin

text \<open>
  The package \<open>src/pkg/lib\<close>: the slice and map conversions of \<open>conv.go\<close>, the FNV hash and the
  consistent hashing of \<open>hashing.go\<close>, and the random subset of \<open>random.go\<close>. The loops of the source
  are kept as loops that append to the slice under construction; the lemmas relate each to the
  library function a proof works with.
\<close>

section \<open>conv.go\<close>

datatype lib_panic = MakeSliceNegative | IndexOutOfRange | EmptyValues

text \<open>
  \<open>MapValuesWithExclude\<close> allocates \<open>len(m) - len(exclude)\<close> zero values and writes the values that
  are not excluded one after the other: a negative length and a write past the end both panic.
\<close>

fun values_loop :: "('k, 'v) gomap \<Rightarrow> 'k list \<Rightarrow> nat \<Rightarrow> 'v list \<Rightarrow> lib_panic + 'v list" where
  "values_loop [] exclude i values = Inr values"
| "values_loop ((k, v) # m) exclude i values =
     (if k \<in> set exclude then values_loop m exclude i values
      else if i < length values then values_loop m exclude (Suc i) (values[i := v])
      else Inl IndexOutOfRange)"

definition MapValuesWithExclude :: "'v \<Rightarrow> ('k, 'v) gomap \<Rightarrow> 'k list \<Rightarrow> lib_panic + 'v list" where
  "MapValuesWithExclude zero m exclude =
     (if int (length m) - int (length exclude) < 0 then Inl MakeSliceNegative
      else if int (length m) - int (length exclude) \<le> 0 then Inr []
      else values_loop m exclude 0 (replicate (length m - length exclude) zero))"

definition MapValues :: "('k, 'v) gomap \<Rightarrow> 'v list" where
  "MapValues m = fold (\<lambda>(k, v) values. values @ [v]) m []"

definition MapKeys :: "('k, 'v) gomap \<Rightarrow> 'k list" where
  "MapKeys m = fold (\<lambda>(k, v) keys. keys @ [k]) m []"

definition MapItems :: "('k, 'v) gomap \<Rightarrow> ('k \<times> 'v) list" where
  "MapItems m = (let keys = MapKeys m; values = MapValues m
     in map (\<lambda>index. (keys ! index, values ! index)) [0..<length keys])"

definition Map :: "'a list \<Rightarrow> ('a \<Rightarrow> 'b) \<Rightarrow> 'b list" where
  "Map list f = fold (\<lambda>elem newList. newList @ [f elem]) list []"

definition Filter :: "'a list \<Rightarrow> ('a \<Rightarrow> bool) \<Rightarrow> 'a list" where
  "Filter list f = fold (\<lambda>elem newList. if f elem then newList @ [elem] else newList) list []"

fun Contains :: "'a list \<Rightarrow> ('a \<Rightarrow> bool) \<Rightarrow> bool" where
  "Contains [] proposition = False"
| "Contains (elem # list) proposition =
     (if proposition elem then True else Contains list proposition)"

definition Reduce :: "'s \<Rightarrow> 'a list \<Rightarrow> ('s \<Rightarrow> 'a \<Rightarrow> 's) \<Rightarrow> 's" where
  "Reduce start values reduce = fold (\<lambda>elem accum. reduce accum elem) values start"

lemma append_loop: "fold (\<lambda>x acc. acc @ [f x]) xs acc = acc @ map f xs"
  by (induction xs arbitrary: acc) auto

lemma Map_eq [simp]: "Map list f = map f list"
  by (simp add: Map_def append_loop)

lemma MapValues_eq [simp]: "MapValues m = map snd m"
  using append_loop [of snd m "[]"] by (simp add: MapValues_def case_prod_unfold)

lemma MapKeys_eq [simp]: "MapKeys m = map fst m"
  using append_loop [of fst m "[]"] by (simp add: MapKeys_def case_prod_unfold)

lemma MapItems_eq [simp]: "MapItems m = m"
  by (rule nth_equalityI) (simp_all add: MapItems_def Let_def)

lemma filter_loop:
  "fold (\<lambda>x acc. if P x then acc @ [x] else acc) xs acc = acc @ filter P xs"
  by (induction xs arbitrary: acc) auto

lemma Filter_eq [simp]: "Filter list P = filter P list"
  by (simp add: Filter_def filter_loop)

lemma Contains_iff [simp]: "Contains list P \<longleftrightarrow> (\<exists>x \<in> set list. P x)"
  by (induction list) auto

lemma Reduce_eq: "Reduce s xs f = foldl f s xs"
  by (simp add: Reduce_def foldl_conv_fold)

lemma values_loop_eq:
  "length pre = i \<Longrightarrow> length m = n \<Longrightarrow>
    values_loop m [] i (pre @ replicate n zero) = Inr (pre @ map snd m)"
proof (induction m arbitrary: i pre n)
  case (Cons p m)
  obtain k v where p: "p = (k, v)" by force
  have "(pre @ replicate n zero)[i := v] = (pre @ [v]) @ replicate (length m) zero"
    using Cons.prems by (simp add: list_update_append) (metis list_update_code(2) replicate_Suc)
  then show ?case
    using Cons.prems Cons.IH [of "pre @ [v]" "Suc i" "length m"] by (simp add: p)
qed simp

text \<open>With nothing excluded the allocation is exact and no write panics.\<close>

lemma MapValuesWithExclude_empty: "MapValuesWithExclude zero m [] = Inr (MapValues m)"
  using values_loop_eq [of "[]" 0 m "length m" zero] by (auto simp: MapValuesWithExclude_def)

section \<open>hashing.go\<close>

text \<open>FNV-1a over the bytes of a string, 32 and 64 bits wide, as in \<open>hash/fnv\<close>.\<close>

unbundle bit_operations_syntax

definition byte_of :: "char \<Rightarrow> ('w::len) word" where
  "byte_of c = of_nat (of_char c :: nat)"

definition fnv32a :: "string \<Rightarrow> u32" where
  "fnv32a s = fold (\<lambda>c h. (h XOR byte_of c) * 16777619) s 2166136261"

definition fnv64a :: "string \<Rightarrow> u64" where
  "fnv64a s = fold (\<lambda>c h. (h XOR byte_of c) * 1099511628211) s 14695981039346656037"

text \<open>\<open>int(f.Sum32())\<close>: on a 64-bit platform the 32-bit sum read as a non-negative \<open>int\<close>.\<close>

definition HashString :: "string \<Rightarrow> int" where
  "HashString value = uint (fnv32a value)"

lemma HashString_range: "0 \<le> HashString s \<and> HashString s < 2 ^ 32"
  unfolding HashString_def using uint_bounded [of "fnv32a s"] by simp

text \<open>The binary search of \<open>sort.Search\<close>: the least index in \<open>[i, j)\<close> at which \<open>f\<close> holds, else \<open>j\<close>.\<close>

function search_loop :: "(nat \<Rightarrow> bool) \<Rightarrow> nat \<Rightarrow> nat \<Rightarrow> nat" where
  "search_loop f i j =
     (if i < j then
        (let h = (i + j) div 2
         in if \<not> f h then search_loop f (h + 1) j else search_loop f i h)
      else i)"
  by pat_completeness auto
termination
  by (relation "measure (\<lambda>(f, i, j). j - i)") (auto simp: Let_def)

declare search_loop.simps [simp del]

definition Search :: "nat \<Rightarrow> (nat \<Rightarrow> bool) \<Rightarrow> nat" where
  "Search n f = search_loop f 0 n"

text \<open>\<open>ConsistentHash\<close>: \<open>sort.SliceStable\<close> is a stable sort by the bucket value.\<close>

definition ConsistentHash ::
  "'v list \<Rightarrow> 'c \<Rightarrow> ('v \<Rightarrow> int) \<Rightarrow> ('c \<Rightarrow> int) \<Rightarrow> lib_panic + 'v" where
  "ConsistentHash values client bucketFunc keyFunc =
     (if length values = 0 then Inl EmptyValues
      else
        let vs = sort_key snd (Map values (\<lambda>v. (v, bucketFunc v)));
            ourKey = keyFunc client;
            idx = Search (length vs) (\<lambda>i. snd (vs ! i) \<ge> ourKey)
        in if idx = length vs then Inr (fst (vs ! 0)) else Inr (fst (vs ! idx)))"

lemma search_loop_spec:
  assumes "i \<le> j" and "\<And>a b. a \<le> b \<Longrightarrow> b < n \<Longrightarrow> f a \<Longrightarrow> f b" and "j \<le> n"
    and "\<forall>a < i. \<not> f a" and "j < n \<Longrightarrow> f j"
  shows "i \<le> search_loop f i j \<and> search_loop f i j \<le> j
    \<and> (\<forall>a < search_loop f i j. \<not> f a)
    \<and> (search_loop f i j < n \<longrightarrow> f (search_loop f i j))"
  using assms
proof (induction f i j rule: search_loop.induct)
  case (1 f i j)
  show ?case
  proof (cases "i < j")
    case True
    define h where "h = (i + j) div 2"
    with True have h: "i \<le> h" "h < j" by auto
    show ?thesis
    proof (cases "f h")
      case True
      then have "search_loop f i j = search_loop f i h"
        using \<open>i < j\<close> by (simp add: search_loop.simps [of f i j] h_def)
      with "1.IH"(2) [OF \<open>i < j\<close> h_def] "1.prems" True h show ?thesis by auto
    next
      case False
      then have "search_loop f i j = search_loop f (h + 1) j"
        using \<open>i < j\<close> by (simp add: search_loop.simps [of f i j] h_def)
      moreover have "\<forall>a < h + 1. \<not> f a"
        using False "1.prems"(2) [of _ h] h "1.prems"(3) less_Suc_eq_le by auto
      then have "h + 1 \<le> search_loop f (h + 1) j \<and> search_loop f (h + 1) j \<le> j
        \<and> (\<forall>a < search_loop f (h + 1) j. \<not> f a)
        \<and> (search_loop f (h + 1) j < n \<longrightarrow> f (search_loop f (h + 1) j))"
        using h "1.prems" by (intro "1.IH"(1) [OF \<open>i < j\<close> h_def False]) simp_all
      ultimately show ?thesis using h by simp
    qed
  next
    case False
    then have "search_loop f i j = i" by (simp add: search_loop.simps [of f i j])
    with False "1.prems" show ?thesis by simp
  qed
qed

lemma Search_spec:
  assumes "\<And>a b. a \<le> b \<Longrightarrow> b < n \<Longrightarrow> f a \<Longrightarrow> f b"
  shows "Search n f \<le> n \<and> (\<forall>a < Search n f. \<not> f a) \<and> (Search n f < n \<longrightarrow> f (Search n f))"
  using search_loop_spec [of 0 n n f] assms by (auto simp: Search_def)

text \<open>
  The specification of the ring: the owner of a key is the bucket with the least value at or
  after the key, and past the last bucket the search wraps to the least value of all.
\<close>

definition ring_owner :: "('v \<Rightarrow> int) \<Rightarrow> int \<Rightarrow> 'v set \<Rightarrow> 'v \<Rightarrow> bool" where
  "ring_owner bucket key V v \<longleftrightarrow> v \<in> V \<and>
     (if \<exists>w \<in> V. key \<le> bucket w
      then key \<le> bucket v \<and> (\<forall>w \<in> V. key \<le> bucket w \<longrightarrow> bucket v \<le> bucket w)
      else \<forall>w \<in> V. bucket v \<le> bucket w)"

lemma ring_owner_unique:
  "inj_on bucket V \<Longrightarrow> ring_owner bucket key V v \<Longrightarrow> ring_owner bucket key V w \<Longrightarrow> v = w"
  by (auto simp: ring_owner_def inj_on_def split: if_splits) (metis order_antisym)+

lemma ring_owner_insert:
  "ring_owner bucket key (insert x V) v \<Longrightarrow> v \<noteq> x \<Longrightarrow> ring_owner bucket key V v"
  by (auto simp: ring_owner_def split: if_splits)

lemma sorted_pairs_search:
  fixes vs :: "('v \<times> int) list" and key :: int
  assumes "sorted (map snd vs)" and "vs \<noteq> []"
  defines "idx \<equiv> Search (length vs) (\<lambda>i. snd (vs ! i) \<ge> key)"
  shows "ring_owner snd key (set vs) (if idx = length vs then vs ! 0 else vs ! idx)"
proof -
  have mono: "snd (vs ! a) \<le> snd (vs ! b)" if "a \<le> b" "b < length vs" for a b
    using sorted_nth_mono [OF assms(1) that(1)] that by simp
  have s: "idx \<le> length vs" "\<forall>a < idx. \<not> key \<le> snd (vs ! a)"
    "idx < length vs \<longrightarrow> key \<le> snd (vs ! idx)"
    using Search_spec [of "length vs" "\<lambda>i. snd (vs ! i) \<ge> key"] mono order_trans
    unfolding idx_def by blast+
  show ?thesis
  proof (cases "idx = length vs")
    case True
    then have "\<forall>w \<in> set vs. \<not> key \<le> snd w" using s(2) by (metis in_set_conv_nth)
    moreover have "\<forall>w \<in> set vs. snd (vs ! 0) \<le> snd w" using mono by (metis in_set_conv_nth le0)
    ultimately show ?thesis using True assms(2) by (auto simp: ring_owner_def)
  next
    case False
    then have lt: "idx < length vs" using s(1) by simp
    have "snd (vs ! idx) \<le> snd w" if w: "w \<in> set vs" "key \<le> snd w" for w
    proof -
      obtain a where a: "a < length vs" "w = vs ! a"
        using w(1) unfolding in_set_conv_nth by blast
      then have "\<not> a < idx" using s(2) w(2) by blast
      then show ?thesis using mono a by simp
    qed
    then show ?thesis using lt s(3) by (auto simp: ring_owner_def)
  qed
qed

lemma ConsistentHash_owner:
  assumes "values \<noteq> []"
  shows "\<exists>v. ConsistentHash values client bucketFunc keyFunc = Inr v
    \<and> ring_owner bucketFunc (keyFunc client) (set values) v"
proof -
  define vs where "vs = sort_key snd (map (\<lambda>v. (v, bucketFunc v)) values)"
  define idx where "idx = Search (length vs) (\<lambda>i. snd (vs ! i) \<ge> keyFunc client)"
  define p where "p = (if idx = length vs then vs ! 0 else vs ! idx)"
  have set_vs: "set vs = (\<lambda>v. (v, bucketFunc v)) ` set values" by (simp add: vs_def)
  with assms have "vs \<noteq> []" by auto
  moreover have "sorted (map snd vs)" by (simp add: vs_def)
  ultimately have own: "ring_owner snd (keyFunc client) (set vs) p"
    unfolding p_def idx_def by (intro sorted_pairs_search)
  then have "snd p = bucketFunc (fst p)" and "fst p \<in> set values"
    by (auto simp: ring_owner_def set_vs)
  then have "ring_owner bucketFunc (keyFunc client) (set values) (fst p)"
    using own by (auto simp: ring_owner_def set_vs split: if_splits)
  moreover have "ConsistentHash values client bucketFunc keyFunc = Inr (fst p)"
    using assms by (simp add: ConsistentHash_def Let_def p_def idx_def vs_def)
  ultimately show ?thesis by blast
qed

text \<open>Consistent hashing never panics on a non-empty slice, and it picks the bucket that the
  ring specification names: the least bucket value at or after the key, wrapping around to the
  least value of all.\<close>

lemma consistent_hash_picks_ring_owner:
  assumes "values \<noteq> []"
  shows "\<exists>v. ConsistentHash values client bucketFunc keyFunc = Inr v \<and> v \<in> set values
    \<and> ring_owner bucketFunc (keyFunc client) (set values) v"
  using ConsistentHash_owner [OF assms, of client bucketFunc keyFunc] by (auto simp: ring_owner_def)


text \<open>Every node assigns a client to the same peer. The order in which a node happens to list
  the peers (it comes from ranging over a Go map) does not change the choice, as long as no two
  peers have the same hash.\<close>

lemma consistent_hash_order_independent:
  assumes "set values = set values'" and "inj_on bucketFunc (set values)"
  shows "ConsistentHash values client bucketFunc keyFunc
    = ConsistentHash values' client bucketFunc keyFunc"
proof (cases "values = []")
  case True
  with assms(1) show ?thesis by (simp add: ConsistentHash_def)
next
  case False
  with assms(1) have "values' \<noteq> []" by auto
  with False assms show ?thesis
    using ConsistentHash_owner ring_owner_unique by metis
qed

text \<open>A peer that joins takes over clients and moves no others. After adding a peer, a client
  is assigned either to the new peer or to the peer it already had.\<close>

lemma consistent_hash_join_moves_to_new_peer_only:
  assumes "values \<noteq> []" and "inj_on bucketFunc (set (x # values))"
  shows "ConsistentHash (x # values) client bucketFunc keyFunc
    \<in> {Inr x, ConsistentHash values client bucketFunc keyFunc}"
proof -
  obtain v where v: "ConsistentHash (x # values) client bucketFunc keyFunc = Inr v"
    "ring_owner bucketFunc (keyFunc client) (set (x # values)) v"
    using ConsistentHash_owner [of "x # values" client bucketFunc keyFunc] by auto
  obtain w where w: "ConsistentHash values client bucketFunc keyFunc = Inr w"
    "ring_owner bucketFunc (keyFunc client) (set values) w"
    using ConsistentHash_owner [OF assms(1), of client bucketFunc keyFunc] by auto
  have "v = x \<or> v = w"
    using ring_owner_insert [of bucketFunc _ x "set values" v] v(2) w(2) assms(2)
      ring_owner_unique [of bucketFunc "set values"] by (auto simp: inj_on_insert)
  with v w show ?thesis by auto
qed


section \<open>random.go\<close>

text \<open>
  \<open>RandomSubsetOfLength\<close> draws indices until it has \<open>num\<close> different ones or the whole slice. The
  draws of \<open>rand.Intn(len(vs))\<close> are a parameter: a list, read from the front, each taken modulo
  the length as \<open>Intn\<close> promises a value below it. Running out of draws is \<open>None\<close>: the loop has
  no bound of its own.
\<close>

fun subset_loop :: "nat list \<Rightarrow> 'a list \<Rightarrow> int \<Rightarrow> int \<Rightarrow> nat list \<Rightarrow> 'a list \<Rightarrow> 'a list option" where
  "subset_loop draws vs num i selectedIndices randomSubset =
     (if \<not> i < num then Some randomSubset
      else if length randomSubset = length vs then Some randomSubset
      else case draws of
        [] \<Rightarrow> None
      | d # draws' \<Rightarrow>
          let randomIndex = d mod length vs
          in if randomIndex \<notin> set selectedIndices
             then subset_loop draws' vs num (i + 1) (selectedIndices @ [randomIndex])
               (randomSubset @ [vs ! randomIndex])
             else subset_loop draws' vs num i selectedIndices randomSubset)"

declare subset_loop.simps [simp del]

definition RandomSubsetOfLength :: "nat list \<Rightarrow> 'a list \<Rightarrow> int \<Rightarrow> 'a list option" where
  "RandomSubsetOfLength draws vs num = subset_loop draws vs num 0 [] []"

definition indices_ok :: "'a list \<Rightarrow> nat list \<Rightarrow> bool" where
  "indices_ok vs sel \<longleftrightarrow> distinct sel \<and> set sel \<subseteq> {..<length vs}"

lemma indices_ok_length: "indices_ok vs sel \<Longrightarrow> length sel \<le> length vs"
  using card_mono [of "{..<length vs}" "set sel"] by (simp add: indices_ok_def distinct_card)

lemma indices_ok_snoc:
  "indices_ok vs sel \<Longrightarrow> vs \<noteq> [] \<Longrightarrow> d mod length vs \<notin> set sel
    \<Longrightarrow> indices_ok vs (sel @ [d mod length vs])"
  by (auto simp: indices_ok_def)

lemma subset_loop_result:
  assumes "subset_loop draws vs num (int (length sel)) sel (map ((!) vs) sel) = Some r"
    and "indices_ok vs sel" and "int (length sel) \<le> max 0 num"
  shows "\<exists>sel'. indices_ok vs sel' \<and> r = map ((!) vs) sel'
    \<and> length sel' = min (nat num) (length vs)"
  using assms
proof (induction draws arbitrary: sel)
  case Nil
  then show ?case
    using indices_ok_length by (fastforce simp: subset_loop.simps split: if_splits)
next
  case (Cons d draws)
  show ?case
  proof (cases "int (length sel) < num \<and> length sel \<noteq> length vs")
    case False
    with Cons.prems show ?thesis
      using indices_ok_length by (fastforce simp: subset_loop.simps split: if_splits)
  next
    case True
    then have "vs \<noteq> []" using Cons.prems(2) by (auto simp: indices_ok_def)
    show ?thesis
    proof (cases "d mod length vs \<in> set sel")
      case in_sel: True
      with True Cons.prems show ?thesis
        by (intro Cons.IH) (auto simp: subset_loop.simps [of "d # draws"] Let_def)
    next
      case False
      with True Cons.prems \<open>vs \<noteq> []\<close> show ?thesis
        using Cons.IH [of "sel @ [d mod length vs]"] indices_ok_snoc [of vs sel d]
        by (auto simp: subset_loop.simps [of "d # draws"] Let_def add.commute)
    qed
  qed
qed

lemma subset_loop_returns:
  assumes "{..<length vs} \<subseteq> set sel \<union> (\<lambda>d. d mod length vs) ` set draws" and "indices_ok vs sel"
  shows "\<exists>r. subset_loop draws vs num i sel (map ((!) vs) sel) = Some r"
  using assms
proof (induction draws arbitrary: sel i)
  case Nil
  then have "set sel = {..<length vs}" by (auto simp: indices_ok_def)
  with Nil.prems(2) have "length sel = length vs"
    by (metis card_lessThan distinct_card indices_ok_def)
  then show ?case by (simp add: subset_loop.simps)
next
  case (Cons d draws)
  show ?case
  proof (cases "i < num \<and> length sel \<noteq> length vs \<and> d mod length vs \<notin> set sel")
    case True
    then have "vs \<noteq> []" using Cons.prems(2) by (auto simp: indices_ok_def)
    with True Cons.prems have "indices_ok vs (sel @ [d mod length vs])"
      by (auto intro: indices_ok_snoc)
    moreover have "{..<length vs} \<subseteq> set (sel @ [d mod length vs]) \<union> (\<lambda>d. d mod length vs) ` set draws"
      using Cons.prems(1) by auto
    ultimately show ?thesis
      using True Cons.IH [of "sel @ [d mod length vs]" "i + 1"]
      by (simp add: subset_loop.simps [of "d # draws"] Let_def)
  next
    case False
    have "{..<length vs} \<subseteq> set sel \<union> (\<lambda>d. d mod length vs) ` set draws
      \<or> d mod length vs \<notin> set sel"
      using Cons.prems(1) by auto
    with False Cons.IH [OF _ Cons.prems(2), of i] show ?thesis
      by (auto simp: subset_loop.simps [of "d # draws"] Let_def)
  qed
qed

text \<open>A random subset has as many elements as asked for, or the whole slice when that is
  shorter, taken at pairwise different indices of the slice.\<close>

lemma random_subset_distinct_indices:
  assumes "RandomSubsetOfLength draws vs num = Some r"
  shows "\<exists>sel. distinct sel \<and> set sel \<subseteq> {..<length vs} \<and> r = map ((!) vs) sel
    \<and> length r = min (nat num) (length vs)"
  using subset_loop_result [of draws vs num "[]" r] assms
  by (auto simp: RandomSubsetOfLength_def indices_ok_def)

text \<open>The loop ends once the draws have hit every index of the slice at least once, whatever
  number was asked for; the slice may be empty.\<close>

lemma random_subset_returns:
  assumes "{..<length vs} \<subseteq> (\<lambda>d. d mod length vs) ` set draws"
  shows "\<exists>r. RandomSubsetOfLength draws vs num = Some r"
  using subset_loop_returns [of vs "[]" draws num 0] assms
  by (simp add: RandomSubsetOfLength_def indices_ok_def)

end
