(* ===== verification/Vector_Clock.thy ===== *)
theory Vector_Clock
  imports Lib
begin

text \<open>
  \<open>src/pkg/crdt/vector_clock.go\<close>: the vector clock shared by the two grow-only maps of a store.
  Every operation runs under the clock's mutex, so one definition is one atomic step. The value of
  \<open>time.Now().Unix()\<close> is the argument \<open>now\<close>, already converted to \<open>uint64\<close>. Clock values are
  64-bit words: the increment and the hash wrap around.
\<close>

section \<open>State and operations\<close>

record VectorBucket =
  vb_clock :: u64
  vb_lastUpdate :: u64

record 'k VectorClock =
  vc_vectors :: "(u64, VectorBucket) gomap"
  vc_processID :: 'k
  vc_staleTime :: u64
  vc_hashFunc :: "'k \<Rightarrow> u64"
  vc_highestStale :: u64

definition NewVectorClock :: "'k \<Rightarrow> ('k \<Rightarrow> u64) \<Rightarrow> u64 \<Rightarrow> 'k VectorClock" where
  "NewVectorClock processID hashFunc staleTime =
     \<lparr>vc_vectors = [], vc_processID = processID, vc_staleTime = staleTime,
      vc_hashFunc = hashFunc, vc_highestStale = 0\<rparr>"

text \<open>The loop at the head of \<open>IncrementClock\<close>.\<close>

definition maxClock :: "(u64, VectorBucket) gomap \<Rightarrow> u64" where
  "maxClock vectors = max_loop (\<lambda>(_, value). vb_clock value) vectors 0"

text \<open>\<open>IncrementClock\<close> stores the maximum plus one and returns the maximum it found.\<close>

definition IncrementClock :: "u64 \<Rightarrow> 'k VectorClock \<Rightarrow> 'k VectorClock \<times> u64" where
  "IncrementClock now m =
     (let mc = maxClock (vc_vectors m);
          newBucket = \<lparr>vb_clock = mc + 1, vb_lastUpdate = now\<rparr>
      in (m\<lparr>vc_vectors := gm_put (vc_hashFunc m (vc_processID m)) newBucket (vc_vectors m)\<rparr>, mc))"

definition VC_GetHash :: "'k VectorClock \<Rightarrow> u64" where
  "VC_GetHash m = fold (\<lambda>(key, bucket) hash. hash + key * (vb_clock bucket + 1)) (vc_vectors m) 0"

definition VC_put :: "u64 \<Rightarrow> u64 \<Rightarrow> u64 \<Rightarrow> 'k VectorClock \<Rightarrow> 'k VectorClock" where
  "VC_put now key value m =
     (let clockValue = (case map_of (vc_vectors m) key of Some bucket \<Rightarrow> vb_clock bucket | None \<Rightarrow> 0)
      in if value > clockValue \<and> value > vc_highestStale m
         then m\<lparr>vc_vectors :=
           gm_put key \<lparr>vb_clock = value, vb_lastUpdate = now\<rparr> (vc_vectors m)\<rparr>
         else m)"

definition VC_Put :: "u64 \<Rightarrow> 'k \<Rightarrow> u64 \<Rightarrow> 'k VectorClock \<Rightarrow> 'k VectorClock" where
  "VC_Put now key value m = VC_put now (vc_hashFunc m key) value m"

definition VC_Merge :: "u64 \<Rightarrow> (u64, u64) gomap \<Rightarrow> 'k VectorClock \<Rightarrow> 'k VectorClock" where
  "VC_Merge now vectors m = fold (\<lambda>(key, value). VC_put now key value) vectors m"

text \<open>\<open>getStale\<close> collects the stale keys and raises \<open>highestStale\<close> on the way.\<close>

definition stale_loop ::
  "u64 \<Rightarrow> u64 \<Rightarrow> (u64, VectorBucket) gomap \<Rightarrow> u64 list \<times> u64 \<Rightarrow> u64 list \<times> u64" where
  "stale_loop maxTimeStamp staleTime vectors =
     fold (\<lambda>(key, bucket) (toRemove, highest).
       if maxTimeStamp - vb_lastUpdate bucket > staleTime
       then (toRemove @ [key], max (vb_clock bucket) highest)
       else (toRemove, highest)) vectors"

definition maxTimeStamp :: "(u64, VectorBucket) gomap \<Rightarrow> u64" where
  "maxTimeStamp vectors = Reduce 0 (MapValues vectors) (\<lambda>i vb. max i (vb_lastUpdate vb))"

definition getStale :: "'k VectorClock \<Rightarrow> 'k VectorClock \<times> u64 list" where
  "getStale m =
     (case stale_loop (maxTimeStamp (vc_vectors m)) (vc_staleTime m) (vc_vectors m)
        ([], vc_highestStale m) of
        (toRemove, highest) \<Rightarrow> (m\<lparr>vc_highestStale := highest\<rparr>, toRemove))"

definition GetStaleCount :: "'k VectorClock \<Rightarrow> u64" where
  "GetStaleCount m = vc_highestStale m"

definition VC_Prune :: "'k VectorClock \<Rightarrow> 'k VectorClock" where
  "VC_Prune m = (case getStale m of
     (m', stale) \<Rightarrow> m'\<lparr>vc_vectors := fold gm_del stale (vc_vectors m')\<rparr>)"

text \<open>
  \<open>GetTimestamp\<close> reads the bucket of the clock's own process, whatever process it is asked about.
  \<open>None\<close> is the nil dereference when the own process has no bucket.
\<close>

definition GetTimestamp :: "'k \<Rightarrow> 'k VectorClock \<Rightarrow> u64 option" where
  "GetTimestamp processId m =
     map_option vb_lastUpdate (map_of (vc_vectors m) (vc_hashFunc m (vc_processID m)))"

definition VC_GetClock :: "'k VectorClock \<Rightarrow> (u64, u64) gomap" where
  "VC_GetClock m = gm_build vb_clock (vc_vectors m)"

section \<open>Well-formedness and the clock of a process\<close>

definition vc_wf :: "'k VectorClock \<Rightarrow> bool" where
  "vc_wf m \<longleftrightarrow> gm_wf (vc_vectors m)"

text \<open>The abstract view: the clock value of a process, 0 when it has none.\<close>

definition clock_of :: "'k VectorClock \<Rightarrow> u64 \<Rightarrow> u64" where
  "clock_of m key = (case map_of (vc_vectors m) key of Some b \<Rightarrow> vb_clock b | None \<Rightarrow> 0)"

lemma NewVectorClock_wf [simp]: "vc_wf (NewVectorClock p h s)"
  by (simp add: vc_wf_def NewVectorClock_def)

lemma IncrementClock_wf [inv_intros, simp]: "vc_wf m \<Longrightarrow> vc_wf (fst (IncrementClock now m))"
  by (simp add: vc_wf_def IncrementClock_def Let_def)

lemma VC_put_wf [inv_intros, simp]: "vc_wf m \<Longrightarrow> vc_wf (VC_put now key value m)"
  by (simp add: vc_wf_def VC_put_def Let_def)

lemma VC_Put_wf [inv_intros, simp]: "vc_wf m \<Longrightarrow> vc_wf (VC_Put now key value m)"
  by (simp add: VC_Put_def)

lemma VC_Merge_wf [inv_intros, simp]: "vc_wf m \<Longrightarrow> vc_wf (VC_Merge now vs m)"
  unfolding VC_Merge_def by (induction vs arbitrary: m) (auto split: prod.splits)

lemma getStale_vectors [frame_simps, simp]: "vc_vectors (fst (getStale m)) = vc_vectors m"
  by (simp add: getStale_def split: prod.splits)

lemma VC_Prune_wf [inv_intros, simp]: "vc_wf m \<Longrightarrow> vc_wf (VC_Prune m)"
  using alist_map.remove_loop [of "vc_vectors m"]
  by (simp add: vc_wf_def VC_Prune_def case_prod_unfold)

lemma VC_frame [frame_simps, simp]:
  "vc_hashFunc (fst (IncrementClock now m)) = vc_hashFunc m"
  "vc_processID (fst (IncrementClock now m)) = vc_processID m"
  "vc_staleTime (fst (IncrementClock now m)) = vc_staleTime m"
  "vc_highestStale (fst (IncrementClock now m)) = vc_highestStale m"
  "vc_hashFunc (VC_put now key v m) = vc_hashFunc m"
  "vc_processID (VC_put now key v m) = vc_processID m"
  "vc_staleTime (VC_put now key v m) = vc_staleTime m"
  "vc_highestStale (VC_put now key v m) = vc_highestStale m"
  "vc_hashFunc (VC_Put now k v m) = vc_hashFunc m"
  "vc_processID (VC_Put now k v m) = vc_processID m"
  "vc_highestStale (VC_Put now k v m) = vc_highestStale m"
  "vc_hashFunc (fst (getStale m)) = vc_hashFunc m"
  "vc_processID (fst (getStale m)) = vc_processID m"
  "vc_staleTime (fst (getStale m)) = vc_staleTime m"
  by (simp_all add: IncrementClock_def VC_put_def VC_Put_def getStale_def Let_def
    split: prod.splits)

lemma VC_Merge_frame [frame_simps, simp]:
  "vc_hashFunc (VC_Merge now vs m) = vc_hashFunc m"
  "vc_processID (VC_Merge now vs m) = vc_processID m"
  "vc_highestStale (VC_Merge now vs m) = vc_highestStale m"
  unfolding VC_Merge_def by (induction vs arbitrary: m) (auto split: prod.splits)

lemma VC_Prune_frame [frame_simps, simp]:
  "vc_hashFunc (VC_Prune m) = vc_hashFunc m"
  "vc_processID (VC_Prune m) = vc_processID m"
  by (simp_all add: VC_Prune_def case_prod_unfold)

section \<open>The maximum of the clock\<close>

lemma maxClock_ge: "map_of vs key = Some b \<Longrightarrow> vb_clock b \<le> maxClock vs"
  unfolding maxClock_def using max_loop_ge [of "(key, b)" vs "\<lambda>(_, v). vb_clock v"]
  by (auto dest: map_of_SomeD)

lemma clock_of_le_max: "clock_of m key \<le> maxClock (vc_vectors m)"
  by (auto simp: clock_of_def maxClock_ge split: option.splits)

lemma maxClock_le_iff:
  "gm_wf vs \<Longrightarrow> maxClock vs \<le> c \<longleftrightarrow> (\<forall>k b. map_of vs k = Some b \<longrightarrow> vb_clock b \<le> c)"
  by (force simp: maxClock_def max_loop_le_iff simp flip: gm_entry)

text \<open>Overwriting an entry with a value at least as large as the one it replaces.\<close>

lemma maxClock_put_mono:
  assumes "gm_wf vs" and "\<And>b'. map_of vs key = Some b' \<Longrightarrow> vb_clock b' \<le> vb_clock b"
  shows "maxClock vs \<le> maxClock (gm_put key b vs)"
proof -
  have "vb_clock c \<le> maxClock (gm_put key b vs)" if "map_of vs k = Some c" for k c
    using that assms(2) maxClock_ge [of "gm_put key b vs" k] maxClock_ge [of "gm_put key b vs" key b]
    by (cases "k = key") (auto intro: order_trans)
  then show ?thesis using assms(1) by (simp add: maxClock_le_iff)
qed

lemma VC_put_max_mono: "vc_wf m \<Longrightarrow> maxClock (vc_vectors m) \<le> maxClock (vc_vectors (VC_put now k v m))"
  by (auto simp: VC_put_def Let_def vc_wf_def less_imp_le
    intro!: maxClock_put_mono split: option.splits)

lemma VC_put_dominates:
  "v \<le> max (maxClock (vc_vectors (VC_put now k v m))) (vc_highestStale m)"
proof (cases "v > clock_of m k \<and> v > vc_highestStale m")
  case True
  then have "map_of (vc_vectors (VC_put now k v m)) k = Some \<lparr>vb_clock = v, vb_lastUpdate = now\<rparr>"
    by (simp add: VC_put_def clock_of_def Let_def)
  then have "v \<le> maxClock (vc_vectors (VC_put now k v m))" by (auto dest: maxClock_ge)
  then show ?thesis by (simp add: le_max_iff_disj)
next
  case False
  then have "VC_put now k v m = m" by (auto simp: VC_put_def clock_of_def Let_def)
  moreover have "v \<le> maxClock (vc_vectors m) \<or> v \<le> vc_highestStale m"
    using False clock_of_le_max [of m k] by (auto intro: order_trans)
  ultimately show ?thesis by (simp add: le_max_iff_disj)
qed

lemma VC_Merge_max_mono:
  "vc_wf m \<Longrightarrow> maxClock (vc_vectors m) \<le> maxClock (vc_vectors (VC_Merge now vs m))"
proof (induction vs arbitrary: m)
  case (Cons p vs)
  obtain k v where "p = (k, v)" by force
  then show ?case
    using Cons.IH [of "VC_put now k v m"] Cons.prems VC_put_max_mono [of m now k v]
    by (auto simp: VC_Merge_def intro: order_trans)
qed (simp add: VC_Merge_def)

section \<open>The increment\<close>

lemma maxClock_IncrementClock:
  assumes "vc_wf m" and "unat (maxClock (vc_vectors m)) + 1 < 2 ^ 64"
  shows "maxClock (vc_vectors (fst (IncrementClock now m))) = maxClock (vc_vectors m) + 1"
proof (rule order_antisym)
  let ?mc = "maxClock (vc_vectors m)"
  have lt: "?mc < ?mc + 1" using assms(2) by (intro word_less_plus_one) simp
  then show "maxClock (vc_vectors (fst (IncrementClock now m))) \<le> ?mc + 1"
    using assms(1) maxClock_ge [of "vc_vectors m"]
    by (auto simp: IncrementClock_def Let_def vc_wf_def maxClock_le_iff intro: less_imp_le le_less_trans)
  show "?mc + 1 \<le> maxClock (vc_vectors (fst (IncrementClock now m)))"
    by (rule order_trans [OF _ maxClock_ge [of _ "vc_hashFunc m (vc_processID m)"
        "\<lparr>vb_clock = ?mc + 1, vb_lastUpdate = now\<rparr>"]])
      (simp_all add: IncrementClock_def Let_def)
qed

lemma snd_IncrementClock [simp]: "snd (IncrementClock now m) = maxClock (vc_vectors m)"
  by (simp add: IncrementClock_def Let_def)

lemma clock_of_IncrementClock:
  "clock_of (fst (IncrementClock now m)) key =
    (if key = vc_hashFunc m (vc_processID m) then maxClock (vc_vectors m) + 1 else clock_of m key)"
  by (simp add: IncrementClock_def Let_def clock_of_def)

text \<open>C29: after an increment the own entry is one above everything the clock has seen, and no
  other entry moves. So the values two successive increments return differ by one and are never
  handed out twice, as long as the 64-bit counter does not wrap.\<close>

theorem increment_clock_is_above_all:
  assumes "vc_wf m" and "unat (maxClock (vc_vectors m)) + 1 < 2 ^ 64"
    and "IncrementClock now m = (m', mc)"
  shows "vc_wf m' \<and> clock_of m' (vc_hashFunc m (vc_processID m)) = mc + 1
    \<and> (\<forall>key. clock_of m key \<le> mc \<and> mc < mc + 1)
    \<and> (\<forall>key. key \<noteq> vc_hashFunc m (vc_processID m) \<longrightarrow> clock_of m' key = clock_of m key)
    \<and> snd (IncrementClock now' m') = mc + 1"
  using assms(3) IncrementClock_wf [OF assms(1), of now] clock_of_IncrementClock [of now m]
    maxClock_IncrementClock [OF assms(1,2), of now] clock_of_le_max [of m]
    word_less_plus_one [of mc] assms(2) snd_IncrementClock [of now m] snd_IncrementClock [of now' m']
  by (auto simp del: snd_IncrementClock)

theorem increment_clock_is_above_all_witness:
  "\<exists>m' mc. IncrementClock 5 (NewVectorClock ''a'' fnv64a 9) = (m', mc)
    \<and> clock_of m' (fnv64a ''a'') = mc + 1 \<and> snd (IncrementClock 6 m') = mc + 1"
proof -
  let ?m = "NewVectorClock ''a'' fnv64a 9"
  obtain m' mc where run: "IncrementClock 5 ?m = (m', mc)" by force
  have "unat (maxClock (vc_vectors ?m)) + 1 < 2 ^ 64"
    by (simp add: NewVectorClock_def maxClock_def)
  then have "clock_of m' (vc_hashFunc ?m (vc_processID ?m)) = mc + 1
    \<and> snd (IncrementClock 6 m') = mc + 1"
    using increment_clock_is_above_all [OF NewVectorClock_wf _ run, of 6] by blast
  then show ?thesis using run by (auto simp: NewVectorClock_def)
qed

section \<open>Merging clocks\<close>

lemma clock_of_VC_put:
  "clock_of (VC_put now key v m) j =
    (if j = key \<and> v > vc_highestStale m then max (clock_of m j) v else clock_of m j)"
  by (auto simp: VC_put_def clock_of_def Let_def max_def split: option.splits)

lemma clock_of_VC_Merge:
  assumes "gm_wf vs"
  shows "clock_of (VC_Merge now vs m) key =
    (case map_of vs key of
       Some v \<Rightarrow> if v > vc_highestStale m then max (clock_of m key) v else clock_of m key
     | None \<Rightarrow> clock_of m key)"
  using assms
proof (induction vs arbitrary: m)
  case (Cons p vs)
  obtain k v where p: "p = (k, v)" by force
  with Cons.prems have wf: "gm_wf vs" and "map_of vs k = None"
    by (auto simp: gm_wf_def map_of_eq_None_iff)
  then show ?case
    using Cons.IH [OF wf, of "VC_put now k v m"]
    by (auto simp: VC_Merge_def p clock_of_VC_put split: option.splits)
qed (simp add: VC_Merge_def)

text \<open>Merging a peer's clock takes the pointwise maximum. An entry at or below the highest
  clock that was garbage collected is ignored, so a pruned process cannot come back through an old
  message. The result does not depend on the order in which the peer's map is visited.\<close>

lemma clock_merge_is_pointwise_max:
  assumes "gm_wf vs"
  shows "clock_of (VC_Merge now vs m) key =
    (case map_of vs key of
       Some v \<Rightarrow> if v > vc_highestStale m then max (clock_of m key) v else clock_of m key
     | None \<Rightarrow> clock_of m key)"
  using assms by (rule clock_of_VC_Merge)


section \<open>The hash\<close>

lemma VC_GetHash_eq:
  "VC_GetHash m = sum_list (map (\<lambda>(key, b). key * (vb_clock b + 1)) (vc_vectors m))"
  using sum_loop_eq [of "\<lambda>(key, b). key * (vb_clock b + 1)" "vc_vectors m" 0]
  by (simp add: VC_GetHash_def case_prod_unfold)

lemma VC_GetHash_cong:
  assumes "vc_wf m" and "vc_wf m'" and "map_of (vc_vectors m) = map_of (vc_vectors m')"
  shows "VC_GetHash m = VC_GetHash m'"
proof -
  have "mset (vc_vectors m) = mset (vc_vectors m')"
    using assms unfolding vc_wf_def by (rule gm_same_lookup_mset)
  then show ?thesis unfolding VC_GetHash_eq by (rule sum_list_map_mset)
qed

section \<open>Garbage collection\<close>

definition is_stale :: "'k VectorClock \<Rightarrow> VectorBucket \<Rightarrow> bool" where
  "is_stale m b \<longleftrightarrow> maxTimeStamp (vc_vectors m) - vb_lastUpdate b > vc_staleTime m"

lemma stale_loop_eq:
  "stale_loop ts st vs (ks, h) =
    (ks @ map fst (filter (\<lambda>(k, b). ts - vb_lastUpdate b > st) vs),
     max_loop (\<lambda>(k, b). vb_clock b) (filter (\<lambda>(k, b). ts - vb_lastUpdate b > st) vs) h)"
  by (induction vs arbitrary: ks h) (auto simp: stale_loop_def max.commute)

lemma getStale_keys:
  "vc_wf m \<Longrightarrow> key \<in> set (snd (getStale m))
    \<longleftrightarrow> (\<exists>b. map_of (vc_vectors m) key = Some b \<and> is_stale m b)"
  using gm_entry [of "vc_vectors m" key]
  by (auto simp: getStale_def stale_loop_eq is_stale_def vc_wf_def image_iff)

lemma getStale_highest:
  assumes "vc_wf m"
  shows "vc_highestStale m \<le> vc_highestStale (fst (getStale m))"
    and "map_of (vc_vectors m) key = Some b \<Longrightarrow> is_stale m b
      \<Longrightarrow> vb_clock b \<le> vc_highestStale (fst (getStale m))"
proof -
  let ?stale = "filter (\<lambda>(k, b). is_stale m b) (vc_vectors m)"
  have h: "vc_highestStale (fst (getStale m)) = max_loop (\<lambda>(k, b). vb_clock b) ?stale (vc_highestStale m)"
    by (simp add: getStale_def stale_loop_eq is_stale_def)
  show "vc_highestStale m \<le> vc_highestStale (fst (getStale m))"
    by (simp add: h max_loop_ge_start)
  show "vb_clock b \<le> vc_highestStale (fst (getStale m))"
    if "map_of (vc_vectors m) key = Some b" "is_stale m b"
    using max_loop_ge [of "(key, b)" ?stale "\<lambda>(k, b). vb_clock b"] that
    by (simp add: h map_of_SomeD)
qed

lemma getStale_again:
  "maxTimeStamp (vc_vectors (fst (getStale m))) = maxTimeStamp (vc_vectors m)"
  "snd (getStale (fst (getStale m))) = snd (getStale m)"
  by (simp_all add: getStale_def stale_loop_eq)

lemma map_of_VC_Prune:
  assumes "vc_wf m"
  shows "map_of (vc_vectors (VC_Prune m)) key =
    (case map_of (vc_vectors m) key of
       Some b \<Rightarrow> if is_stale m b then None else Some b | None \<Rightarrow> None)"
  using alist_map.remove_loop [of "vc_vectors m" "snd (getStale m)" key] getStale_keys [OF assms]
    assms
  by (auto simp: VC_Prune_def vc_wf_def case_prod_unfold split: option.splits)

lemma VC_Prune_highest [simp]: "vc_highestStale (VC_Prune m) = vc_highestStale (fst (getStale m))"
  by (simp add: VC_Prune_def case_prod_unfold)

lemma maxTimeStamp_eq: "maxTimeStamp vs = max_loop (\<lambda>(k, b). vb_lastUpdate b) vs 0"
  by (simp add: maxTimeStamp_def Reduce_def max_loop_def fold_map comp_def case_prod_unfold)

lemma newest_not_stale:
  assumes "vc_wf m" and "vc_vectors m \<noteq> []"
  shows "\<exists>key b. map_of (vc_vectors m) key = Some b \<and> \<not> is_stale m b"
proof (cases "maxTimeStamp (vc_vectors m) = 0")
  case True
  obtain key b where "map_of (vc_vectors m) key = Some b"
    using assms(2) by (cases "vc_vectors m") (fastforce split: if_splits)+
  moreover have "vb_lastUpdate b \<le> maxTimeStamp (vc_vectors m)"
    using calculation max_loop_ge [of "(key, b)" "vc_vectors m" "\<lambda>(k, b). vb_lastUpdate b" 0]
    by (auto simp: maxTimeStamp_eq dest: map_of_SomeD)
  ultimately have "\<not> is_stale m b" using True by (simp add: is_stale_def)
  then show ?thesis using \<open>map_of (vc_vectors m) key = Some b\<close> by blast
next
  case False
  then obtain key b where "(key, b) \<in> set (vc_vectors m)"
    "maxTimeStamp (vc_vectors m) = vb_lastUpdate b"
    using max_loop_attained [of "\<lambda>(k, b). vb_lastUpdate b" "vc_vectors m" 0]
    by (auto simp: maxTimeStamp_eq)
  then have "map_of (vc_vectors m) key = Some b \<and> \<not> is_stale m b"
    using assms(1) by (simp add: is_stale_def vc_wf_def gm_entry)
  then show ?thesis by blast
qed

text \<open>Pruning removes exactly the entries that are older than the stale time relative to the
  newest entry, keeps the newest one, and records a bound: no clock value it removed can be put
  back afterwards, by a direct put or by merging a peer's clock.\<close>

lemma prune_removes_stale_for_good:
  assumes "vc_wf m" and "vc_vectors m \<noteq> []" and "map_of (vc_vectors m) key = Some b"
    and "is_stale m b" and "v \<le> vb_clock b"
  shows "map_of (vc_vectors (VC_Prune m)) key = None
    \<and> VC_put now key v (VC_Prune m) = VC_Prune m
    \<and> vc_vectors (VC_Prune m) \<noteq> []"
proof -
  have gone: "map_of (vc_vectors (VC_Prune m)) key = None"
    using assms by (simp add: map_of_VC_Prune)
  have "v \<le> vc_highestStale (VC_Prune m)"
    using getStale_highest(2) [OF assms(1,3,4)] assms(5) by simp
  then have "VC_put now key v (VC_Prune m) = VC_Prune m"
    by (auto simp: VC_put_def Let_def)
  moreover have "vc_vectors (VC_Prune m) \<noteq> []"
  proof -
    obtain j c where "map_of (vc_vectors m) j = Some c" "\<not> is_stale m c"
      using newest_not_stale [OF assms(1,2)] by blast
    then have "map_of (vc_vectors (VC_Prune m)) j = Some c"
      by (simp add: map_of_VC_Prune [OF assms(1)])
    then show ?thesis by auto
  qed
  ultimately show ?thesis using gone by simp
qed


text \<open>The maximum over the clock and the pruned bound never drops.\<close>

lemma VC_Prune_bound:
  assumes "vc_wf m"
  shows "max (maxClock (vc_vectors m)) (vc_highestStale m)
    \<le> max (maxClock (vc_vectors (VC_Prune m))) (vc_highestStale (VC_Prune m))"
proof -
  have "vb_clock b \<le> max (maxClock (vc_vectors (VC_Prune m))) (vc_highestStale (VC_Prune m))"
    if "map_of (vc_vectors m) key = Some b" for key b
  proof (cases "is_stale m b")
    case True
    then show ?thesis using getStale_highest(2) [OF assms that] by (simp add: le_max_iff_disj)
  next
    case False
    then have "map_of (vc_vectors (VC_Prune m)) key = Some b"
      using that by (simp add: map_of_VC_Prune [OF assms])
    then show ?thesis by (simp add: maxClock_ge le_max_iff_disj)
  qed
  then show ?thesis
    using assms getStale_highest(1) [OF assms]
    by (intro max.boundedI) (auto simp: maxClock_le_iff vc_wf_def intro: order_trans)
qed

text \<open>The timestamp read for any process is the one of the clock's own process: the argument
  is not used, so the time of last contact with another node is never read.\<close>

lemma get_timestamp_ignores_its_argument:
  "GetTimestamp p m = GetTimestamp q m
   \<and> GetTimestamp p m
     = map_option vb_lastUpdate (map_of (vc_vectors m) (vc_hashFunc m (vc_processID m)))"
  by (simp add: GetTimestamp_def)

end
