(* ===== verification/G_Map.thy ===== *)
theory G_Map
  imports Vector_Clock
begin

text \<open>
  \<open>src/pkg/crdt/g_map.go\<close>: the grow-only map, a last-writer-wins register per hashed key. The
  clock is shared by pointer between the maps of a store, so the operations that use it take the
  clock as an argument and return it. \<open>zero\<close> is Go's zero value of the contents type, which a
  lookup of a missing key yields.

  The abstract view forgets the gravestone, which is local to a node: a map from keys to pairs of
  vector and contents, merged by keeping the larger vector. The locale \<open>replica_join\<close> states what
  replication needs of a merge and derives that the order, grouping and repetition of merges do not
  matter; it is interpreted on that view.
\<close>

section \<open>State and operations\<close>

record 'd Bucket =
  Vector :: u64
  Contents :: 'd
  Gravestone :: bool

type_synonym 'd GMap = "(u64, 'd Bucket) gomap"

definition zeroBucket :: "'d \<Rightarrow> 'd Bucket" where
  "zeroBucket zero = \<lparr>Vector = 0, Contents = zero, Gravestone = False\<rparr>"

definition NewGMap :: "'d GMap" where
  "NewGMap = []"

definition GM_Put ::
  "u64 \<Rightarrow> 'k \<Rightarrow> 'd \<Rightarrow> 'k VectorClock \<times> 'd GMap \<Rightarrow> 'k VectorClock \<times> 'd GMap" where
  "GM_Put now key value = (\<lambda>(clk, contents).
     case IncrementClock now clk of (clk', clock) \<Rightarrow>
       (clk', gm_put (vc_hashFunc clk key)
          \<lparr>Vector = clock, Contents = value, Gravestone = False\<rparr> contents))"

definition GM_contains :: "u64 \<Rightarrow> 'd GMap \<Rightarrow> bool" where
  "GM_contains key contents = (case map_of contents key of Some _ \<Rightarrow> True | None \<Rightarrow> False)"

definition GM_Contains :: "'k VectorClock \<Rightarrow> 'k \<Rightarrow> 'd GMap \<Rightarrow> bool" where
  "GM_Contains clk key contents = GM_contains (vc_hashFunc clk key) contents"

definition vector_at :: "'d GMap \<Rightarrow> u64 \<Rightarrow> u64" where
  "vector_at contents key = (case map_of contents key of Some b \<Rightarrow> Vector b | None \<Rightarrow> 0)"

definition GM_put :: "u64 \<Rightarrow> 'd Bucket \<Rightarrow> 'd GMap \<Rightarrow> 'd GMap" where
  "GM_put key b contents =
     (if vector_at contents key < Vector b then gm_put key b contents else contents)"

definition GM_get :: "'d \<Rightarrow> u64 \<Rightarrow> 'd GMap \<Rightarrow> 'd Bucket" where
  "GM_get zero key contents =
     (case map_of contents key of Some b \<Rightarrow> b | None \<Rightarrow> zeroBucket zero)"

definition GM_Get :: "'d \<Rightarrow> 'k VectorClock \<Rightarrow> 'k \<Rightarrow> 'd GMap \<Rightarrow> 'd" where
  "GM_Get zero clk key contents =
     (if \<not> GM_Contains clk key contents then zero
      else Contents (GM_get zero (vc_hashFunc clk key) contents))"

definition GM_Mark :: "'d \<Rightarrow> 'k VectorClock \<Rightarrow> 'k \<Rightarrow> 'd GMap \<Rightarrow> 'd GMap" where
  "GM_Mark zero clk key contents =
     (if \<not> GM_Contains clk key contents then contents
      else let bucket = GM_get zero (vc_hashFunc clk key) contents
           in gm_put (vc_hashFunc clk key) (bucket\<lparr>Gravestone := True\<rparr>) contents)"

definition GM_IsMarked :: "'k VectorClock \<Rightarrow> 'k \<Rightarrow> 'd GMap \<Rightarrow> bool" where
  "GM_IsMarked clk key contents =
     (case map_of contents (vc_hashFunc clk key) of Some bucket \<Rightarrow> Gravestone bucket | None \<Rightarrow> False)"

definition GM_Keys :: "'d GMap \<Rightarrow> u64 list" where
  "GM_Keys contents = fold (\<lambda>(key, _) keys. keys @ [key]) contents []"

definition GM_Save :: "'d GMap \<Rightarrow> 'd GMap" where
  "GM_Save contents = fold (\<lambda>(key, value) buckets. gm_put key value buckets) contents []"

definition GM_SaveWithKeys :: "'d \<Rightarrow> u64 list \<Rightarrow> 'd GMap \<Rightarrow> 'd GMap" where
  "GM_SaveWithKeys zero keys contents =
     fold (\<lambda>key buckets. gm_put key (GM_get zero key contents) buckets) keys []"

definition GM_GetClock :: "'d GMap \<Rightarrow> (u64, u64) gomap" where
  "GM_GetClock contents = gm_build Vector contents"

definition GM_GetHash :: "'d GMap \<Rightarrow> u64" where
  "GM_GetHash contents = fold (\<lambda>(_, value) hash. hash + Vector value) contents 0"

definition GM_Prune :: "'k VectorClock \<times> 'd GMap \<Rightarrow> 'k VectorClock \<times> 'd GMap" where
  "GM_Prune = (\<lambda>(clk, contents).
     case getStale clk of (clk', stale) \<Rightarrow> (clk', fold gm_del stale contents))"

section \<open>Lookups after each operation\<close>

lemma GM_Keys_eq [simp]: "GM_Keys g = map fst g"
  using append_loop [of fst g "[]"] by (simp add: GM_Keys_def case_prod_unfold)

lemma GM_contains_iff: "GM_contains key g \<longleftrightarrow> map_of g key \<noteq> None"
  by (simp add: GM_contains_def split: option.splits)

lemma map_of_GM_put:
  "map_of (GM_put key b g) j =
    (if j = key \<and> vector_at g key < Vector b then Some b else map_of g j)"
  by (simp add: GM_put_def)

lemma GM_put_wf [simp]: "gm_wf g \<Longrightarrow> gm_wf (GM_put key b g)"
  by (simp add: GM_put_def)

lemma map_of_GM_Put:
  "map_of (snd (GM_Put now key v (clk, g))) j =
    (if j = vc_hashFunc clk key
     then Some \<lparr>Vector = maxClock (vc_vectors clk), Contents = v, Gravestone = False\<rparr>
     else map_of g j)"
  by (simp add: GM_Put_def IncrementClock_def Let_def)

lemma fst_GM_Put [simp]: "fst (GM_Put now key v (clk, g)) = fst (IncrementClock now clk)"
  by (simp add: GM_Put_def split: prod.splits)

lemma GM_Put_wf [simp]: "gm_wf g \<Longrightarrow> gm_wf (snd (GM_Put now key v (clk, g)))"
  by (simp add: GM_Put_def split: prod.splits)

lemma map_of_GM_Mark:
  "map_of (GM_Mark zero clk key g) j =
    (if j = vc_hashFunc clk key then map_option (\<lambda>b. b\<lparr>Gravestone := True\<rparr>) (map_of g j)
     else map_of g j)"
  by (simp add: GM_Mark_def GM_Contains_def GM_contains_def GM_get_def Let_def
    split: option.splits)

lemma GM_Mark_wf [simp]: "gm_wf g \<Longrightarrow> gm_wf (GM_Mark zero clk key g)"
  by (simp add: GM_Mark_def Let_def)

lemma map_of_GM_Save [simp]: "gm_wf g \<Longrightarrow> map_of (GM_Save g) = map_of g"
  using map_of_gm_build [of g "\<lambda>x. x"] by (auto simp: GM_Save_def gm_build_def option.map_ident)

lemma GM_Save_wf [simp]: "gm_wf (GM_Save g)"
  using gm_wf_build [of "\<lambda>x. x" g] by (simp add: GM_Save_def gm_build_def)

lemma map_of_GM_SaveWithKeys:
  "map_of (GM_SaveWithKeys zero keys g) j = (if j \<in> set keys then Some (GM_get zero j g) else None)"
proof -
  have "map_of (fold (\<lambda>key bs. gm_put key (GM_get zero key g) bs) keys acc) j
      = (if j \<in> set keys then Some (GM_get zero j g) else map_of acc j)" for acc
    by (induction keys arbitrary: acc) auto
  then show ?thesis by (simp add: GM_SaveWithKeys_def)
qed

lemma GM_SaveWithKeys_wf [simp]: "gm_wf (GM_SaveWithKeys zero keys g)"
proof -
  have "gm_wf acc \<Longrightarrow> gm_wf (fold (\<lambda>key bs. gm_put key (GM_get zero key g) bs) keys acc)" for acc
    by (induction keys arbitrary: acc) auto
  then show ?thesis by (simp add: GM_SaveWithKeys_def)
qed

lemma map_of_GM_GetClock [simp]:
  "gm_wf g \<Longrightarrow> map_of (GM_GetClock g) key = map_option Vector (map_of g key)"
  by (simp add: GM_GetClock_def map_of_gm_build)

lemma GM_GetClock_wf [simp]: "gm_wf (GM_GetClock g)"
  by (simp add: GM_GetClock_def)

lemma GM_Prune_wf [simp]: "gm_wf g \<Longrightarrow> gm_wf (snd (GM_Prune (clk, g)))"
  using alist_map.remove_loop [of g] by (simp add: GM_Prune_def case_prod_unfold)

lemma fst_GM_Prune [simp]: "fst (GM_Prune (clk, g)) = fst (getStale clk)"
  by (simp add: GM_Prune_def split: prod.splits)

lemma map_of_GM_Prune:
  assumes "gm_wf g" and "vc_wf clk"
  shows "map_of (snd (GM_Prune (clk, g))) key =
    (if \<exists>b. map_of (vc_vectors clk) key = Some b \<and> is_stale clk b then None else map_of g key)"
  using alist_map.remove_loop [OF assms(1), of "snd (getStale clk)" key] getStale_keys [OF assms(2)]
  by (simp add: GM_Prune_def case_prod_unfold)

lemma GM_GetHash_eq: "GM_GetHash g = sum_list (map (\<lambda>(_, b). Vector b) g)"
  using sum_loop_eq [of "\<lambda>(_, b). Vector b" g 0] by (simp add: GM_GetHash_def case_prod_unfold)

section \<open>Merging as a join\<close>

text \<open>What replication needs of a merge on a set of states that can occur together.\<close>

locale replica_join =
  fixes states :: "'s set" and join :: "'s \<Rightarrow> 's \<Rightarrow> 's"
  assumes closed: "a \<in> states \<Longrightarrow> b \<in> states \<Longrightarrow> join a b \<in> states"
    and idem: "a \<in> states \<Longrightarrow> join a a = a"
    and commute: "a \<in> states \<Longrightarrow> b \<in> states \<Longrightarrow> join a b = join b a"
    and assoc: "a \<in> states \<Longrightarrow> b \<in> states \<Longrightarrow> c \<in> states \<Longrightarrow> join (join a b) c = join a (join b c)"
begin

definition absorb :: "'s list \<Rightarrow> 's \<Rightarrow> 's" where
  "absorb msgs s = fold (\<lambda>m s. join s m) msgs s"

lemma absorb_simps [simp]: "absorb [] s = s" "absorb (m # msgs) s = absorb msgs (join s m)"
  by (simp_all add: absorb_def)

lemma absorb_closed: "s \<in> states \<Longrightarrow> set msgs \<subseteq> states \<Longrightarrow> absorb msgs s \<in> states"
  by (induction msgs arbitrary: s) (auto simp: closed)

lemma absorb_swap:
  "s \<in> states \<Longrightarrow> m \<in> states \<Longrightarrow> set msgs \<subseteq> states \<Longrightarrow> absorb msgs (join s m) = join (absorb msgs s) m"
proof (induction msgs arbitrary: s)
  case (Cons a msgs)
  then have "join (join s m) a = join (join s a) m" by (simp add: assoc commute [of m a])
  with Cons show ?case by (simp add: closed)
qed simp

text \<open>A message that was already absorbed changes nothing.\<close>

lemma absorb_again:
  "s \<in> states \<Longrightarrow> set msgs \<subseteq> states \<Longrightarrow> m \<in> set msgs \<Longrightarrow> join (absorb msgs s) m = absorb msgs s"
proof (induction msgs arbitrary: s)
  case (Cons a msgs)
  show ?case
  proof (cases "m = a")
    case True
    with Cons.prems show ?thesis
      by (simp add: absorb_swap [symmetric] closed assoc idem)
  next
    case False
    with Cons show ?thesis by (simp add: closed)
  qed
qed simp

lemma absorb_all_again:
  "s \<in> states \<Longrightarrow> set msgs \<subseteq> states \<Longrightarrow> set again \<subseteq> set msgs \<Longrightarrow> absorb again (absorb msgs s) = absorb msgs s"
  by (induction again) (auto simp: absorb_again)

lemma absorb_append: "absorb (xs @ ys) s = absorb ys (absorb xs s)"
  by (simp add: absorb_def)

lemma absorb_commute:
  "s \<in> states \<Longrightarrow> set xs \<subseteq> states \<Longrightarrow> set ys \<subseteq> states \<Longrightarrow> absorb xs (absorb ys s) = absorb ys (absorb xs s)"
proof (induction xs arbitrary: s)
  case (Cons x xs)
  then have "absorb xs (join (absorb ys s) x) = absorb xs (absorb ys (join s x))"
    by (simp add: absorb_swap)
  with Cons show ?case by (simp add: closed)
qed simp

text \<open>Replicas that received the same messages agree, however often and in whatever order.\<close>

theorem convergence:
  assumes "s \<in> states" and "set xs = set ys" and "set ys \<subseteq> states"
  shows "absorb xs s = absorb ys s"
proof -
  have "absorb xs s = absorb ys (absorb xs s)"
    using assms by (simp add: absorb_all_again)
  also have "\<dots> = absorb xs (absorb ys s)" using assms by (simp add: absorb_commute)
  also have "\<dots> = absorb ys s" using assms by (simp add: absorb_all_again)
  finally show ?thesis .
qed

end

text \<open>The view of a register and its join: the larger vector wins, the left one on a tie.\<close>

type_synonym 'd reg = "(u64 \<times> 'd) option"

definition bucket_view :: "'d Bucket \<Rightarrow> u64 \<times> 'd" where
  "bucket_view b = (Vector b, Contents b)"

definition view :: "'d GMap \<Rightarrow> u64 \<Rightarrow> 'd reg" where
  "view g key = map_option bucket_view (map_of g key)"

definition reg_join :: "'d reg \<Rightarrow> 'd reg \<Rightarrow> 'd reg" where
  "reg_join a b = (case b of None \<Rightarrow> a
     | Some (w, _) \<Rightarrow> if (case a of None \<Rightarrow> 0 | Some (v, _) \<Rightarrow> v) < w then b else a)"

definition map_join :: "(u64 \<Rightarrow> 'd reg) \<Rightarrow> (u64 \<Rightarrow> 'd reg) \<Rightarrow> (u64 \<Rightarrow> 'd reg)" where
  "map_join f g key = reg_join (f key) (g key)"

text \<open>
  The states that can occur together: \<open>hist key v\<close> is what was written under \<open>key\<close> with vector
  \<open>v\<close>, so a vector determines the contents (a node writes only its own key, and its vectors
  increase), and no vector is 0.
\<close>

definition lww_states :: "(u64 \<Rightarrow> u64 \<Rightarrow> 'd) \<Rightarrow> (u64 \<Rightarrow> 'd reg) set" where
  "lww_states hist = {f. \<forall>key v d. f key = Some (v, d) \<longrightarrow> 0 < v \<and> d = hist key v}"

lemma lww_statesD: "f \<in> lww_states hist \<Longrightarrow> f key = Some (v, d) \<Longrightarrow> 0 < v \<and> d = hist key v"
  by (simp add: lww_states_def)

interpretation lww: replica_join "lww_states hist" map_join for hist
proof unfold_locales
  fix a b c
  assume a: "a \<in> lww_states hist"
  show "map_join a a = a"
    by (rule ext) (auto simp: map_join_def reg_join_def split: option.splits)
  assume b: "b \<in> lww_states hist"
  show "map_join a b \<in> lww_states hist"
    using a b by (auto simp: map_join_def reg_join_def lww_states_def split: option.splits if_splits)
  show "map_join a b = map_join b a"
  proof
    fix key
    show "map_join a b key = map_join b a key"
      using lww_statesD [OF a, of key] lww_statesD [OF b, of key]
      by (cases "a key"; cases "b key") (auto simp: map_join_def reg_join_def)
  qed
  assume c: "c \<in> lww_states hist"
  show "map_join (map_join a b) c = map_join a (map_join b c)"
    by (rule ext) (auto simp: map_join_def reg_join_def split: option.splits if_splits
      dest: lww_statesD [OF c])
qed

text \<open>\<open>GM_put\<close> refines the register join, key by key.\<close>

lemma view_GM_put:
  "view (GM_put key b g) j =
    (if j = key then reg_join (view g key) (Some (bucket_view b)) else view g j)"
  by (auto simp: view_def GM_put_def vector_at_def reg_join_def bucket_view_def split: option.splits)

text \<open>The merge loop over a snapshot refines the pointwise join.\<close>

definition GM_merge :: "'d GMap \<Rightarrow> 'd GMap \<Rightarrow> 'd GMap" where
  "GM_merge snapshot g = fold (\<lambda>(key, value) g. GM_put key value g) snapshot g"

lemma GM_merge_wf [simp]: "gm_wf g \<Longrightarrow> gm_wf (GM_merge s g)"
  unfolding GM_merge_def by (induction s arbitrary: g) auto

lemma map_of_GM_merge:
  assumes "gm_wf s"
  shows "map_of (GM_merge s g) key =
    (case map_of s key of
       Some b \<Rightarrow> if vector_at g key < Vector b then Some b else map_of g key
     | None \<Rightarrow> map_of g key)"
  using assms
proof (induction s arbitrary: g)
  case (Cons p s)
  obtain k b where p: "p = (k, b)" by force
  with Cons.prems have wf: "gm_wf s" and "map_of s k = None"
    by (auto simp: gm_wf_def map_of_eq_None_iff)
  then show ?case
    using Cons.IH [OF wf, of "GM_put k b g"]
    by (auto simp: GM_merge_def p map_of_GM_put vector_at_def split: option.splits)
qed (simp add: GM_merge_def)

lemma view_GM_merge: "gm_wf s \<Longrightarrow> view (GM_merge s g) = map_join (view g) (view s)"
  by (rule ext) (auto simp: view_def map_of_GM_merge map_join_def reg_join_def bucket_view_def
    vector_at_def split: option.splits)

end
