(* ===== verification/Two_Phase_Map.thy ===== *)
theory Two_Phase_Map
  imports G_Map
begin

text \<open>
  \<open>src/pkg/crdt/two_phase_map.go\<close>: the store of a mesh, an add map and a remove map over one
  shared vector clock. A key is in the map when the add map has it and its remove entry, if any,
  has no larger vector.

  The lemmas show the store's invariant (every vector is bounded by the clock), what \<open>Put\<close>,
  \<open>Remove\<close>, \<open>Mark\<close>, \<open>Merge\<close> and \<open>Prune\<close> do to membership and contents, and that \<open>Merge\<close> is the
  join of the abstract view, so replicas that merge the same snapshots agree. The locale
  \<open>keyed_store\<close> is the interface the data store of the next theories programs against.
\<close>

section \<open>State and operations\<close>

record ('k, 'd) TwoPhaseMap =
  tp_addMap :: "'d GMap"
  tp_removeMap :: "bool GMap"
  tp_Clock :: "'k VectorClock"
  tp_processId :: 'k

record 'd TwoPhaseMapSnapshot =
  Add :: "'d GMap"
  Remove :: "bool GMap"

record TwoPhaseMapState =
  Vectors :: "(u64, u64) gomap"
  AddContents :: "(u64, u64) gomap"
  RemoveContents :: "(u64, u64) gomap"

definition NewTwoPhaseMap :: "'k \<Rightarrow> ('k \<Rightarrow> u64) \<Rightarrow> u64 \<Rightarrow> ('k, 'd) TwoPhaseMap" where
  "NewTwoPhaseMap processId hashKey staleTime =
     \<lparr>tp_addMap = NewGMap, tp_removeMap = NewGMap,
      tp_Clock = NewVectorClock processId hashKey staleTime, tp_processId = processId\<rparr>"

definition TP_contains :: "'d \<Rightarrow> u64 \<Rightarrow> ('k, 'd) TwoPhaseMap \<Rightarrow> bool" where
  "TP_contains zero key m =
     (if \<not> GM_contains key (tp_addMap m) then False
      else let addValue = GM_get zero key (tp_addMap m)
           in if \<not> GM_contains key (tp_removeMap m) then True
              else let removeValue = GM_get False key (tp_removeMap m)
                   in Vector addValue \<ge> Vector removeValue)"

abbreviation tp_hash :: "('k, 'd) TwoPhaseMap \<Rightarrow> 'k \<Rightarrow> u64" where
  "tp_hash m \<equiv> vc_hashFunc (tp_Clock m)"

definition TP_Contains :: "'d \<Rightarrow> 'k \<Rightarrow> ('k, 'd) TwoPhaseMap \<Rightarrow> bool" where
  "TP_Contains zero key m = TP_contains zero (tp_hash m key) m"

definition TP_Get :: "'d \<Rightarrow> 'k \<Rightarrow> ('k, 'd) TwoPhaseMap \<Rightarrow> 'd" where
  "TP_Get zero key m =
     (if \<not> TP_Contains zero key m then zero else GM_Get zero (tp_Clock m) key (tp_addMap m))"

definition TP_get :: "'d \<Rightarrow> u64 \<Rightarrow> ('k, 'd) TwoPhaseMap \<Rightarrow> 'd" where
  "TP_get zero key m =
     (if \<not> TP_contains zero key m then zero else Contents (GM_get zero key (tp_addMap m)))"

definition TP_Put :: "u64 \<Rightarrow> 'k \<Rightarrow> 'd \<Rightarrow> ('k, 'd) TwoPhaseMap \<Rightarrow> ('k, 'd) TwoPhaseMap" where
  "TP_Put now key data m =
     (case IncrementClock now (tp_Clock m) of (clk1, msgSequence) \<Rightarrow>
        let clk2 = VC_Put now key msgSequence clk1
        in case GM_Put now key data (clk2, tp_addMap m) of (clk3, add) \<Rightarrow>
             m\<lparr>tp_Clock := clk3, tp_addMap := add\<rparr>)"

definition TP_Mark :: "'d \<Rightarrow> 'k \<Rightarrow> ('k, 'd) TwoPhaseMap \<Rightarrow> ('k, 'd) TwoPhaseMap" where
  "TP_Mark zero key m = m\<lparr>tp_addMap := GM_Mark zero (tp_Clock m) key (tp_addMap m)\<rparr>"

definition TP_Remove :: "u64 \<Rightarrow> 'k \<Rightarrow> ('k, 'd) TwoPhaseMap \<Rightarrow> ('k, 'd) TwoPhaseMap" where
  "TP_Remove now key m =
     (case GM_Put now key True (tp_Clock m, tp_removeMap m) of (clk, rem) \<Rightarrow>
        m\<lparr>tp_Clock := clk, tp_removeMap := rem\<rparr>)"

definition TP_keys :: "'d \<Rightarrow> ('k, 'd) TwoPhaseMap \<Rightarrow> u64 list" where
  "TP_keys zero m =
     fold (\<lambda>key keys. if \<not> TP_contains zero key m then keys else keys @ [key])
       (GM_Keys (tp_addMap m)) []"

definition TP_AsList :: "'d \<Rightarrow> ('k, 'd) TwoPhaseMap \<Rightarrow> 'd list" where
  "TP_AsList zero m = fold (\<lambda>key theList. theList @ [TP_get zero key m]) (TP_keys zero m) []"

definition TP_Snapshot :: "('k, 'd) TwoPhaseMap \<Rightarrow> 'd TwoPhaseMapSnapshot" where
  "TP_Snapshot m = \<lparr>Add = GM_Save (tp_addMap m), Remove = GM_Save (tp_removeMap m)\<rparr>"

definition SnapShotFromState ::
  "'d \<Rightarrow> TwoPhaseMapState \<Rightarrow> ('k, 'd) TwoPhaseMap \<Rightarrow> 'd TwoPhaseMapSnapshot" where
  "SnapShotFromState zero state m =
     (let addKeys = MapKeys (AddContents state); removeKeys = MapKeys (RemoveContents state)
      in \<lparr>Add = GM_SaveWithKeys zero addKeys (tp_addMap m),
          Remove = GM_SaveWithKeys False removeKeys (tp_removeMap m)\<rparr>)"

definition TP_IsMarked :: "'k \<Rightarrow> ('k, 'd) TwoPhaseMap \<Rightarrow> bool" where
  "TP_IsMarked key m = GM_IsMarked (tp_Clock m) key (tp_addMap m)"

definition TP_GetHash :: "('k, 'd) TwoPhaseMap \<Rightarrow> u64" where
  "TP_GetHash m = (GM_GetHash (tp_addMap m) + 1) * (GM_GetHash (tp_removeMap m) + 1)"

definition GenerateMessage :: "('k, 'd) TwoPhaseMap \<Rightarrow> TwoPhaseMapState" where
  "GenerateMessage m =
     \<lparr>Vectors = VC_GetClock (tp_Clock m), AddContents = GM_GetClock (tp_addMap m),
      RemoveContents = GM_GetClock (tp_removeMap m)\<rparr>"

text \<open>One of the two loops of \<open>Difference\<close>: what \<open>theirs\<close> has newer than \<open>ours\<close>.\<close>

definition difference_loop ::
  "u64 \<Rightarrow> (u64, u64) gomap \<Rightarrow> (u64, u64) gomap \<Rightarrow> (u64, u64) gomap" where
  "difference_loop highestStale ours theirs =
     fold (\<lambda>(key, value) acc.
       if value > highestStale \<and>
          (case map_of ours key of None \<Rightarrow> True | Some otherValue \<Rightarrow> otherValue < value)
       then gm_put key value acc else acc) theirs []"

definition Difference :: "u64 \<Rightarrow> TwoPhaseMapState \<Rightarrow> TwoPhaseMapState \<Rightarrow> TwoPhaseMapState" where
  "Difference highestStale m state =
     \<lparr>Vectors = [],
      AddContents = difference_loop highestStale (AddContents m) (AddContents state),
      RemoveContents = difference_loop highestStale (RemoveContents m) (RemoveContents state)\<rparr>"

definition TP_Merge ::
  "u64 \<Rightarrow> 'd TwoPhaseMapSnapshot \<Rightarrow> ('k, 'd) TwoPhaseMap \<Rightarrow> ('k, 'd) TwoPhaseMap" where
  "TP_Merge now snapshot m =
     fold (\<lambda>(key, value) m.
         m\<lparr>tp_removeMap := GM_put key value (tp_removeMap m),
           tp_Clock := VC_put now key (Vector value) (tp_Clock m)\<rparr>) (Remove snapshot)
       (fold (\<lambda>(key, value) m.
         m\<lparr>tp_addMap := GM_put key value (tp_addMap m),
           tp_Clock := VC_put now key (Vector value) (tp_Clock m)\<rparr>) (Add snapshot) m)"

definition TP_Prune :: "('k, 'd) TwoPhaseMap \<Rightarrow> ('k, 'd) TwoPhaseMap" where
  "TP_Prune m =
     (case GM_Prune (tp_Clock m, tp_addMap m) of (clk1, add) \<Rightarrow>
        case GM_Prune (clk1, tp_removeMap m) of (clk2, rem) \<Rightarrow>
          m\<lparr>tp_addMap := add, tp_removeMap := rem, tp_Clock := VC_Prune clk2\<rparr>)"

section \<open>Membership through vectors\<close>

lemma TP_contains_iff:
  "TP_contains zero key m \<longleftrightarrow> map_of (tp_addMap m) key \<noteq> None
    \<and> vector_at (tp_removeMap m) key \<le> vector_at (tp_addMap m) key"
  by (auto simp: TP_contains_def GM_contains_def GM_get_def vector_at_def Let_def
    split: option.splits)

lemma TP_get_eq:
  "TP_get zero key m = (case map_of (tp_addMap m) key of
     Some b \<Rightarrow> if TP_contains zero key m then Contents b else zero | None \<Rightarrow> zero)"
  by (auto simp: TP_get_def TP_contains_iff GM_get_def split: option.splits)

lemma TP_Get_eq: "TP_Get zero key m = TP_get zero (tp_hash m key) m"
  by (auto simp: TP_Get_def TP_get_def TP_Contains_def GM_Get_def GM_Contains_def GM_contains_def
    TP_contains_iff split: option.splits)

lemma skip_loop:
  "fold (\<lambda>x acc. if \<not> P x then acc else acc @ [x]) xs acc = acc @ filter P xs"
  by (induction xs arbitrary: acc) auto

lemma TP_keys_eq: "TP_keys zero m = filter (\<lambda>key. TP_contains zero key m) (map fst (tp_addMap m))"
  by (simp add: TP_keys_def skip_loop del: not_False_eq_True)

lemma set_TP_keys: "set (TP_keys zero m) = {key. TP_contains zero key m}"
  by (force simp: TP_keys_eq TP_contains_iff map_of_eq_None_iff)

lemma TP_AsList_eq: "TP_AsList zero m = map (\<lambda>key. TP_get zero key m) (TP_keys zero m)"
  by (simp add: TP_AsList_def append_loop)

section \<open>The invariant\<close>

definition tp_bound :: "('k, 'd) TwoPhaseMap \<Rightarrow> u64" where
  "tp_bound m = max (maxClock (vc_vectors (tp_Clock m))) (vc_highestStale (tp_Clock m))"

definition tp_wf :: "('k, 'd) TwoPhaseMap \<Rightarrow> bool" where
  "tp_wf m \<longleftrightarrow> gm_wf (tp_addMap m) \<and> gm_wf (tp_removeMap m) \<and> vc_wf (tp_Clock m)"

text \<open>Every vector in the store is at most the largest clock seen or pruned.\<close>

definition tp_inv :: "('k, 'd) TwoPhaseMap \<Rightarrow> bool" where
  "tp_inv m \<longleftrightarrow> tp_wf m \<and> (\<forall>key. vector_at (tp_addMap m) key \<le> tp_bound m
     \<and> vector_at (tp_removeMap m) key \<le> tp_bound m)"

text \<open>The clock has room for \<open>n\<close> more increments before it wraps around.\<close>

definition tp_room :: "nat \<Rightarrow> ('k, 'd) TwoPhaseMap \<Rightarrow> bool" where
  "tp_room n m \<longleftrightarrow> unat (maxClock (vc_vectors (tp_Clock m))) + n < 2 ^ 64"

abbreviation tp_max :: "('k, 'd) TwoPhaseMap \<Rightarrow> u64" where
  "tp_max m \<equiv> maxClock (vc_vectors (tp_Clock m))"

lemma New_wf: "tp_wf (NewTwoPhaseMap p h st)"
  by (simp add: tp_wf_def NewTwoPhaseMap_def NewGMap_def)

lemma New_inv: "tp_inv (NewTwoPhaseMap p h st)"
  by (simp add: tp_inv_def tp_wf_def NewTwoPhaseMap_def NewGMap_def vector_at_def)

lemma VC_put_max_same:
  assumes "vc_wf m" and "v \<le> maxClock (vc_vectors m)"
  shows "maxClock (vc_vectors (VC_put now key v m)) = maxClock (vc_vectors m)"
proof (rule order_antisym)
  show "maxClock (vc_vectors (VC_put now key v m)) \<le> maxClock (vc_vectors m)"
    using assms maxClock_ge [of "vc_vectors m"]
    by (auto simp: VC_put_def Let_def vc_wf_def maxClock_le_iff split: option.splits)
qed (rule VC_put_max_mono [OF assms(1)])

subsection \<open>Put and Remove\<close>

lemma TP_Put_fields:
  fixes m :: "('k, 'd) TwoPhaseMap"
  assumes "vc_wf (tp_Clock m)" and "tp_room 2 m"
  shows "map_of (tp_addMap (TP_Put now key d m)) = (map_of (tp_addMap m))
      (tp_hash m key \<mapsto> \<lparr>Vector = tp_max m + 1, Contents = d, Gravestone = False\<rparr>)" (is ?add)
    and "tp_removeMap (TP_Put now key d m) = tp_removeMap m"
    and "tp_max (TP_Put now key d m) = tp_max m + 1 + 1" (is ?max)
    and "vc_wf (tp_Clock (TP_Put now key d m))"
    and "vc_hashFunc (tp_Clock (TP_Put now key d m)) = tp_hash m"
    and "vc_highestStale (tp_Clock (TP_Put now key d m)) = vc_highestStale (tp_Clock m)"
proof -
  define c1 where "c1 = fst (IncrementClock now (tp_Clock m))"
  define c2 where "c2 = VC_Put now key (tp_max m) c1"
  have m1: "maxClock (vc_vectors c1) = tp_max m + 1"
    using assms maxClock_IncrementClock [of "tp_Clock m" now] by (simp add: c1_def tp_room_def)
  have lt: "tp_max m < tp_max m + 1"
    using assms(2) by (intro word_less_plus_one) (simp add: tp_room_def)
  have wf: "vc_wf c1" "vc_wf c2" using assms(1) by (simp_all add: c1_def c2_def)
  have m2: "maxClock (vc_vectors c2) = tp_max m + 1"
    using VC_put_max_same [OF wf(1), of "tp_max m"] m1 lt by (simp add: c2_def VC_Put_def)
  have put: "TP_Put now key d m = m\<lparr>tp_Clock := fst (IncrementClock now c2),
      tp_addMap := snd (GM_Put now key d (c2, tp_addMap m))\<rparr>"
    by (simp add: TP_Put_def c1_def c2_def case_prod_unfold Let_def)
  show ?add by (rule ext) (simp add: put map_of_GM_Put m2, simp add: c2_def c1_def)
  have "unat (tp_max m + 1) = unat (tp_max m) + 1"
    using assms(2) by (intro unat_plus_one) (simp add: tp_room_def)
  with assms(2) show ?max
    using maxClock_IncrementClock [OF wf(2), of now] by (simp add: put m2 tp_room_def)
  show "tp_removeMap (TP_Put now key d m) = tp_removeMap m"
    "vc_wf (tp_Clock (TP_Put now key d m))"
    "vc_hashFunc (tp_Clock (TP_Put now key d m)) = tp_hash m"
    "vc_highestStale (tp_Clock (TP_Put now key d m)) = vc_highestStale (tp_Clock m)"
    using wf by (simp_all add: put) (simp_all add: c2_def c1_def)
qed

lemma TP_Remove_fields:
  fixes m :: "('k, 'd) TwoPhaseMap"
  shows "map_of (tp_removeMap (TP_Remove now key m)) = (map_of (tp_removeMap m))
      (tp_hash m key \<mapsto> \<lparr>Vector = tp_max m, Contents = True, Gravestone = False\<rparr>)"
    and "tp_addMap (TP_Remove now key m) = tp_addMap m"
    and "tp_Clock (TP_Remove now key m) = fst (IncrementClock now (tp_Clock m))"
  by (rule ext, simp add: TP_Remove_def case_prod_unfold map_of_GM_Put)
    (simp_all add: TP_Remove_def case_prod_unfold)

lemma room_steps:
  assumes "tp_room 2 m"
  shows "tp_max m < tp_max m + 1" and "tp_max m + 1 < tp_max m + 1 + 1"
    and "tp_max m < tp_max m + 1 + 1"
proof -
  have u: "unat (tp_max m + 1) = unat (tp_max m) + 1"
    using assms by (intro unat_plus_one) (simp add: tp_room_def)
  show 1: "tp_max m < tp_max m + 1"
    using assms by (intro word_less_plus_one) (simp add: tp_room_def)
  show 2: "tp_max m + 1 < tp_max m + 1 + 1"
    using assms u by (intro word_less_plus_one) (simp add: tp_room_def)
  show "tp_max m < tp_max m + 1 + 1" using 1 2 by (rule less_trans)
qed

lemma TP_Put_wf [inv_intros]: "tp_wf m \<Longrightarrow> tp_wf (TP_Put now key d m)"
  by (simp add: tp_wf_def TP_Put_def case_prod_unfold Let_def)

lemma TP_Remove_wf [inv_intros]: "tp_wf m \<Longrightarrow> tp_wf (TP_Remove now key m)"
  by (simp add: tp_wf_def TP_Remove_def case_prod_unfold)

lemma vector_at_TP_Put:
  assumes "vc_wf (tp_Clock m)" and "tp_room 2 m"
  shows "vector_at (tp_addMap (TP_Put now key d m)) j =
    (if j = tp_hash m key then tp_max m + 1 else vector_at (tp_addMap m) j)"
  using TP_Put_fields(1) [OF assms, of now key d] by (simp add: vector_at_def)

lemma vector_at_TP_Remove:
  "vector_at (tp_removeMap (TP_Remove now key m)) j =
    (if j = tp_hash m key then tp_max m else vector_at (tp_removeMap m) j)"
  using TP_Remove_fields(1) [of now key m] by (simp add: vector_at_def)

lemma TP_Put_inv [inv_intros]:
  assumes "tp_inv m" and "tp_room 2 m"
  shows "tp_inv (TP_Put now key d m)"
proof -
  have wf: "vc_wf (tp_Clock m)" using assms(1) by (simp add: tp_inv_def tp_wf_def)
  have b: "tp_bound m \<le> tp_bound (TP_Put now key d m)"
    "tp_max m + 1 \<le> tp_bound (TP_Put now key d m)"
    using TP_Put_fields(3,6) [OF wf assms(2), of now key d] room_steps [OF assms(2)]
    by (auto simp: tp_bound_def le_max_iff_disj intro: less_imp_le)
  then show ?thesis
    using assms(1) TP_Put_wf [of m now key d] TP_Put_fields(2) [OF wf assms(2), of now key d]
    by (auto simp: tp_inv_def vector_at_TP_Put [OF wf assms(2)] intro: order_trans)
qed

lemma TP_Remove_inv [inv_intros]:
  assumes "tp_inv m" and "tp_room 1 m"
  shows "tp_inv (TP_Remove now key m)"
proof -
  have wf: "vc_wf (tp_Clock m)" using assms(1) by (simp add: tp_inv_def tp_wf_def)
  have max: "maxClock (vc_vectors (fst (IncrementClock now (tp_Clock m)))) = tp_max m + 1"
    using maxClock_IncrementClock [OF wf, of now] assms(2) by (simp add: tp_room_def)
  have "tp_max m < tp_max m + 1"
    using assms(2) by (intro word_less_plus_one) (simp add: tp_room_def)
  then have "tp_bound m \<le> tp_bound (TP_Remove now key m)" "tp_max m \<le> tp_bound (TP_Remove now key m)"
    by (auto simp: tp_bound_def max TP_Remove_fields le_max_iff_disj intro: less_imp_le)
  then show ?thesis
    using assms(1) TP_Remove_wf [of m now key]
    by (auto simp: tp_inv_def vector_at_TP_Remove TP_Remove_fields(2) intro: order_trans)
qed

subsection \<open>Mark\<close>

lemma TP_Mark_fields [frame_simps, simp]:
  "tp_removeMap (TP_Mark zero key m) = tp_removeMap m"
  "tp_Clock (TP_Mark zero key m) = tp_Clock m"
  "vector_at (tp_addMap (TP_Mark zero key m)) j = vector_at (tp_addMap m) j"
  by (simp_all add: TP_Mark_def vector_at_def map_of_GM_Mark split: option.splits)

lemma TP_Mark_view [frame_simps, simp]: "view (tp_addMap (TP_Mark zero key m)) = view (tp_addMap m)"
  by (rule ext) (auto simp: TP_Mark_def view_def map_of_GM_Mark bucket_view_def option.map_comp
    intro: option.map_cong)

lemma TP_Mark_inv [inv_intros]: "tp_inv m \<Longrightarrow> tp_inv (TP_Mark zero key m)"
  by (auto simp: tp_inv_def tp_bound_def tp_wf_def) (auto simp: TP_Mark_def)

subsection \<open>Merge\<close>

text \<open>The merge loop on one of the two maps, with the clock it feeds.\<close>

definition clock_merge :: "u64 \<Rightarrow> 'd GMap \<Rightarrow> 'k VectorClock \<Rightarrow> 'k VectorClock" where
  "clock_merge now snapshot clk = fold (\<lambda>(key, value) clk. VC_put now key (Vector value) clk) snapshot clk"

lemma TP_Merge_fields:
  fixes m :: "('k, 'd) TwoPhaseMap"
  shows "tp_addMap (TP_Merge now s m) = GM_merge (Add s) (tp_addMap m)"
  "tp_removeMap (TP_Merge now s m) = GM_merge (Remove s) (tp_removeMap m)"
  "tp_Clock (TP_Merge now s m) = clock_merge now (Remove s) (clock_merge now (Add s) (tp_Clock m))"
  "tp_processId (TP_Merge now s m) = tp_processId m"
proof -
  have add: "fold (\<lambda>(key, value) m. m\<lparr>tp_addMap := GM_put key value (tp_addMap m),
      tp_Clock := VC_put now key (Vector value) (tp_Clock m)\<rparr>) xs m
    = m\<lparr>tp_addMap := GM_merge xs (tp_addMap m), tp_Clock := clock_merge now xs (tp_Clock m)\<rparr>" for xs
    by (induction xs arbitrary: m) (auto simp: GM_merge_def clock_merge_def)
  have rem: "fold (\<lambda>(key, value) m. m\<lparr>tp_removeMap := GM_put key value (tp_removeMap m),
      tp_Clock := VC_put now key (Vector value) (tp_Clock m)\<rparr>) xs m
    = m\<lparr>tp_removeMap := GM_merge xs (tp_removeMap m), tp_Clock := clock_merge now xs (tp_Clock m)\<rparr>"
    for xs and m :: "('k, 'd) TwoPhaseMap"
    by (induction xs arbitrary: m) (auto simp: GM_merge_def clock_merge_def)
  show "tp_addMap (TP_Merge now s m) = GM_merge (Add s) (tp_addMap m)"
    "tp_removeMap (TP_Merge now s m) = GM_merge (Remove s) (tp_removeMap m)"
    "tp_Clock (TP_Merge now s m) = clock_merge now (Remove s) (clock_merge now (Add s) (tp_Clock m))"
    "tp_processId (TP_Merge now s m) = tp_processId m"
    by (simp_all add: TP_Merge_def add rem)
qed

lemma clock_merge_simps [simp]:
  "clock_merge now [] clk = clk"
  "clock_merge now ((k, b) # s) clk = clock_merge now s (VC_put now k (Vector b) clk)"
  by (simp_all add: clock_merge_def)

lemma clock_merge_wf [simp]: "vc_wf clk \<Longrightarrow> vc_wf (clock_merge now s clk)"
  by (induction s arbitrary: clk) auto

lemma clock_merge_frame [frame_simps, simp]:
  "vc_hashFunc (clock_merge now s clk) = vc_hashFunc clk"
  "vc_processID (clock_merge now s clk) = vc_processID clk"
  "vc_highestStale (clock_merge now s clk) = vc_highestStale clk"
  by (induction s arbitrary: clk) auto

lemma clock_merge_mono:
  "vc_wf clk \<Longrightarrow> maxClock (vc_vectors clk) \<le> maxClock (vc_vectors (clock_merge now s clk))"
proof (induction s arbitrary: clk)
  case (Cons p s)
  obtain k b where "p = (k, b)" by force
  then show ?case
    using Cons.IH [of "VC_put now k (Vector b) clk"] VC_put_max_mono [OF Cons.prems] Cons.prems
    by (auto intro: order_trans)
qed simp

lemma clock_merge_dominates:
  assumes "vc_wf clk" and "(k, b) \<in> set s"
  shows "Vector b \<le> max (maxClock (vc_vectors (clock_merge now s clk))) (vc_highestStale clk)"
  using assms
proof (induction s arbitrary: clk)
  case (Cons p s)
  obtain key v where p: "p = (key, v)" by force
  let ?c = "VC_put now key (Vector v) clk"
  show ?case
  proof (cases "(k, b) \<in> set s")
    case True
    with Cons.IH [of ?c] Cons.prems(1) show ?thesis by (simp add: p)
  next
    case False
    with Cons.prems p have "b = v" by auto
    then show ?thesis
      using VC_put_dominates [of "Vector v" now key clk] clock_merge_mono [of ?c now s] Cons.prems(1)
      by (auto simp: p le_max_iff_disj intro: order_trans)
  qed
qed simp

lemma clock_merge_upper:
  assumes "vc_wf clk" and "maxClock (vc_vectors clk) \<le> c" and "\<forall>(k, b) \<in> set s. Vector b \<le> c"
  shows "maxClock (vc_vectors (clock_merge now s clk)) \<le> c"
  using assms
proof (induction s arbitrary: clk)
  case (Cons p s)
  obtain key v where p: "p = (key, v)" by force
  with Cons.prems have "maxClock (vc_vectors (VC_put now key (Vector v) clk)) \<le> c"
    by (auto simp: VC_put_def Let_def vc_wf_def maxClock_le_iff split: option.splits)
  with Cons show ?case by (simp add: p)
qed simp

lemma vector_at_GM_merge:
  "gm_wf s \<Longrightarrow> vector_at (GM_merge s g) key = max (vector_at g key) (vector_at s key)"
  by (auto simp: vector_at_def map_of_GM_merge max_def word_gt_0 split: option.splits)

lemma vector_at_bound:
  "(\<And>k b. (k, b) \<in> set s \<Longrightarrow> Vector b \<le> c) \<Longrightarrow> vector_at s key \<le> (c :: u64)"
  by (auto simp: vector_at_def split: option.splits dest: map_of_SomeD)

definition snap_wf :: "'d TwoPhaseMapSnapshot \<Rightarrow> bool" where
  "snap_wf s \<longleftrightarrow> gm_wf (Add s) \<and> gm_wf (Remove s)"

lemma TP_Merge_wf [inv_intros]: "tp_wf m \<Longrightarrow> tp_wf (TP_Merge now s m)"
  by (simp add: tp_wf_def TP_Merge_fields)

lemma TP_Merge_inv [inv_intros]:
  assumes "tp_inv m" and "snap_wf s"
  shows "tp_inv (TP_Merge now s m)"
proof -
  let ?c1 = "clock_merge now (Add s) (tp_Clock m)"
  let ?c2 = "clock_merge now (Remove s) ?c1"
  have wf: "vc_wf (tp_Clock m)" and s: "gm_wf (Add s)" "gm_wf (Remove s)"
    using assms by (simp_all add: tp_inv_def tp_wf_def snap_wf_def)
  have wf1: "vc_wf ?c1" using wf by simp
  have h: "vc_highestStale ?c1 = vc_highestStale (tp_Clock m)"
    "vc_highestStale ?c2 = vc_highestStale (tp_Clock m)"
    by simp_all
  have mono: "tp_max m \<le> maxClock (vc_vectors ?c1)"
    "maxClock (vc_vectors ?c1) \<le> maxClock (vc_vectors ?c2)"
    by (simp_all add: clock_merge_mono wf wf1)
  have bound: "tp_bound m \<le> tp_bound (TP_Merge now s m)"
    using mono by (auto simp: tp_bound_def TP_Merge_fields h le_max_iff_disj intro: order_trans)
  have add: "vector_at (Add s) key \<le> tp_bound (TP_Merge now s m)" for key
  proof (rule vector_at_bound)
    fix k b assume "(k, b) \<in> set (Add s)"
    from clock_merge_dominates [OF wf this, of now] mono(2)
    show "Vector b \<le> tp_bound (TP_Merge now s m)"
      by (auto simp: tp_bound_def TP_Merge_fields h le_max_iff_disj intro: order_trans)
  qed
  have rem: "vector_at (Remove s) key \<le> tp_bound (TP_Merge now s m)" for key
  proof (rule vector_at_bound)
    fix k b assume "(k, b) \<in> set (Remove s)"
    from clock_merge_dominates [OF wf1 this, of now]
    show "Vector b \<le> tp_bound (TP_Merge now s m)" by (simp add: tp_bound_def TP_Merge_fields h)
  qed
  show ?thesis
    using assms(1) add rem bound TP_Merge_wf [of m now s]
    by (auto simp: tp_inv_def TP_Merge_fields vector_at_GM_merge s intro: order_trans)
qed

subsection \<open>Prune\<close>

lemma TP_Prune_fields:
  "tp_addMap (TP_Prune m) = snd (GM_Prune (tp_Clock m, tp_addMap m))"
  "tp_removeMap (TP_Prune m) = snd (GM_Prune (fst (getStale (tp_Clock m)), tp_removeMap m))"
  "tp_Clock (TP_Prune m) = VC_Prune (fst (getStale (fst (getStale (tp_Clock m)))))"
  by (simp_all add: TP_Prune_def case_prod_unfold)

lemma is_stale_getStale [simp]: "is_stale (fst (getStale m)) b = is_stale m b"
  by (simp add: is_stale_def)

lemma vc_wf_getStale [simp]: "vc_wf (fst (getStale m)) = vc_wf m"
  by (simp add: vc_wf_def)

definition stale_key :: "('k, 'd) TwoPhaseMap \<Rightarrow> u64 \<Rightarrow> bool" where
  "stale_key m key \<longleftrightarrow> (\<exists>b. map_of (vc_vectors (tp_Clock m)) key = Some b \<and> is_stale (tp_Clock m) b)"

lemma map_of_TP_Prune:
  assumes "tp_wf m"
  shows "map_of (tp_addMap (TP_Prune m)) key = (if stale_key m key then None else map_of (tp_addMap m) key)"
    and "map_of (tp_removeMap (TP_Prune m)) key = (if stale_key m key then None else map_of (tp_removeMap m) key)"
    and "map_of (vc_vectors (tp_Clock (TP_Prune m))) key
      = (if stale_key m key then None else map_of (vc_vectors (tp_Clock m)) key)"
  using assms
  by (simp_all add: tp_wf_def TP_Prune_fields map_of_GM_Prune map_of_VC_Prune stale_key_def
    split: option.splits)

lemma TP_Prune_wf [inv_intros]: "tp_wf m \<Longrightarrow> tp_wf (TP_Prune m)"
  by (simp add: tp_wf_def TP_Prune_fields)

lemma TP_Prune_bound:
  assumes "vc_wf (tp_Clock m)"
  shows "tp_bound m \<le> tp_bound (TP_Prune m)"
proof -
  let ?c1 = "fst (getStale (tp_Clock m))" let ?c2 = "fst (getStale ?c1)"
  have "vc_highestStale (tp_Clock m) \<le> vc_highestStale ?c1" "vc_highestStale ?c1 \<le> vc_highestStale ?c2"
    using getStale_highest(1) [of "tp_Clock m"] getStale_highest(1) [of ?c1] assms by simp_all
  then have "tp_bound m \<le> max (maxClock (vc_vectors ?c2)) (vc_highestStale ?c2)"
    by (auto simp: tp_bound_def le_max_iff_disj intro: order_trans)
  also have "\<dots> \<le> tp_bound (TP_Prune m)"
    using VC_Prune_bound [of ?c2] assms by (simp add: tp_bound_def TP_Prune_fields)
  finally show ?thesis .
qed

lemma vector_at_mono_del:
  "map_of g' key = (if P then None else map_of g key) \<Longrightarrow> vector_at g' key \<le> vector_at g key"
  by (simp add: vector_at_def)

lemma TP_Prune_inv [inv_intros]:
  assumes "tp_inv m"
  shows "tp_inv (TP_Prune m)"
proof -
  have wf: "tp_wf m" and "vc_wf (tp_Clock m)" using assms by (simp_all add: tp_inv_def tp_wf_def)
  then have bound: "tp_bound m \<le> tp_bound (TP_Prune m)" by (simp add: TP_Prune_bound)
  have "vector_at (tp_addMap (TP_Prune m)) key \<le> tp_bound (TP_Prune m)"
    "vector_at (tp_removeMap (TP_Prune m)) key \<le> tp_bound (TP_Prune m)" for key
  proof -
    have "vector_at (tp_addMap m) key \<le> tp_bound (TP_Prune m)"
      "vector_at (tp_removeMap m) key \<le> tp_bound (TP_Prune m)"
      using assms bound by (auto simp: tp_inv_def intro: order_trans)
    then show "vector_at (tp_addMap (TP_Prune m)) key \<le> tp_bound (TP_Prune m)"
      "vector_at (tp_removeMap (TP_Prune m)) key \<le> tp_bound (TP_Prune m)"
      using vector_at_mono_del [OF map_of_TP_Prune(1) [OF wf, of key]]
        vector_at_mono_del [OF map_of_TP_Prune(2) [OF wf, of key]]
      by (auto intro: order_trans)
  qed
  then show ?thesis using TP_Prune_wf [OF wf] by (simp add: tp_inv_def)
qed

section \<open>Properties\<close>

text \<open>The states a store runs through. A put draws two values from the clock and a remove one;
  \<open>tp_room\<close> says that the 64-bit counter has them left.\<close>

inductive tp_reachable :: "'d \<Rightarrow> ('k, 'd) TwoPhaseMap \<Rightarrow> bool" for zero :: 'd where
  new: "tp_reachable zero (NewTwoPhaseMap p h st)"
| put: "tp_reachable zero m \<Longrightarrow> tp_room 2 m \<Longrightarrow> tp_reachable zero (TP_Put now key d m)"
| remove: "tp_reachable zero m \<Longrightarrow> tp_room 1 m \<Longrightarrow> tp_reachable zero (TP_Remove now key m)"
| mark: "tp_reachable zero m \<Longrightarrow> tp_reachable zero (TP_Mark zero key m)"
| merge: "tp_reachable zero m \<Longrightarrow> snap_wf s \<Longrightarrow> tp_reachable zero (TP_Merge now s m)"
| prune: "tp_reachable zero m \<Longrightarrow> tp_reachable zero (TP_Prune m)"

inductive_cases tp_reachable_cases: "tp_reachable zero m"

text \<open>C10: no operation of the store breaks its invariant: after any sequence of puts, removes,
  marks, merges of well-formed snapshots and prunes, starting from an empty store, the keys of the
  three maps are distinct and every vector is bounded by the clock.\<close>

theorem store_invariant:
  assumes "tp_reachable zero m"
  shows "tp_inv m"
  using assms by induction (simp_all add: New_inv inv_intros)

theorem store_invariant_witness:
  "tp_inv (TP_Prune (TP_Remove 7 ''a'' (TP_Mark 0 ''a''
     (TP_Put 5 ''a'' (3 :: nat) (NewTwoPhaseMap ''p'' fnv64a 60)))))"
proof -
  let ?m0 = "NewTwoPhaseMap ''p'' fnv64a 60 :: (string, nat) TwoPhaseMap"
  have r0: "tp_room 2 ?m0" by (simp add: tp_room_def NewTwoPhaseMap_def NewVectorClock_def maxClock_def)
  have wf: "vc_wf (tp_Clock ?m0)" by (simp add: NewTwoPhaseMap_def)
  have "tp_max (TP_Put 5 ''a'' 3 ?m0) = 2"
    using TP_Put_fields(3) [OF wf r0, of 5 "''a''" 3]
    by (simp add: NewTwoPhaseMap_def NewVectorClock_def maxClock_def)
  then have "tp_room 1 (TP_Mark 0 ''a'' (TP_Put 5 ''a'' 3 ?m0))" by (simp add: tp_room_def)
  then show ?thesis
    by (intro store_invariant [of 0] tp_reachable.intros r0)
qed

subsection \<open>Put and remove\<close>

text \<open>The store accepts \<open>n\<close> more puts: the clock has room, and has not fallen behind what was
  garbage collected.\<close>

definition tp_ready :: "nat \<Rightarrow> ('k, 'd) TwoPhaseMap \<Rightarrow> bool" where
  "tp_ready n m \<longleftrightarrow> tp_inv m \<and> tp_room (2 * n) m \<and> vc_highestStale (tp_Clock m) \<le> tp_max m"

lemma tp_ready_room: "tp_ready (Suc n) m \<Longrightarrow> tp_room 2 m" "tp_ready (Suc n) m \<Longrightarrow> tp_inv m"
  "tp_ready (Suc n) m \<Longrightarrow> vc_wf (tp_Clock m)"
  by (simp_all add: tp_ready_def tp_room_def tp_inv_def tp_wf_def)

lemma tp_ready_vectors:
  assumes "tp_ready n m"
  shows "vector_at (tp_addMap m) key \<le> tp_max m" "vector_at (tp_removeMap m) key \<le> tp_max m"
  using assms unfolding tp_ready_def tp_inv_def tp_bound_def by (metis max_absorb1)+

lemmas ready_Put_fields = TP_Put_fields [OF tp_ready_room(3) tp_ready_room(1)]
lemmas vector_at_ready_Put = vector_at_TP_Put [OF tp_ready_room(3) tp_ready_room(1)]

lemma tp_ready_Put:
  assumes "tp_ready (Suc n) m"
  shows "tp_ready n (TP_Put now key d m)"
proof -
  note r = tp_ready_room [OF assms] and f = ready_Put_fields [OF assms assms]
  have "unat (tp_max m + 1 + 1) = unat (tp_max m) + 2"
    using assms unat_plus_one [of "tp_max m"] unat_plus_one [of "tp_max m + 1"]
    by (simp add: tp_ready_def tp_room_def)
  then have "tp_room (2 * n) (TP_Put now key d m)"
    using assms by (simp add: tp_ready_def tp_room_def f)
  then show ?thesis
    using assms TP_Put_inv [OF r(2,1)] room_steps(3) [OF r(1)]
    by (auto simp: tp_ready_def f intro: order_trans less_imp_le)
qed

lemma TP_contains_Put:
  assumes "tp_ready (Suc n) m"
  shows "TP_contains zero j (TP_Put now key d m) \<longleftrightarrow> j = tp_hash m key \<or> TP_contains zero j m"
proof -
  note f = ready_Put_fields [OF assms assms]
  have "vector_at (tp_removeMap m) j \<le> tp_max m + 1"
    using tp_ready_vectors(2) [OF assms, of j] room_steps(1) [OF tp_ready_room(1) [OF assms]]
    by (auto intro: order_trans less_imp_le)
  then show ?thesis
    by (auto simp: TP_contains_iff f vector_at_ready_Put [OF assms assms])
qed

lemma TP_get_Put:
  assumes "tp_ready (Suc n) m"
  shows "TP_get zero j (TP_Put now key d m) = (if j = tp_hash m key then d else TP_get zero j m)"
  by (simp add: TP_get_eq TP_contains_Put [OF assms] ready_Put_fields(1) [OF assms assms]
    split: option.splits)

text \<open>A put makes its key present with the new value, unmarked, whether it was absent, present
  or removed before. Every key with another hash keeps its membership and its value.\<close>

lemma put_makes_key_visible:
  assumes "tp_ready 1 m"
  shows "TP_Contains zero key (TP_Put now key d m) \<and> TP_Get zero key (TP_Put now key d m) = d
    \<and> \<not> TP_IsMarked key (TP_Put now key d m)
    \<and> (\<forall>j. tp_hash m j \<noteq> tp_hash m key \<longrightarrow>
        TP_Contains zero j (TP_Put now key d m) = TP_Contains zero j m
        \<and> TP_Get zero j (TP_Put now key d m) = TP_Get zero j m
        \<and> TP_IsMarked j (TP_Put now key d m) = TP_IsMarked j m)"
proof -
  have r: "tp_ready (Suc 0) m" using assms by simp
  note f = ready_Put_fields [OF r r, of now key d]
  show ?thesis
    by (simp add: TP_Contains_def TP_Get_eq TP_IsMarked_def GM_IsMarked_def f
      TP_contains_Put [OF r] TP_get_Put [OF r])
qed

lemma New_ready: "tp_ready n (NewTwoPhaseMap p h st) \<longleftrightarrow> 2 * n < 2 ^ 64"
  by (simp add: tp_ready_def tp_room_def New_inv)
    (simp add: NewTwoPhaseMap_def NewVectorClock_def maxClock_def)


lemma TP_Contains_Remove:
  "TP_Contains zero j (TP_Remove now key m) =
    (if tp_hash m j = tp_hash m key
     then map_of (tp_addMap m) (tp_hash m key) \<noteq> None \<and> tp_max m \<le> vector_at (tp_addMap m) (tp_hash m key)
     else TP_Contains zero j m)"
  by (simp add: TP_Contains_def TP_contains_iff TP_Remove_fields(2,3) vector_at_TP_Remove)

text \<open>\<open>Remove\<close> takes a key out of the map exactly when its add entry is older than the clock's
  maximum. An entry whose vector equals the maximum stays, since ties favour the add map; that is
  the state right after a snapshot with this entry as its newest was merged into a new store, so
  there the node cannot be removed by the first \<open>Remove\<close>. Keys with another hash keep their
  membership.\<close>

lemma remove_membership:
  "TP_Contains zero j (TP_Remove now key m) =
    (if tp_hash m j = tp_hash m key
     then map_of (tp_addMap m) (tp_hash m key) \<noteq> None \<and> tp_max m \<le> vector_at (tp_addMap m) (tp_hash m key)
     else TP_Contains zero j m)
   \<and> (0 < Vector b \<longrightarrow> TP_Contains zero key (TP_Remove now key
        (TP_Merge t \<lparr>Add = [(h key, b)], Remove = []\<rparr> (NewTwoPhaseMap p h st))))"
  by (auto simp: TP_Contains_Remove)
    (auto simp: TP_Merge_def NewTwoPhaseMap_def NewVectorClock_def NewGMap_def GM_put_def VC_put_def
      Let_def vector_at_def maxClock_def)


lemma tp_max_Remove:
  "vc_wf (tp_Clock m) \<Longrightarrow> tp_room 1 m \<Longrightarrow> tp_max (TP_Remove now key m) = tp_max m + 1"
  using maxClock_IncrementClock [of "tp_Clock m" now] by (simp add: TP_Remove_fields(3) tp_room_def)

lemma tp_ready_Remove:
  assumes "tp_ready (Suc n) m"
  shows "tp_ready n (TP_Remove now key m)"
proof -
  have r: "tp_room 1 m" using tp_ready_room(1) [OF assms] by (simp add: tp_room_def)
  note max = tp_max_Remove [OF tp_ready_room(3) [OF assms] r, of now key]
  have "unat (tp_max m + 1) = unat (tp_max m) + 1"
    using r by (intro unat_plus_one) (simp add: tp_room_def)
  then have "tp_room (2 * n) (TP_Remove now key m)"
    using assms by (simp add: tp_ready_def tp_room_def max)
  moreover have "vc_highestStale (tp_Clock (TP_Remove now key m)) = vc_highestStale (tp_Clock m)"
    by (simp add: TP_Remove_fields(3))
  ultimately show ?thesis
    using assms TP_Remove_inv [OF tp_ready_room(2) [OF assms] r, of now key]
      room_steps(1) [OF tp_ready_room(1) [OF assms]]
    by (auto simp: tp_ready_def max intro: order_trans less_imp_le)
qed

text \<open>C19: an entry this node put is removed by the next \<open>Remove\<close>, and a later put brings the key
  back with its new value, however often: removal is not permanent, unlike in a textbook
  two-phase set.\<close>

theorem put_remove_put:
  assumes "tp_ready 3 m"
  shows "let m1 = TP_Put n1 key d1 m; m2 = TP_Remove n2 key m1; m3 = TP_Put n3 key d2 m2
    in \<not> TP_Contains zero key m2 \<and> TP_Get zero key m2 = zero
      \<and> TP_Contains zero key m3 \<and> TP_Get zero key m3 = d2"
proof -
  let ?m1 = "TP_Put n1 key d1 m" let ?m2 = "TP_Remove n2 key ?m1"
  have r: "tp_ready (Suc 2) m" using assms by (simp add: numeral_3_eq_3)
  have r1: "tp_ready (Suc 1) ?m1" using tp_ready_Put [OF r] by (simp add: numeral_2_eq_2)
  have r2: "tp_ready (Suc 0) ?m2" using tp_ready_Remove [OF r1] by simp
  note f = ready_Put_fields [OF r r, of n1 key d1]
  have "\<not> TP_Contains zero key ?m2"
    using TP_Contains_Remove [of zero key n2 key ?m1] room_steps(2) [OF tp_ready_room(1) [OF r]]
    by (simp add: f vector_at_ready_Put [OF r r])
  moreover from this have "TP_Get zero key ?m2 = zero" by (simp add: TP_Get_def)
  moreover have "TP_Contains zero key (TP_Put n3 key d2 ?m2)" "TP_Get zero key (TP_Put n3 key d2 ?m2) = d2"
    using TP_contains_Put [OF r2, of zero _ n3 key d2] TP_get_Put [OF r2, of zero _ n3 key d2]
    by (simp_all add: TP_Get_eq TP_Contains_def ready_Put_fields(5) [OF r2 r2])
  ultimately show ?thesis by (simp add: Let_def)
qed

theorem put_remove_put_witness:
  "let m = NewTwoPhaseMap ''p'' fnv64a 60; m1 = TP_Put 5 ''a'' (3 :: nat) m;
     m2 = TP_Remove 6 ''a'' m1; m3 = TP_Put 7 ''a'' 4 m2
   in \<not> TP_Contains 0 ''a'' m2 \<and> TP_Get 0 ''a'' m3 = 4"
  using put_remove_put [of "NewTwoPhaseMap ''p'' fnv64a 60" 5 "''a''" "3 :: nat" 6 7 4 0]
  by (simp add: New_ready Let_def)

subsection \<open>Merging and convergence\<close>

text \<open>The abstract state of a store and its membership test.\<close>

abbreviation add_view :: "('k, 'd) TwoPhaseMap \<Rightarrow> u64 \<Rightarrow> 'd reg" where
  "add_view m \<equiv> view (tp_addMap m)"

abbreviation remove_view :: "('k, 'd) TwoPhaseMap \<Rightarrow> u64 \<Rightarrow> bool reg" where
  "remove_view m \<equiv> view (tp_removeMap m)"

definition reg_vector :: "'d reg \<Rightarrow> u64" where
  "reg_vector r = (case r of None \<Rightarrow> 0 | Some (v, _) \<Rightarrow> v)"

lemma vector_at_view: "vector_at g key = reg_vector (view g key)"
  by (simp add: vector_at_def reg_vector_def view_def bucket_view_def split: option.splits)

lemma view_None: "view g key = None \<longleftrightarrow> map_of g key = None"
  by (simp add: view_def)

text \<open>Membership and contents depend on the views only.\<close>

lemma TP_contains_view:
  "TP_contains zero key m \<longleftrightarrow> add_view m key \<noteq> None
    \<and> reg_vector (remove_view m key) \<le> reg_vector (add_view m key)"
  by (simp add: TP_contains_iff vector_at_view view_None)

lemma TP_get_view:
  "TP_get zero key m = (case add_view m key of
     Some (_, d) \<Rightarrow> if TP_contains zero key m then d else zero | None \<Rightarrow> zero)"
  by (simp add: TP_get_eq view_def bucket_view_def split: option.splits)

definition same_views :: "('k, 'd) TwoPhaseMap \<Rightarrow> ('k, 'd) TwoPhaseMap \<Rightarrow> bool" where
  "same_views m m' \<longleftrightarrow> add_view m = add_view m' \<and> remove_view m = remove_view m'"

lemma same_views_contains: "same_views m m' \<Longrightarrow> TP_contains zero key m = TP_contains zero key m'"
  by (simp add: same_views_def TP_contains_view)

lemma same_views_get: "same_views m m' \<Longrightarrow> TP_get zero key m = TP_get zero key m'"
  using same_views_contains [of m m' zero key]
  by (simp add: same_views_def TP_get_view split: option.splits prod.splits)

lemma view_GM_Save [simp]: "gm_wf g \<Longrightarrow> view (GM_Save g) = view g"
  by (rule ext) (simp add: view_def)

lemma distinct_TP_keys: "tp_wf m \<Longrightarrow> distinct (TP_keys zero m)"
  by (simp add: TP_keys_eq tp_wf_def gm_wf_def)

lemma same_views_list:
  assumes "tp_wf m" and "tp_wf m'" and "same_views m m'"
  shows "mset (TP_AsList zero m) = mset (TP_AsList zero m')"
proof -
  have "mset (TP_keys zero m) = mset (TP_keys zero m')"
    using assms same_views_contains [OF assms(3)]
    by (subst set_eq_iff_mset_eq_distinct [symmetric]) (simp_all add: distinct_TP_keys set_TP_keys)
  moreover have "(\<lambda>key. TP_get zero key m) = (\<lambda>key. TP_get zero key m')"
    using same_views_get [OF assms(3)] by auto
  ultimately show ?thesis by (simp add: TP_AsList_eq)
qed

lemma view_TP_Merge:
  assumes "snap_wf s"
  shows "add_view (TP_Merge now s m) = map_join (add_view m) (view (Add s))"
    and "remove_view (TP_Merge now s m) = map_join (remove_view m) (view (Remove s))"
  using assms by (simp_all add: TP_Merge_fields view_GM_merge snap_wf_def)

text \<open>Snapshots delivered to a replica, each with the time of its arrival.\<close>

definition deliver :: "(u64 \<times> 'd TwoPhaseMapSnapshot) list \<Rightarrow> ('k, 'd) TwoPhaseMap \<Rightarrow> ('k, 'd) TwoPhaseMap" where
  "deliver msgs m = fold (\<lambda>(now, s) m. TP_Merge now s m) msgs m"

lemma view_deliver:
  assumes "\<forall>(now, s) \<in> set msgs. snap_wf s"
  shows "add_view (deliver msgs m) = lww.absorb (map (view \<circ> Add \<circ> snd) msgs) (add_view m)"
    and "remove_view (deliver msgs m) = lww.absorb (map (view \<circ> Remove \<circ> snd) msgs) (remove_view m)"
  using assms by (induction msgs arbitrary: m) (auto simp: deliver_def view_TP_Merge)

lemma deliver_wf: "tp_wf m \<Longrightarrow> tp_wf (deliver msgs m)"
  by (induction msgs arbitrary: m) (auto simp: deliver_def inv_intros)

text \<open>A snapshot of a run in which \<open>hist key v\<close> was written under \<open>key\<close> with vector \<open>v\<close>.\<close>

definition snap_of_run :: "(u64 \<Rightarrow> u64 \<Rightarrow> 'd) \<Rightarrow> 'd TwoPhaseMapSnapshot \<Rightarrow> bool" where
  "snap_of_run hist s \<longleftrightarrow> snap_wf s \<and> view (Add s) \<in> lww_states hist
     \<and> view (Remove s) \<in> lww_states (\<lambda>_ _. True)"

lemma deliver_converges:
  assumes "snap_of_run hist (TP_Snapshot m)" and "tp_wf m" and "tp_wf m'" and "same_views m m'"
    and "snd ` set msgs = snd ` set msgs'" and "\<forall>s \<in> snd ` set msgs'. snap_of_run hist s"
  shows "same_views (deliver msgs m) (deliver msgs' m')"
proof -
  have m: "add_view m \<in> lww_states hist" "remove_view m \<in> lww_states (\<lambda>_ _. True)"
    using assms(1,2) by (simp_all add: snap_of_run_def TP_Snapshot_def tp_wf_def)
  have wf: "\<forall>(now, s) \<in> set msgs. snap_wf s" "\<forall>(now, s) \<in> set msgs'. snap_wf s"
    using assms(5,6) by (force simp: snap_of_run_def)+
  have eq: "set (map (view \<circ> Add \<circ> snd) msgs) = set (map (view \<circ> Add \<circ> snd) msgs')"
    "set (map (view \<circ> Remove \<circ> snd) msgs) = set (map (view \<circ> Remove \<circ> snd) msgs')"
    by (simp_all only: set_map image_comp [symmetric] assms(5))
  have "set (map (view \<circ> Add \<circ> snd) msgs') \<subseteq> lww_states hist"
    "set (map (view \<circ> Remove \<circ> snd) msgs') \<subseteq> lww_states (\<lambda>_ _. True)"
    using assms(6) by (auto simp: snap_of_run_def)
  then show ?thesis
    using lww.convergence [OF m(1) eq(1)] lww.convergence [OF m(2) eq(2)] assms(4)
    by (simp add: same_views_def view_deliver [OF wf(1)] view_deliver [OF wf(2)])
qed

text \<open>C1: strong eventual consistency. Two replicas that start alike and receive the same set of
  snapshots of one run, in any order, any number of times each, at any time, and visited in any map
  order, hold the same keys with the same values and vectors, and \<open>AsList\<close> returns the same nodes.
  The run writes each key with increasing vectors, so a vector determines the contents.\<close>

theorem replicas_converge:
  assumes "snap_of_run hist (TP_Snapshot m)" and "tp_wf m" and "tp_wf m'" and "same_views m m'"
    and "snd ` set msgs = snd ` set msgs'" and "\<forall>s \<in> snd ` set msgs'. snap_of_run hist s"
  shows "same_views (deliver msgs m) (deliver msgs' m')
    \<and> (\<forall>key. TP_contains zero key (deliver msgs m) = TP_contains zero key (deliver msgs' m')
        \<and> TP_get zero key (deliver msgs m) = TP_get zero key (deliver msgs' m'))
    \<and> mset (TP_AsList zero (deliver msgs m)) = mset (TP_AsList zero (deliver msgs' m'))"
  using deliver_converges [OF assms] deliver_wf [OF assms(2)] deliver_wf [OF assms(3)]
  by (simp add: same_views_contains same_views_get same_views_list)

theorem replicas_converge_witness:
  "let s1 = \<lparr>Add = [(1, \<lparr>Vector = 4, Contents = 14 :: nat, Gravestone = False\<rparr>)], Remove = []\<rparr>;
       s2 = \<lparr>Add = [(1, \<lparr>Vector = 6, Contents = 16, Gravestone = False\<rparr>)],
             Remove = [(1, \<lparr>Vector = 5, Contents = True, Gravestone = False\<rparr>)]\<rparr>;
       m = NewTwoPhaseMap ''p'' fnv64a 60; m' = NewTwoPhaseMap ''q'' fnv64a 60
   in same_views (deliver [(1, s1), (2, s2)] m) (deliver [(3, s2), (4, s1), (5, s2)] m')"
proof -
  let ?s1 = "\<lparr>Add = [(1, \<lparr>Vector = 4, Contents = 14 :: nat, Gravestone = False\<rparr>)], Remove = []\<rparr>"
  let ?s2 = "\<lparr>Add = [(1, \<lparr>Vector = 6, Contents = 16 :: nat, Gravestone = False\<rparr>)],
             Remove = [(1, \<lparr>Vector = 5, Contents = True, Gravestone = False\<rparr>)]\<rparr>"
  let ?hist = "\<lambda>(_ :: u64) (v :: u64). if v = 4 then 14 else 16 :: nat"
  have run: "snap_of_run ?hist ?s1" "snap_of_run ?hist ?s2"
    by (auto simp: snap_of_run_def snap_wf_def gm_wf_def lww_states_def view_def bucket_view_def
      split: if_splits)
  have new: "snap_of_run ?hist (TP_Snapshot (NewTwoPhaseMap ''p'' fnv64a 60))"
    by (auto simp: snap_of_run_def snap_wf_def TP_Snapshot_def NewTwoPhaseMap_def NewGMap_def
      GM_Save_def lww_states_def view_def)
  show ?thesis
    unfolding Let_def
    by (rule replicas_converge [where hist = ?hist and zero = 0, THEN conjunct1])
      (use run new in \<open>auto simp: same_views_def NewTwoPhaseMap_def NewGMap_def tp_wf_def\<close>)
qed

subsection \<open>Exchanging differences\<close>

text \<open>The part of a view that is newer than what the receiver has garbage collected.\<close>

definition fresh_view :: "u64 \<Rightarrow> (u64 \<Rightarrow> 'd reg) \<Rightarrow> u64 \<Rightarrow> 'd reg" where
  "fresh_view highestStale f key = (if highestStale < reg_vector (f key) then f key else None)"

lemma map_of_difference_loop:
  assumes "gm_wf theirs"
  shows "map_of (difference_loop hs ours theirs) key =
    (case map_of theirs key of
       Some v \<Rightarrow> if hs < v \<and> (case map_of ours key of None \<Rightarrow> True | Some w \<Rightarrow> w < v) then Some v else None
     | None \<Rightarrow> None)"
proof -
  let ?P = "\<lambda>key v. v > hs \<and> (case map_of ours key of None \<Rightarrow> True | Some w \<Rightarrow> w < v)"
  show ?thesis
    using alist_map.lookup_store_loop [of theirs ?P "\<lambda>_ v. v" "[]" key] assms
    by (simp add: difference_loop_def gm_wf_def split: option.splits)
qed

text \<open>Sending only the newer entries has the effect of sending the whole map.\<close>

lemma difference_keys:
  assumes "gm_wf ours" and "gm_wf theirs"
  shows "key \<in> fst ` set (difference_loop hs (GM_GetClock ours) (GM_GetClock theirs)) \<longleftrightarrow>
    (case map_of theirs key of None \<Rightarrow> False
     | Some b \<Rightarrow> hs < Vector b \<and> (case map_of ours key of None \<Rightarrow> True | Some a \<Rightarrow> Vector a < Vector b))"
proof -
  have "key \<in> fst ` set (difference_loop hs (GM_GetClock ours) (GM_GetClock theirs))
    \<longleftrightarrow> map_of (difference_loop hs (GM_GetClock ours) (GM_GetClock theirs)) key \<noteq> None"
    by (simp add: map_of_eq_None_iff)
  then show ?thesis
    unfolding map_of_difference_loop [OF GM_GetClock_wf] map_of_GM_GetClock [OF assms(1)]
      map_of_GM_GetClock [OF assms(2)]
    by (cases "map_of theirs key"; cases "map_of ours key") simp_all
qed

lemma view_merge_difference:
  assumes "gm_wf ours" and "gm_wf theirs"
  shows "view (GM_merge (GM_SaveWithKeys zero
      (map fst (difference_loop hs (GM_GetClock ours) (GM_GetClock theirs))) theirs) ours)
    = map_join (view ours) (fresh_view hs (view theirs))"
proof
  fix key
  let ?S = "GM_SaveWithKeys zero (map fst (difference_loop hs (GM_GetClock ours) (GM_GetClock theirs))) theirs"
  have S: "map_of ?S key = (case map_of theirs key of None \<Rightarrow> None
     | Some b \<Rightarrow> if hs < Vector b \<and> (case map_of ours key of None \<Rightarrow> True | Some a \<Rightarrow> Vector a < Vector b)
         then Some b else None)"
    unfolding map_of_GM_SaveWithKeys set_map difference_keys [OF assms]
    by (cases "map_of theirs key") (simp_all add: GM_get_def)
  show "view (GM_merge ?S ours) key = map_join (view ours) (fresh_view hs (view theirs)) key"
    unfolding view_def map_of_GM_merge [OF GM_SaveWithKeys_wf] S
    by (cases "map_of theirs key"; cases "map_of ours key")
      (auto simp: map_join_def reg_join_def fresh_view_def reg_vector_def bucket_view_def vector_at_def
        word_gt_0)
qed

text \<open>C9: the message exchange is an optimisation of a full merge. When the receiver computes the
  difference between its clocks and the sender's, the sender answers with a snapshot of just those
  keys, and the receiver merges it, the receiver ends with the join of both maps, less what the
  sender has at or below the highest clock the receiver garbage collected.\<close>

theorem difference_exchange_is_merge:
  assumes "tp_wf m" and "tp_wf m'"
  shows "let d = Difference hs (GenerateMessage m) (GenerateMessage m');
           r = TP_Merge now (SnapShotFromState zero d m') m
    in add_view r = map_join (add_view m) (fresh_view hs (add_view m'))
      \<and> remove_view r = map_join (remove_view m) (fresh_view hs (remove_view m'))"
  using assms
  by (simp add: Let_def TP_Merge_fields Difference_def GenerateMessage_def SnapShotFromState_def
    tp_wf_def view_merge_difference)

theorem difference_exchange_is_merge_witness:
  "let m = NewTwoPhaseMap ''p'' fnv64a 60; m' = TP_Put 5 ''a'' (3 :: nat) (NewTwoPhaseMap ''q'' fnv64a 60);
     d = Difference 0 (GenerateMessage m) (GenerateMessage m');
     r = TP_Merge 9 (SnapShotFromState 0 d m') m
   in add_view r = map_join (add_view m) (fresh_view 0 (add_view m'))"
proof -
  have "tp_wf (NewTwoPhaseMap ''p'' fnv64a 60 :: (string, nat) TwoPhaseMap)"
    "tp_wf (TP_Put 5 ''a'' (3 :: nat) (NewTwoPhaseMap ''q'' fnv64a 60))"
    by (simp_all add: TP_Put_wf New_wf)
  from difference_exchange_is_merge [OF this, of 0 9 0] show ?thesis by (simp add: Let_def)
qed

lemma map_join_New: "f \<in> lww_states hist \<Longrightarrow> map_join (view NewGMap) f = f"
  by (rule ext) (auto simp: map_join_def reg_join_def view_def NewGMap_def word_gt_0
    dest: lww_statesD split: option.splits)

lemma loaded_views:
  assumes "tp_wf m" and "snap_of_run hist (TP_Snapshot m)"
  shows "same_views (TP_Merge now (TP_Snapshot m) (NewTwoPhaseMap p h st)) m"
proof -
  have "snap_wf (TP_Snapshot m)" using assms(2) by (simp add: snap_of_run_def)
  then show ?thesis
    using assms by (simp add: same_views_def view_TP_Merge)
      (auto simp: TP_Snapshot_def NewTwoPhaseMap_def tp_wf_def snap_of_run_def intro: map_join_New)
qed

text \<open>C20: saving a store and merging the snapshot into an empty one restores every entry with a
  positive vector, so \<open>Save\<close> followed by \<open>Load\<close> gives a store with the same view.\<close>

theorem snapshot_roundtrip:
  assumes "tp_wf m" and "snap_of_run hist (TP_Snapshot m)"
  shows "same_views (TP_Merge now (TP_Snapshot m) (NewTwoPhaseMap p h st)) m"
  using assms by (rule loaded_views)

theorem snapshot_roundtrip_witness:
  "let m = \<lparr>tp_addMap = [(1, \<lparr>Vector = 4, Contents = 14 :: nat, Gravestone = False\<rparr>)], tp_removeMap = [],
      tp_Clock = NewVectorClock ''p'' fnv64a 60, tp_processId = ''p''\<rparr>
   in same_views (TP_Merge 9 (TP_Snapshot m) (NewTwoPhaseMap ''q'' fnv64a 60)) m"
  unfolding Let_def
  by (rule snapshot_roundtrip [where hist = "\<lambda>_ _. 14"])
    (auto simp: tp_wf_def gm_wf_def snap_of_run_def snap_wf_def TP_Snapshot_def GM_Save_def
      lww_states_def view_def bucket_view_def split: if_splits)

subsection \<open>Garbage collection\<close>

text \<open>C21: pruning drops from both maps and from the clock exactly the keys whose clock entry is
  older than the stale time relative to the newest entry, and changes nothing else; what it drops
  is covered by the recorded bound, so neither the clock nor a difference accepts it again.\<close>

theorem prune_drops_stale_keys:
  assumes "tp_wf m"
  shows "map_of (tp_addMap (TP_Prune m)) key = (if stale_key m key then None else map_of (tp_addMap m) key)
    \<and> map_of (tp_removeMap (TP_Prune m)) key = (if stale_key m key then None else map_of (tp_removeMap m) key)
    \<and> map_of (vc_vectors (tp_Clock (TP_Prune m))) key
        = (if stale_key m key then None else map_of (vc_vectors (tp_Clock m)) key)
    \<and> (stale_key m key \<longrightarrow> clock_of (tp_Clock m) key \<le> vc_highestStale (tp_Clock (TP_Prune m)))"
proof -
  have wf: "vc_wf (tp_Clock m)" using assms by (simp add: tp_wf_def)
  let ?c1 = "fst (getStale (tp_Clock m))" let ?c2 = "fst (getStale ?c1)"
  have "clock_of (tp_Clock m) key \<le> vc_highestStale (tp_Clock (TP_Prune m))" if st: "stale_key m key"
  proof -
    obtain b where b: "map_of (vc_vectors (tp_Clock m)) key = Some b" "is_stale (tp_Clock m) b"
      using st by (auto simp: stale_key_def)
    have "vb_clock b \<le> vc_highestStale (fst (getStale ?c2))"
      using getStale_highest(2) [of ?c2 key b] wf b by simp
    then show ?thesis using b by (simp add: clock_of_def TP_Prune_fields)
  qed
  then show ?thesis using map_of_TP_Prune [OF assms, of key] by simp
qed

theorem prune_drops_stale_keys_witness:
  "map_of (tp_addMap (TP_Prune \<lparr>tp_addMap = [(1, \<lparr>Vector = 4, Contents = 14 :: nat, Gravestone = False\<rparr>)],
     tp_removeMap = [], tp_Clock = VC_Merge 100 [(2, 9)] (VC_Merge 10 [(1, 4)] (NewVectorClock ''p'' fnv64a 60)),
     tp_processId = ''p''\<rparr>)) 1 = None"
proof -
  let ?c = "VC_Merge 100 [(2, 9)] (VC_Merge 10 [(1, 4)] (NewVectorClock ''p'' fnv64a 60))"
  let ?m = "\<lparr>tp_addMap = [(1, \<lparr>Vector = 4, Contents = 14 :: nat, Gravestone = False\<rparr>)],
     tp_removeMap = [], tp_Clock = ?c, tp_processId = ''p''\<rparr>"
  have vs: "vc_vectors ?c = [(1, \<lparr>vb_clock = 4, vb_lastUpdate = 10\<rparr>), (2, \<lparr>vb_clock = 9, vb_lastUpdate = 100\<rparr>)]"
    "vc_staleTime ?c = 60"
    by (simp_all add: VC_Merge_def VC_put_def NewVectorClock_def Let_def)
  have "tp_wf ?m" "stale_key ?m 1"
    by (simp_all add: tp_wf_def gm_wf_def vc_wf_def vs stale_key_def is_stale_def maxTimeStamp_eq)
  with prune_drops_stale_keys [of ?m 1] show ?thesis by simp
qed

section \<open>The interface to the data store\<close>

text \<open>
  What the mesh operations rely on: a store that accepts \<open>n\<close> more puts (\<open>ready n\<close>), in which a put
  is seen by the next lookup and leaves other keys alone. \<open>same m j k\<close> says that two keys share a
  hash. Every setter of the data store is a read-modify-write \<open>update\<close>.
\<close>

locale keyed_store =
  fixes contains :: "'k \<Rightarrow> 'm \<Rightarrow> bool"
    and get :: "'k \<Rightarrow> 'm \<Rightarrow> 'd"
    and put :: "'k \<Rightarrow> 'd \<Rightarrow> 'm \<Rightarrow> 'm"
    and same :: "'m \<Rightarrow> 'k \<Rightarrow> 'k \<Rightarrow> bool"
    and ready :: "nat \<Rightarrow> 'm \<Rightarrow> bool"
  assumes put_contains: "ready (Suc n) m \<Longrightarrow> contains j (put k d m) \<longleftrightarrow> same m j k \<or> contains j m"
    and put_get: "ready (Suc n) m \<Longrightarrow> get j (put k d m) = (if same m j k then d else get j m)"
    and put_ready: "ready (Suc n) m \<Longrightarrow> ready n (put k d m)"
    and put_same: "ready (Suc n) m \<Longrightarrow> same (put k d m) = same m"
    and same_refl: "same m k k"
begin

definition update :: "'k \<Rightarrow> ('d \<Rightarrow> 'd) \<Rightarrow> 'm \<Rightarrow> 'm" where
  "update k f m = (if contains k m then put k (f (get k m)) m else m)"

lemma update_ready: "ready (Suc n) m \<Longrightarrow> ready n m \<Longrightarrow> ready n (update k f m)"
  by (simp add: update_def put_ready)

lemma update_absent: "\<not> contains k m \<Longrightarrow> update k f m = m"
  by (simp add: update_def)

lemma update_contains:
  assumes "ready (Suc n) m" and "\<And>j. same m j k \<Longrightarrow> contains j m = contains k m"
  shows "contains j (update k f m) = contains j m"
  using assms by (auto simp: update_def put_contains)

lemma update_get:
  "ready (Suc n) m \<Longrightarrow> contains k m \<Longrightarrow> get k (update k f m) = f (get k m)"
  by (simp add: update_def put_get same_refl)

lemma update_other:
  "ready (Suc n) m \<Longrightarrow> \<not> same m j k
    \<Longrightarrow> get j (update k f m) = get j m \<and> contains j (update k f m) = contains j m"
  by (simp add: update_def put_get put_contains)

text \<open>Two updates of the same key compose.\<close>

lemma update_update:
  assumes "ready (Suc (Suc n)) m" and "contains k m"
  shows "contains k (update k g (update k f m)) \<and> get k (update k g (update k f m)) = g (f (get k m))"
proof -
  have "contains k (update k f m)" "ready (Suc n) (update k f m)"
    using assms by (simp_all add: update_def put_contains put_ready)
  then have "get k (update k g (update k f m)) = g (get k (update k f m))" by (rule update_get [rotated])
  moreover have "contains k (update k g (update k f m))"
    using \<open>contains k (update k f m)\<close> \<open>ready (Suc n) (update k f m)\<close>
    by (simp add: update_def [of k g] put_contains)
  ultimately show ?thesis using update_get [OF assms] by simp
qed

end

interpretation ks: keyed_store "TP_Contains zero" "TP_Get zero" "TP_Put now"
  "\<lambda>m j k. tp_hash m j = tp_hash m k" tp_ready for zero :: 'd and now
proof unfold_locales
  fix n and m :: "('k, 'd) TwoPhaseMap" and j k d
  assume r: "tp_ready (Suc n) m"
  show "TP_Contains zero j (TP_Put now k d m) \<longleftrightarrow> tp_hash m j = tp_hash m k \<or> TP_Contains zero j m"
    by (simp add: TP_Contains_def ready_Put_fields [OF r r] TP_contains_Put [OF r])
  show "TP_Get zero j (TP_Put now k d m) = (if tp_hash m j = tp_hash m k then d else TP_Get zero j m)"
    by (simp add: TP_Get_eq ready_Put_fields [OF r r] TP_get_Put [OF r])
  show "tp_ready n (TP_Put now k d m)" by (rule tp_ready_Put [OF r])
  show "(\<lambda>j k'. tp_hash (TP_Put now k d m) j = tp_hash (TP_Put now k d m) k') = (\<lambda>j k. tp_hash m j = tp_hash m k)"
    by (simp add: ready_Put_fields [OF r r])
qed simp

end
