(* ===== verification/Two_Phase_Syncer.thy ===== *)
theory Two_Phase_Syncer
  imports Two_Phase_Map
begin

text \<open>
  The synchronisation protocol of two nodes: \<open>src/pkg/crdt/two_phase_map_syncer.go\<close> (the state
  machine that generates and consumes messages) and the two loops that drive it over a stream,
  \<open>syncMesh\<close> of \<open>src/pkg/sync/syncrequester.go\<close> on the client and \<open>SyncMesh\<close> of
  \<open>src/pkg/sync/syncservice.go\<close> on the server.

  A message on the wire is a typed value. Decoding a message into another type leaves the zero
  value, as the code ignores the decoding error. A nil message is not delivered to the peer. The
  time of each step is read from \<open>time\<close>. The locale \<open>mesh_syncer\<close> is Go's interface \<open>MeshSyncer\<close>
  with the progress the loops rely on.

  The lemmas show that a session always ends, within five rounds, and that afterwards both sides
  hold the join of their maps, while replicas with equal clock hashes are left alone.
\<close>

section \<open>The state machine\<close>

datatype SyncState = HASH | PREPARE | PRESENT | EXCHANGE | MERGE | FINISHED

datatype 'd SyncMsg =
    HashMsg u64
  | StateMsg TwoPhaseMapState
  | SnapshotMsg "'d TwoPhaseMapSnapshot"

datatype sync_panic = PeerMsgNil | StateNotHandled | NilMapState

record ('k, 'd) TwoPhaseSyncer =
  ts_store :: "('k, 'd) TwoPhaseMap"
  ts_state :: SyncState
  ts_mapState :: "TwoPhaseMapState option"
  ts_peerMsg :: "'d SyncMsg option"

type_synonym ('s, 'm) generated = "sync_panic + 's \<times> 'm option \<times> bool"

definition zeroState :: TwoPhaseMapState where
  "zeroState = \<lparr>Vectors = [], AddContents = [], RemoveContents = []\<rparr>"

fun decode_hash :: "'d SyncMsg option \<Rightarrow> u64" where
  "decode_hash (Some (HashMsg h)) = h"
| "decode_hash _ = 0"

fun decode_state :: "'d SyncMsg option \<Rightarrow> TwoPhaseMapState" where
  "decode_state (Some (StateMsg st)) = st"
| "decode_state _ = zeroState"

fun decode_snapshot :: "'d SyncMsg option \<Rightarrow> 'd TwoPhaseMapSnapshot" where
  "decode_snapshot (Some (SnapshotMsg s)) = s"
| "decode_snapshot _ = \<lparr>Add = [], Remove = []\<rparr>"

fun next_state :: "SyncState \<Rightarrow> SyncState" where
  "next_state HASH = PREPARE"
| "next_state PREPARE = PRESENT"
| "next_state PRESENT = EXCHANGE"
| "next_state EXCHANGE = MERGE"
| "next_state MERGE = FINISHED"
| "next_state FINISHED = FINISHED"

definition IncrementState :: "('k, 'd) TwoPhaseSyncer \<Rightarrow> ('k, 'd) TwoPhaseSyncer" where
  "IncrementState s = s\<lparr>ts_state := next_state (ts_state s)\<rparr>"

abbreviation ts_clock :: "('k, 'd) TwoPhaseSyncer \<Rightarrow> 'k VectorClock" where
  "ts_clock s \<equiv> tp_Clock (ts_store s)"

definition set_clock :: "'k VectorClock \<Rightarrow> ('k, 'd) TwoPhaseSyncer \<Rightarrow> ('k, 'd) TwoPhaseSyncer" where
  "set_clock clk s = s\<lparr>ts_store := (ts_store s)\<lparr>tp_Clock := clk\<rparr>\<rparr>"

definition sync_hash ::
  "('k, 'd) TwoPhaseSyncer \<Rightarrow> (('k, 'd) TwoPhaseSyncer, 'd SyncMsg) generated" where
  "sync_hash s = Inr (IncrementState s, Some (HashMsg (VC_GetHash (ts_clock s))), True)"

definition prepare ::
  "u64 \<Rightarrow> ('k, 'd) TwoPhaseSyncer \<Rightarrow> (('k, 'd) TwoPhaseSyncer, 'd SyncMsg) generated" where
  "prepare now s =
     (if decode_hash (ts_peerMsg s) = VC_GetHash (ts_clock s) then Inr (s, None, False)
      else let s1 = set_clock (fst (IncrementClock now (ts_clock s))) s;
               mapState = GenerateMessage (ts_store s1);
               s2 = s1\<lparr>ts_mapState := Some mapState\<rparr>
           in Inr (IncrementState s2, Some (StateMsg mapState), True))"

definition present ::
  "u64 \<Rightarrow> ('k, 'd) TwoPhaseSyncer \<Rightarrow> (('k, 'd) TwoPhaseSyncer, 'd SyncMsg) generated" where
  "present now s =
     (if ts_peerMsg s = None then Inl PeerMsgNil
      else let mapState = decode_state (ts_peerMsg s) in
        if ts_mapState s = None \<and> (AddContents mapState \<noteq> [] \<or> RemoveContents mapState \<noteq> [])
        then Inl NilMapState
        else let own = (case ts_mapState s of Some st \<Rightarrow> st | None \<Rightarrow> zeroState);
                 difference = Difference (GetStaleCount (ts_clock s)) own mapState;
                 s1 = set_clock (VC_Merge now (Vectors mapState) (ts_clock s)) s
             in Inr (IncrementState s1, Some (StateMsg difference), True))"

definition exchange ::
  "'d \<Rightarrow> ('k, 'd) TwoPhaseSyncer \<Rightarrow> (('k, 'd) TwoPhaseSyncer, 'd SyncMsg) generated" where
  "exchange zero s =
     (if ts_peerMsg s = None then Inl PeerMsgNil
      else let mapState = decode_state (ts_peerMsg s);
               snapshot = SnapShotFromState zero mapState (ts_store s)
           in Inr (IncrementState s, Some (SnapshotMsg snapshot), True))"

definition sync_merge ::
  "u64 \<Rightarrow> ('k, 'd) TwoPhaseSyncer \<Rightarrow> (('k, 'd) TwoPhaseSyncer, 'd SyncMsg) generated" where
  "sync_merge now s =
     (if ts_peerMsg s = None then Inl PeerMsgNil
      else Inr (s\<lparr>ts_store := TP_Merge now (decode_snapshot (ts_peerMsg s)) (ts_store s)\<rparr>, None, False))"

definition TS_GenerateMessage ::
  "'d \<Rightarrow> u64 \<Rightarrow> ('k, 'd) TwoPhaseSyncer \<Rightarrow> (('k, 'd) TwoPhaseSyncer, 'd SyncMsg) generated" where
  "TS_GenerateMessage zero now s =
     (case ts_state s of
        HASH \<Rightarrow> sync_hash s
      | PREPARE \<Rightarrow> prepare now s
      | PRESENT \<Rightarrow> present now s
      | EXCHANGE \<Rightarrow> exchange zero s
      | MERGE \<Rightarrow> sync_merge now s
      | FINISHED \<Rightarrow> Inl StateNotHandled)"

definition TS_RecvMessage :: "'d SyncMsg \<Rightarrow> ('k, 'd) TwoPhaseSyncer \<Rightarrow> ('k, 'd) TwoPhaseSyncer" where
  "TS_RecvMessage msg s = s\<lparr>ts_peerMsg := Some msg\<rparr>"

definition NewTwoPhaseSyncer :: "('k, 'd) TwoPhaseMap \<Rightarrow> ('k, 'd) TwoPhaseSyncer" where
  "NewTwoPhaseSyncer store =
     \<lparr>ts_store = store, ts_state = HASH, ts_mapState = None, ts_peerMsg = None\<rparr>"

section \<open>The two loops over a stream\<close>

datatype service_error = MeshDoesNotExist | DifferingMeshIds | SyncerNil

text \<open>The local variables of the server's loop.\<close>

record 's server =
  sv_meshId :: string
  sv_syncer :: "'s option"

definition server_open ::
  "(string \<Rightarrow> 's option) \<Rightarrow> string \<Rightarrow> 's server \<Rightarrow> service_error + 's server" where
  "server_open getMesh inMeshId sv =
     (if sv_meshId sv = [] then
        (case getMesh inMeshId of
           None \<Rightarrow> Inl MeshDoesNotExist
         | Some syncer \<Rightarrow> Inr \<lparr>sv_meshId = inMeshId, sv_syncer = Some syncer\<rparr>)
      else if sv_meshId sv \<noteq> inMeshId then Inl DifferingMeshIds
      else Inr sv)"

definition recv_nonempty :: "('m \<Rightarrow> 's \<Rightarrow> 's) \<Rightarrow> 'm option \<Rightarrow> 's \<Rightarrow> 's" where
  "recv_nonempty recv changes s = (case changes of None \<Rightarrow> s | Some msg \<Rightarrow> recv msg s)"

datatype ('s, 'm) served =
    ServeError service_error
  | ServePanic sync_panic
  | Served "'s server" "'m option" bool

text \<open>One iteration of the server's loop: the reply, and whether the loop goes on.\<close>

definition serve ::
  "(u64 \<Rightarrow> 's \<Rightarrow> ('s, 'm) generated) \<Rightarrow> ('m \<Rightarrow> 's \<Rightarrow> 's) \<Rightarrow> (string \<Rightarrow> 's option)
    \<Rightarrow> u64 \<Rightarrow> string \<Rightarrow> 'm option \<Rightarrow> 's server \<Rightarrow> ('s, 'm) served" where
  "serve gen recv getMesh now inMeshId changes sv =
     (case server_open getMesh inMeshId sv of
        Inl e \<Rightarrow> ServeError e
      | Inr sv1 \<Rightarrow>
          (case sv_syncer sv1 of
             None \<Rightarrow> ServeError SyncerNil
           | Some syncer \<Rightarrow>
               (case gen now syncer of
                  Inl p \<Rightarrow> ServePanic p
                | Inr (syncer1, msg, moreMessages) \<Rightarrow>
                    Served (sv1\<lparr>sv_syncer := Some (recv_nonempty recv changes syncer1)\<rparr>) msg moreMessages)))"

datatype 's session =
    Completed 's "'s server"
  | ClientError 's "'s server"
  | SessionPanic sync_panic

text \<open>
  The client's loop with the server at the other end, \<open>n\<close> bounding the rounds (\<open>None\<close>: the bound
  was too small). When the server has returned and the client goes on, the client generates one
  more message and the stream fails.
\<close>

fun syncMesh ::
  "(u64 \<Rightarrow> 's \<Rightarrow> ('s, 'm) generated) \<Rightarrow> ('m \<Rightarrow> 's \<Rightarrow> 's) \<Rightarrow> (string \<Rightarrow> 's option)
    \<Rightarrow> (nat \<Rightarrow> u64) \<Rightarrow> string \<Rightarrow> nat \<Rightarrow> 's \<Rightarrow> 's server \<Rightarrow> 's session option" where
  "syncMesh gen recv getMesh time meshId 0 syncer sv = None"
| "syncMesh gen recv getMesh time meshId (Suc n) syncer sv =
     (case gen (time (2 * n)) syncer of
        Inl p \<Rightarrow> Some (SessionPanic p)
      | Inr (syncer1, msg, moreMessages) \<Rightarrow>
          (case serve gen recv getMesh (time (2 * n + 1)) meshId msg sv of
             ServeError e \<Rightarrow> Some (ClientError syncer1 sv)
           | ServePanic p \<Rightarrow> Some (SessionPanic p)
           | Served sv1 reply serverMore \<Rightarrow>
               let syncer2 = recv_nonempty recv reply syncer1
               in if \<not> moreMessages then Some (Completed syncer2 sv1)
                  else if serverMore then syncMesh gen recv getMesh time meshId n syncer2 sv1
                  else (case gen (time (2 * n)) syncer2 of
                          Inl p \<Rightarrow> Some (SessionPanic p)
                        | Inr (syncer3, _, _) \<Rightarrow> Some (ClientError syncer3 sv1))))"

definition NewServer :: "'s server" where
  "NewServer = \<lparr>sv_meshId = [], sv_syncer = None\<rparr>"

section \<open>The interface of a syncer\<close>

text \<open>What the loops need of a \<open>MeshSyncer\<close>: every message that announces another one makes
  progress, and receiving does not undo it.\<close>

locale mesh_syncer =
  fixes gen :: "u64 \<Rightarrow> 's \<Rightarrow> ('s, 'm) generated"
    and recv :: "'m \<Rightarrow> 's \<Rightarrow> 's"
    and rank :: "'s \<Rightarrow> nat"
  assumes gen_progress: "gen now s = Inr (s', msg, True) \<Longrightarrow> rank s' < rank s"
    and recv_rank: "rank (recv m s) = rank s"
begin

lemma recv_nonempty_rank: "rank (recv_nonempty recv changes s) = rank s"
  by (simp add: recv_nonempty_def recv_rank split: option.splits)

text \<open>Whatever the server does, the client's loop ends.\<close>

lemma session_ends:
  "rank s < n \<Longrightarrow> \<exists>r. syncMesh gen recv getMesh time meshId n s sv = Some r"
proof (induction n arbitrary: s sv)
  case (Suc n)
  show ?case
  proof (cases "gen (time (2 * n)) s")
    case (Inr r)
    obtain s1 msg goOn where r: "r = (s1, msg, goOn)" by (cases r) auto
    have "\<exists>r. syncMesh gen recv getMesh time meshId n (recv_nonempty recv reply s1) sv1 = Some r"
      if "goOn" for reply sv1
      using Suc.prems gen_progress [of "time (2 * n)" s s1 msg] that Inr r
      by (intro Suc.IH) (simp add: recv_nonempty_rank)
    then show ?thesis
      by (auto simp: Inr r Let_def split: served.splits sum.splits)
  qed simp
qed simp

end

fun state_rank :: "SyncState \<Rightarrow> nat" where
  "state_rank HASH = 4"
| "state_rank PREPARE = 3"
| "state_rank PRESENT = 2"
| "state_rank EXCHANGE = 1"
| "state_rank MERGE = 0"
| "state_rank FINISHED = 0"

lemmas generate_defs = sync_hash_def prepare_def present_def exchange_def sync_merge_def
  IncrementState_def set_clock_def Let_def

interpretation two_phase: mesh_syncer "TS_GenerateMessage zero" TS_RecvMessage "\<lambda>s. state_rank (ts_state s)"
  for zero
  by unfold_locales
    (auto simp: TS_GenerateMessage_def TS_RecvMessage_def generate_defs
      split: SyncState.splits if_splits option.splits)

text \<open>C11: a synchronisation with any server, for any contents and any times, ends after at most five
  rounds: the loop of the client has no other exit to wait for.\<close>

theorem sync_session_terminates:
  "\<exists>r. syncMesh (TS_GenerateMessage zero) TS_RecvMessage getMesh time meshId 5
     (NewTwoPhaseSyncer store) sv = Some r"
  by (rule two_phase.session_ends) (simp add: NewTwoPhaseSyncer_def)

section \<open>A whole session\<close>

text \<open>The clock of a side after the hashes differed, and after it merged the peer's clock.\<close>

definition bump :: "u64 \<Rightarrow> ('k, 'd) TwoPhaseMap \<Rightarrow> ('k, 'd) TwoPhaseMap" where
  "bump now m = m\<lparr>tp_Clock := fst (IncrementClock now (tp_Clock m))\<rparr>"

definition learn :: "u64 \<Rightarrow> (u64, u64) gomap \<Rightarrow> ('k, 'd) TwoPhaseMap \<Rightarrow> ('k, 'd) TwoPhaseMap" where
  "learn now vs m = m\<lparr>tp_Clock := VC_Merge now vs (tp_Clock m)\<rparr>"

text \<open>What one side ends with: \<open>ours\<close> prepared at \<open>t1\<close>, learnt at \<open>t2\<close> and merged at \<open>t3\<close>.\<close>

definition synced ::
  "'d \<Rightarrow> u64 \<Rightarrow> u64 \<Rightarrow> ('k, 'd) TwoPhaseMap \<Rightarrow> ('k, 'd) TwoPhaseMap \<Rightarrow> ('k, 'd) TwoPhaseMap" where
  "synced zero t2 t3 ours theirs =
     (let d = Difference (GetStaleCount (tp_Clock ours)) (GenerateMessage ours) (GenerateMessage theirs)
      in TP_Merge t3 (SnapShotFromState zero d theirs)
           (learn t2 (VC_GetClock (tp_Clock theirs)) ours))"

abbreviation run_session ::
  "'d \<Rightarrow> (nat \<Rightarrow> u64) \<Rightarrow> string \<Rightarrow> (string \<Rightarrow> ('k, 'd) TwoPhaseMap option)
    \<Rightarrow> ('k, 'd) TwoPhaseMap \<Rightarrow> ('k, 'd) TwoPhaseSyncer session option" where
  "run_session zero time meshId meshes a \<equiv>
     syncMesh (TS_GenerateMessage zero) TS_RecvMessage (map_option NewTwoPhaseSyncer \<circ> meshes)
       time meshId 5 (NewTwoPhaseSyncer a) NewServer"

fun session_stores :: "('k, 'd) TwoPhaseSyncer session option
    \<Rightarrow> (('k, 'd) TwoPhaseMap \<times> ('k, 'd) TwoPhaseMap) option" where
  "session_stores (Some (Completed s sv)) = map_option (\<lambda>t. (ts_store s, ts_store t)) (sv_syncer sv)"
| "session_stores _ = None"

lemmas session_simps = serve_def server_open_def NewServer_def NewTwoPhaseSyncer_def
  TS_GenerateMessage_def TS_RecvMessage_def generate_defs recv_nonempty_def eval_nat_numeral

lemma session_equal_hashes:
  assumes "meshId \<noteq> []" and "meshes meshId = Some b"
    and "VC_GetHash (tp_Clock a) = VC_GetHash (tp_Clock b)"
  shows "session_stores (run_session zero time meshId meshes a) = Some (a, b)"
  using assms by (simp add: session_simps)

lemma SnapShotFromState_learn:
  "SnapShotFromState zero d (learn now vs m) = SnapShotFromState zero d m"
  by (simp add: SnapShotFromState_def learn_def)

lemma session_different_hashes:
  assumes "meshId \<noteq> []" and "meshes meshId = Some b"
    and "VC_GetHash (tp_Clock a) \<noteq> VC_GetHash (tp_Clock b)"
  shows "session_stores (run_session zero time meshId meshes a) = Some
    (synced zero (time 4) (time 0) (bump (time 6) a) (bump (time 7) b),
     synced zero (time 5) (time 1) (bump (time 7) b) (bump (time 6) a))"
  using assms
  by (simp add: session_simps)
    (simp add: synced_def bump_def learn_def Let_def SnapShotFromState_def GenerateMessage_def)

lemma bump_frame [simp]:
  "tp_addMap (bump now m) = tp_addMap m" "tp_removeMap (bump now m) = tp_removeMap m"
  "vc_highestStale (tp_Clock (bump now m)) = vc_highestStale (tp_Clock m)"
  "tp_wf m \<Longrightarrow> tp_wf (bump now m)"
  by (simp_all add: bump_def tp_wf_def)

lemma learn_frame [simp]:
  "tp_addMap (learn now vs m) = tp_addMap m" "tp_removeMap (learn now vs m) = tp_removeMap m"
  "tp_wf m \<Longrightarrow> tp_wf (learn now vs m)"
  by (simp_all add: learn_def tp_wf_def)

lemma synced_views:
  assumes "tp_wf a" and "tp_wf b"
  shows "add_view (synced zero t2 t3 a b)
      = map_join (add_view a) (fresh_view (vc_highestStale (tp_Clock a)) (add_view b))"
    and "remove_view (synced zero t2 t3 a b)
      = map_join (remove_view a) (fresh_view (vc_highestStale (tp_Clock a)) (remove_view b))"
    and "tp_wf (synced zero t2 t3 a b)"
  using assms
  by (simp_all add: synced_def Let_def TP_Merge_wf)
    (simp_all add: TP_Merge_fields Difference_def GenerateMessage_def SnapShotFromState_def tp_wf_def
      view_merge_difference GetStaleCount_def)

text \<open>C2: a session between two nodes whose clocks hash differently completes, and each side ends
  with the join of its own maps and what the other side has above the bound of its own garbage
  collection. Neither side loses an entry.\<close>

theorem sync_session_joins_stores:
  assumes "meshId \<noteq> []" and "meshes meshId = Some b" and "tp_wf a" and "tp_wf b"
    and "VC_GetHash (tp_Clock a) \<noteq> VC_GetHash (tp_Clock b)"
  shows "\<exists>a' b'. session_stores (run_session zero time meshId meshes a) = Some (a', b')
    \<and> add_view a' = map_join (add_view a) (fresh_view (vc_highestStale (tp_Clock a)) (add_view b))
    \<and> remove_view a' = map_join (remove_view a) (fresh_view (vc_highestStale (tp_Clock a)) (remove_view b))
    \<and> add_view b' = map_join (add_view b) (fresh_view (vc_highestStale (tp_Clock b)) (add_view a))
    \<and> remove_view b' = map_join (remove_view b) (fresh_view (vc_highestStale (tp_Clock b)) (remove_view a))
    \<and> tp_wf a' \<and> tp_wf b'"
  using session_different_hashes [of meshId meshes b a zero time] assms(1,2,5) assms(3,4)
  by (simp add: synced_views)

theorem sync_session_joins_stores_witness:
  "let a = TP_Put 5 ''a'' (3 :: nat) (NewTwoPhaseMap ''a'' fnv64a 60);
       b = NewTwoPhaseMap ''b'' fnv64a 60
   in \<exists>a' b'. session_stores (run_session 0 (\<lambda>_. 9) ''mesh'' (\<lambda>_. Some b) a) = Some (a', b')
     \<and> add_view b' = map_join (add_view b) (fresh_view (vc_highestStale (tp_Clock b)) (add_view a))"
proof -
  let ?a = "TP_Put 5 ''a'' (3 :: nat) (NewTwoPhaseMap ''a'' fnv64a 60)"
  let ?b = "NewTwoPhaseMap ''b'' fnv64a 60 :: (string, nat) TwoPhaseMap"
  have "tp_wf ?a" "tp_wf ?b" by (simp_all add: TP_Put_wf New_wf)
  moreover have "VC_GetHash (tp_Clock ?a) \<noteq> VC_GetHash (tp_Clock ?b)"
    by (simp add: TP_Put_def NewTwoPhaseMap_def NewVectorClock_def NewGMap_def IncrementClock_def
      GM_Put_def VC_Put_def VC_put_def VC_GetHash_def maxClock_def Let_def fnv64a_def byte_of_def)
  ultimately show ?thesis
    using sync_session_joins_stores [of "''mesh''" "\<lambda>_. Some ?b" ?b ?a 0 "\<lambda>_. 9"]
    unfolding Let_def by blast
qed

text \<open>Nothing the sender has lies at or below what the receiver has garbage collected.\<close>

definition all_fresh :: "('k, 'd) TwoPhaseMap \<Rightarrow> ('k, 'd) TwoPhaseMap \<Rightarrow> bool" where
  "all_fresh receiver sender \<longleftrightarrow>
     (\<forall>(key, b) \<in> set (tp_addMap sender). vc_highestStale (tp_Clock receiver) < Vector b)
     \<and> (\<forall>(key, b) \<in> set (tp_removeMap sender). vc_highestStale (tp_Clock receiver) < Vector b)"

lemma fresh_view_all:
  "(\<forall>(key, b) \<in> set g. hs < Vector b) \<Longrightarrow> fresh_view hs (view g) = view g"
  by (rule ext) (force simp: fresh_view_def reg_vector_def view_def bucket_view_def
    dest: map_of_SomeD split: option.splits)

lemma all_fresh_views:
  assumes "all_fresh receiver sender"
  shows "fresh_view (vc_highestStale (tp_Clock receiver)) (add_view sender) = add_view sender"
    and "fresh_view (vc_highestStale (tp_Clock receiver)) (remove_view sender) = remove_view sender"
  using assms by (auto simp: all_fresh_def intro!: fresh_view_all)



text \<open>Nodes whose clocks hash alike stop after the hashes, with both stores unchanged; a server
  that does not know the mesh makes the client fail without changing the client's store.\<close>

lemma sync_session_without_exchange:
  assumes "meshId \<noteq> []"
  shows "(meshes meshId = Some b \<and> VC_GetHash (tp_Clock a) = VC_GetHash (tp_Clock b)
      \<longrightarrow> session_stores (run_session zero time meshId meshes a) = Some (a, b))
    \<and> (meshes meshId = None
      \<longrightarrow> (\<exists>s. run_session zero time meshId meshes a = Some (ClientError s NewServer) \<and> ts_store s = a))"
  using session_equal_hashes [OF assms, of meshes b a zero time]
  by (auto simp: session_simps assms)


end
