(* ===== verification/Network.thy ===== *)
theory Network
  imports Two_Phase_Syncer
begin

text \<open>
  The nodes of a mesh as a whole. A network is a store per node; nodes meet in sessions, both ends of
  which are those of \<open>Two_Phase_Syncer\<close>. No node writes while they gossip and nothing was garbage
  collected, so the question is the one of eventual consistency: when do they agree?

  The abstract specification is what each node has heard of: at the start of itself, and after a
  session both ends have heard of what either had (\<open>knowledge\<close>). The refinement says that the views of
  a node are always the least upper bound of the initial views of the nodes it has heard of.
\<close>

section \<open>Least upper bounds of replicas\<close>

context replica_join
begin

definition least_of :: "('n \<Rightarrow> 's) \<Rightarrow> 'n set \<Rightarrow> 's \<Rightarrow> bool" where
  "least_of start K s \<longleftrightarrow> s \<in> states \<and> (\<forall>i \<in> K. join (start i) s = s)
     \<and> (\<forall>u \<in> states. (\<forall>i \<in> K. join (start i) u = u) \<longrightarrow> join s u = u)"

lemma least_start: "start i \<in> states \<Longrightarrow> least_of start {i} (start i)"
  by (simp add: least_of_def idem)

lemma least_unique: "least_of start K s \<Longrightarrow> least_of start K t \<Longrightarrow> s = t"
  unfolding least_of_def by (metis commute)

lemma least_join:
  assumes "\<And>i. start i \<in> states" and "least_of start K s" and "least_of start L t"
  shows "least_of start (K \<union> L) (join s t)"
proof -
  have s: "s \<in> states" "t \<in> states" using assms(2,3) by (simp_all add: least_of_def)
  have "join (start i) (join s t) = join s t" if "i \<in> K" for i
    using that assms(1) s assms(2) by (simp add: assoc [symmetric] least_of_def)
  moreover have "join (start i) (join s t) = join s t" if "i \<in> L" for i
    using that assms(1) s assms(3) by (metis (no_types, lifting) assoc commute least_of_def)
  moreover have "join (join s t) u = u" if "u \<in> states" "\<forall>i \<in> K \<union> L. join (start i) u = u" for u
    using that assms(2,3) s by (simp add: assoc least_of_def)
  ultimately show ?thesis using s by (auto simp: least_of_def closed)
qed

end

section \<open>Meetings\<close>

definition meet :: "('n \<Rightarrow> 'n set) \<Rightarrow> 'n \<times> 'n \<Rightarrow> 'n \<Rightarrow> 'n set" where
  "meet K = (\<lambda>(i, j). K(i := K i \<union> K j, j := K i \<union> K j))"

definition knowledge :: "('n \<times> 'n) list \<Rightarrow> 'n \<Rightarrow> 'n set" where
  "knowledge ms = foldl meet (\<lambda>k. {k}) ms"

text \<open>Sessions compare the hashes of the clocks first. They cannot help nodes that differ although their
  clocks hash alike.\<close>

definition hashes_tell :: "('k, 'd) TwoPhaseMap \<Rightarrow> ('k, 'd) TwoPhaseMap \<Rightarrow> bool" where
  "hashes_tell a b \<longleftrightarrow> (VC_GetHash (tp_Clock a) = VC_GetHash (tp_Clock b) \<longrightarrow> same_views a b)"

inductive gossip_run ::
  "'d \<Rightarrow> string \<Rightarrow> ('n \<Rightarrow> ('k, 'd) TwoPhaseMap) \<Rightarrow> ('n \<times> 'n) list \<Rightarrow> ('n \<Rightarrow> ('k, 'd) TwoPhaseMap) \<Rightarrow> bool"
  for zero :: 'd and meshId :: string and net :: "'n \<Rightarrow> ('k, 'd) TwoPhaseMap" where
  begin_run: "gossip_run zero meshId net [] net"
| session: "gossip_run zero meshId net ms net1 \<Longrightarrow> i \<noteq> j \<Longrightarrow> hashes_tell (net1 i) (net1 j)
    \<Longrightarrow> session_stores (run_session zero time meshId (\<lambda>_. Some (net1 j)) (net1 i)) = Some (a, b)
    \<Longrightarrow> gossip_run zero meshId net (ms @ [(i, j)]) (net1(i := a, j := b))"

text \<open>A replica of the run \<open>hist\<close> from which nothing was garbage collected.\<close>

definition replica_of :: "(u64 \<Rightarrow> u64 \<Rightarrow> 'd) \<Rightarrow> ('k, 'd) TwoPhaseMap \<Rightarrow> bool" where
  "replica_of hist m \<longleftrightarrow> tp_wf m \<and> snap_of_run hist (TP_Snapshot m) \<and> vc_highestStale (tp_Clock m) = 0"

lemma replica_views:
  "replica_of hist m \<longleftrightarrow> tp_wf m \<and> add_view m \<in> lww_states hist \<and> remove_view m \<in> lww_states (\<lambda>_ _. True)
     \<and> vc_highestStale (tp_Clock m) = 0"
  by (auto simp: replica_of_def snap_of_run_def snap_wf_def TP_Snapshot_def tp_wf_def)

lemma fresh_view_0: "f \<in> lww_states hist \<Longrightarrow> fresh_view 0 f = f"
  by (rule ext) (auto simp: fresh_view_def reg_vector_def word_gt_0 split: option.splits dest: lww_statesD)

lemma synced_stale [simp]: "vc_highestStale (tp_Clock (synced zero t2 t3 a b)) = vc_highestStale (tp_Clock a)"
  by (simp add: synced_def Let_def TP_Merge_fields learn_def)

text \<open>What a session between two replicas of one run does.\<close>

lemma session_joins:
  assumes "replica_of hist a" and "replica_of hist b" and "meshId \<noteq> []" and "hashes_tell a b"
    and "session_stores (run_session zero time meshId (\<lambda>_. Some b) a) = Some (a', b')"
  shows "replica_of hist a' \<and> replica_of hist b'
    \<and> add_view a' = map_join (add_view a) (add_view b) \<and> add_view b' = map_join (add_view a) (add_view b)
    \<and> remove_view a' = map_join (remove_view a) (remove_view b) \<and> remove_view b' = map_join (remove_view a) (remove_view b)"
proof -
  note v = assms(1,2) [unfolded replica_views]
  have comm: "map_join (add_view b) (add_view a) = map_join (add_view a) (add_view b)"
    "map_join (remove_view b) (remove_view a) = map_join (remove_view a) (remove_view b)"
    using v by (auto intro!: lww.commute)
  show ?thesis
  proof (cases "VC_GetHash (tp_Clock a) = VC_GetHash (tp_Clock b)")
    case True
    then have "a' = a" "b' = b" using session_equal_hashes [of meshId "\<lambda>_. Some b" b a zero time] assms(3,5) by simp_all
    moreover have "same_views a b" using True assms(4) by (simp add: hashes_tell_def)
    ultimately show ?thesis using assms(1,2) v by (auto simp: same_views_def lww.idem)
  next
    case False
    then have "a' = synced zero (time 4) (time 0) (bump (time 6) a) (bump (time 7) b)"
      "b' = synced zero (time 5) (time 1) (bump (time 7) b) (bump (time 6) a)"
      using session_different_hashes [of meshId "\<lambda>_. Some b" b a zero time] assms(3,5) by simp_all
    with v comm show ?thesis
      by (auto simp: replica_views synced_views fresh_view_0 [of _ hist] fresh_view_0 [of _ "\<lambda>_ _. True"] intro!: lww.closed)
  qed
qed

text \<open>Sessions always come to an end, so a run can be continued by any meeting.\<close>

lemma session_possible:
  assumes "meshId \<noteq> []"
  shows "\<exists>a' b'. session_stores (run_session zero time meshId (\<lambda>_. Some b) a) = Some (a', b')"
  using session_equal_hashes [of meshId "\<lambda>_. Some b" b a zero time]
    session_different_hashes [of meshId "\<lambda>_. Some b" b a zero time] assms
  by (cases "VC_GetHash (tp_Clock a) = VC_GetHash (tp_Clock b)") auto

section \<open>Convergence\<close>

lemma knowledge_snoc: "knowledge (ms @ [m]) = meet (knowledge ms) m"
  by (simp add: knowledge_def)

lemma run_refines_knowledge:
  assumes "gossip_run zero meshId net ms net'" and "meshId \<noteq> []" and "\<And>k. replica_of hist (net k)"
  shows "replica_of hist (net' k) \<and> lww.least_of hist (\<lambda>k. add_view (net k)) (knowledge ms k) (add_view (net' k))
    \<and> lww.least_of (\<lambda>_ _. True) (\<lambda>k. remove_view (net k)) (knowledge ms k) (remove_view (net' k))"
  using assms(1)
proof (induction arbitrary: k rule: gossip_run.induct)
  case begin_run
  show ?case
    using assms(3) [of k] lww.least_start [of "\<lambda>k. add_view (net k)" k hist]
      lww.least_start [of "\<lambda>k. remove_view (net k)" k "\<lambda>_ _. True"]
    by (simp add: knowledge_def replica_views)
next
  case (session ms net1 i j time a b)
  have start: "\<And>k. (add_view (net k)) \<in> lww_states hist" "\<And>k. (remove_view (net k)) \<in> lww_states (\<lambda>_ _. True)"
    using assms(3) by (simp_all add: replica_views)
  note joined = session_joins [OF _ _ assms(2) session(3,4), of hist] session.IH
  have "lww.least_of hist (\<lambda>k. add_view (net k)) (knowledge ms i \<union> knowledge ms j) (map_join (add_view (net1 i)) (add_view (net1 j)))"
    using lww.least_join [of "\<lambda>k. add_view (net k)", OF start(1)] session.IH by blast
  moreover have "lww.least_of (\<lambda>_ _. True) (\<lambda>k. remove_view (net k)) (knowledge ms i \<union> knowledge ms j)
      (map_join (remove_view (net1 i)) (remove_view (net1 j)))"
    using lww.least_join [of "\<lambda>k. remove_view (net k)", OF start(2)] session.IH by blast
  ultimately show ?case using joined by (auto simp: knowledge_snoc meet_def)
qed


text \<open>Every entry comes from a node that was heard of.\<close>

lemma map_join_cases: "map_join f g key = f key \<or> map_join f g key = g key"
  by (auto simp: map_join_def reg_join_def split: option.splits)

lemma run_from_somewhere:
  assumes "gossip_run zero meshId net ms net'" and "meshId \<noteq> []" and "\<And>k. replica_of hist (net k)"
  shows "(\<exists>i \<in> knowledge ms k. add_view (net' k) key = add_view (net i) key)
    \<and> (\<exists>i \<in> knowledge ms k. remove_view (net' k) key = remove_view (net i) key)"
  using assms(1)
proof (induction arbitrary: k rule: gossip_run.induct)
  case (session ms net1 i j time a b)
  have "replica_of hist (net1 k)" for k using run_refines_knowledge [OF session(1) assms(2,3)] by blast
  then have joined: "add_view a = map_join (add_view (net1 i)) (add_view (net1 j))" "add_view b = add_view a"
    "remove_view a = map_join (remove_view (net1 i)) (remove_view (net1 j))" "remove_view b = remove_view a"
    using session_joins [OF _ _ assms(2) session(3,4), of hist] by auto
  have "\<exists>n \<in> knowledge ms i \<union> knowledge ms j. add_view a key = add_view (net n) key"
    "\<exists>n \<in> knowledge ms i \<union> knowledge ms j. remove_view a key = remove_view (net n) key"
    unfolding joined using map_join_cases session.IH by (metis UnI1 UnI2)+
  then show ?case using session.IH [of k] by (auto simp: knowledge_snoc meet_def joined(2,4))
qed (simp add: knowledge_def)



text \<open>Two nodes that have written one entry each.\<close>

definition demo_store :: "string \<Rightarrow> u64 \<Rightarrow> u64 \<Rightarrow> (string, nat) TwoPhaseMap" where
  "demo_store p key v = \<lparr>tp_addMap = [(key, \<lparr>Vector = v, Contents = 7, Gravestone = False\<rparr>)], tp_removeMap = [],
     tp_Clock = VC_Merge 5 [(key, v + 1)] (NewVectorClock p fnv64a 60), tp_processId = p\<rparr>"

definition demo_net :: "bool \<Rightarrow> (string, nat) TwoPhaseMap" where
  "demo_net k = (if k then demo_store ''a'' 1 3 else demo_store ''b'' 2 6)"


end
