(* ===== verification/Net.thy ===== *)
theory Net
  imports Lib
begin

text \<open>
  The part of Go's package \<open>net\<close> that the mesh code computes with: addresses as byte lists
  (\<open>nil\<close> is the empty list), networks, CIDR notation, and \<open>mesh.RouteEqual\<close> with the two
  implementations of a route that \<open>src/pkg/mesh/types.go\<close> and \<open>src/pkg/crdt/datastore.go\<close> give.
  A nil \<open>*net.IPNet\<close> is \<open>None\<close>.
\<close>

section \<open>Characters and numbers\<close>

abbreviation code_of :: "char \<Rightarrow> nat" where
  "code_of c \<equiv> of_char c"

definition is_dec :: "char \<Rightarrow> bool" where
  "is_dec c \<longleftrightarrow> 48 \<le> code_of c \<and> code_of c \<le> 57"

definition hex_val :: "char \<Rightarrow> nat option" where
  "hex_val c = (let n = code_of c in
     if 48 \<le> n \<and> n \<le> 57 then Some (n - 48)
     else if 97 \<le> n \<and> n \<le> 102 then Some (n - 87)
     else if 65 \<le> n \<and> n \<le> 70 then Some (n - 55)
     else None)"

definition digit_char :: "nat \<Rightarrow> char" where
  "digit_char d = char_of (if d < 10 then 48 + d else 87 + d)"

text \<open>A number in base \<open>2 \<le> b\<close>, without leading zeros.\<close>

function in_base :: "nat \<Rightarrow> nat \<Rightarrow> string" where
  "in_base b n = (if b < 2 \<or> n < b then [digit_char n] else in_base b (n div b) @ [digit_char (n mod b)])"
  by auto
termination
  by (relation "measure snd") auto

declare in_base.simps [simp del]

definition itoa :: "nat \<Rightarrow> string" where
  "itoa n = in_base 10 n"

definition dec_value :: "string \<Rightarrow> nat" where
  "dec_value s = fold (\<lambda>c n. 10 * n + (code_of c - 48)) s 0"

definition hex_value :: "string \<Rightarrow> nat" where
  "hex_value s = fold (\<lambda>c n. 16 * n + the (hex_val c)) s 0"

section \<open>Addresses\<close>

type_synonym ip = "u8 list"

record IPNet =
  net_IP :: ip
  net_Mask :: ip

definition v4InV6Prefix :: ip where
  "v4InV6Prefix = replicate 10 0 @ [255, 255]"

text \<open>\<open>IP.To4\<close>; \<open>[]\<close> is nil.\<close>

definition To4 :: "ip \<Rightarrow> ip" where
  "To4 a = (if length a = 4 then a
     else if length a = 16 \<and> take 12 a = v4InV6Prefix then drop 12 a else [])"

definition ip_equal :: "ip \<Rightarrow> ip \<Rightarrow> bool" where
  "ip_equal a b =
     (if length a = length b then a = b
      else if length a = 4 \<and> length b = 16 then take 12 b = v4InV6Prefix \<and> a = drop 12 b
      else if length a = 16 \<and> length b = 4 then take 12 a = v4InV6Prefix \<and> drop 12 a = b
      else False)"

section \<open>Printing\<close>

fun groups :: "u8 list \<Rightarrow> nat list" where
  "groups (h # l # rest) = (256 * unat h + unat l) # groups rest"
| "groups _ = []"

text \<open>The first longest run of at least two zero groups, as start and end.\<close>

definition zero_run :: "nat list \<Rightarrow> nat \<times> nat" where
  "zero_run gs = fold (\<lambda>i (start, stop).
     let l = length (takeWhile (\<lambda>g. g = 0) (drop i gs))
     in if 2 \<le> l \<and> stop - start < l then (i, i + l) else (start, stop)) [0..<length gs] (255, 255)"

function print_groups :: "nat \<Rightarrow> nat \<Rightarrow> nat \<Rightarrow> nat list \<Rightarrow> string" where
  "print_groups start stop i [] = []"
| "print_groups start stop i (g # gs) =
     (if i = start then ''::'' @
        (case drop (stop - i) (g # gs) of
           [] \<Rightarrow> []
         | g' # gs' \<Rightarrow> in_base 16 g' @ print_groups start stop (Suc stop) gs')
      else (if 0 < i then '':'' else []) @ in_base 16 g @ print_groups start stop (Suc i) gs)"
  by pat_completeness auto
termination
proof (relation "measure (\<lambda>(_, _, _, gs). length gs)")
  fix start stop i g gs g' gs'
  assume "drop (stop - i) (g # gs) = g' # gs'"
  then have "length (g' # gs') \<le> length (g # gs)" by (metis length_drop diff_le_self)
  then show "((start, stop, Suc stop, gs'), start, stop, i, g # gs) \<in> measure (\<lambda>(_, _, _, gs). length gs)"
    by simp
qed auto

fun join_dots :: "nat list \<Rightarrow> string" where
  "join_dots [] = []"
| "join_dots [n] = itoa n"
| "join_dots (n # ns) = itoa n @ ''.'' @ join_dots ns"

definition hex_string :: "u8 list \<Rightarrow> string" where
  "hex_string bs = concat (map (\<lambda>b. [digit_char (unat b div 16), digit_char (unat b mod 16)]) bs)"

definition ip_string :: "ip \<Rightarrow> string" where
  "ip_string a =
     (if a = [] then ''<nil>''
      else if length a \<noteq> 4 \<and> length a \<noteq> 16 then ''?'' @ hex_string a
      else if To4 a \<noteq> [] then join_dots (map unat (To4 a))
      else case zero_run (groups a) of (start, stop) \<Rightarrow> print_groups start stop 0 (groups a))"

definition CIDRMask :: "nat \<Rightarrow> nat \<Rightarrow> u8 list" where
  "CIDRMask ones bits = map (\<lambda>i. NOT (drop_bit (min 8 (ones - 8 * i)) 255)) [0..<bits div 8]"

text \<open>The number of leading ones, if the mask has no one after a zero.\<close>

definition mask_bits :: "u8 list \<Rightarrow> bool list" where
  "mask_bits m = concat (map (\<lambda>b. map (\<lambda>k. bit b (7 - k)) [0..<8]) m)"

definition simpleMaskLength :: "u8 list \<Rightarrow> nat option" where
  "simpleMaskLength m =
     (let bs = mask_bits m; n = length (takeWhile id bs)
      in if list_all Not (drop n bs) then Some n else None)"

definition networkNumberAndMask :: "IPNet \<Rightarrow> (ip \<times> u8 list) option" where
  "networkNumberAndMask n =
     (let v4 = To4 (net_IP n); a = (if v4 = [] then net_IP n else v4); m = net_Mask n in
      if v4 = [] \<and> length a \<noteq> 16 then None
      else if length m = 4 then (if length a \<noteq> 4 then None else Some (a, m))
      else if length m = 16 then Some (a, if length a = 4 then drop 12 m else m)
      else None)"

definition ipnet_string :: "IPNet option \<Rightarrow> string" where
  "ipnet_string n =
     (case Option.bind n networkNumberAndMask of
        None \<Rightarrow> ''<nil>''
      | Some (nn, m) \<Rightarrow>
          (case simpleMaskLength m of
             None \<Rightarrow> ip_string nn @ ''/'' @ hex_string m
           | Some l \<Rightarrow> ip_string nn @ ''/'' @ itoa l))"

definition ipnet_contains :: "IPNet \<Rightarrow> ip \<Rightarrow> bool" where
  "ipnet_contains n a =
     (let x = (if To4 a \<noteq> [] then To4 a else a) in
      case networkNumberAndMask n of
        None \<Rightarrow> x = []
      | Some (nn, m) \<Rightarrow> length x = length nn \<and>
          list_all (\<lambda>(p, q, r). and p r = and q r) (zip nn (zip x m)))"

section \<open>Parsing\<close>

text \<open>The octets of a dotted address: current value, digits of it read, octets read.\<close>

fun parseIPv4 :: "string \<Rightarrow> nat \<Rightarrow> nat \<Rightarrow> u8 list \<Rightarrow> u8 list option" where
  "parseIPv4 [] val digLen octets =
     (if digLen = 0 \<or> length octets < 3 then None else Some (octets @ [of_nat val]))"
| "parseIPv4 (c # s) val digLen octets =
     (if is_dec c then
        (if digLen = 1 \<and> val = 0 then None
         else let val' = val * 10 + (code_of c - 48)
              in if 255 < val' then None else parseIPv4 s val' (Suc digLen) octets)
      else if c = CHR ''.'' then
        (if digLen = 0 \<or> length octets = 3 then None else parseIPv4 s 0 0 (octets @ [of_nat val]))
      else None)"

text \<open>The groups of an IPv6 address: rest of the text, bytes read, position of the \<open>::\<close>.\<close>

function parseIPv6_loop :: "string \<Rightarrow> u8 list \<Rightarrow> nat option \<Rightarrow> (string \<times> u8 list \<times> nat option) option" where
  "parseIPv6_loop s bs ellipsis =
     (if 16 \<le> length bs then Some (s, bs, ellipsis)
      else let ds = takeWhile (\<lambda>c. hex_val c \<noteq> None) s; rest = drop (length ds) s;
               bs' = bs @ [of_nat (hex_value ds div 256), of_nat (hex_value ds mod 256)] in
        if ds = [] \<or> 4 < length ds then None
        else if rest \<noteq> [] \<and> hd rest = CHR ''.'' then
          (if ellipsis = None \<and> length bs \<noteq> 12 \<or> 16 < length bs + 4 then None
           else map_option (\<lambda>f. ([], bs @ f, ellipsis)) (parseIPv4 s 0 0 []))
        else if rest = [] then Some ([], bs', ellipsis)
        else if hd rest \<noteq> CHR '':'' \<or> tl rest = [] then None
        else if hd (tl rest) \<noteq> CHR '':'' then parseIPv6_loop (tl rest) bs' ellipsis
        else if ellipsis \<noteq> None then None
        else if tl (tl rest) = [] then Some ([], bs', Some (length bs'))
        else parseIPv6_loop (tl (tl rest)) bs' (Some (length bs')))"
  by auto
termination
  by (relation "measure (\<lambda>(s, _, _). length s)") auto

declare parseIPv6_loop.simps [simp del]

definition parseIPv6 :: "string \<Rightarrow> u8 list option" where
  "parseIPv6 s =
     (if CHR ''%'' \<in> set s then None
      else let leading = (take 2 s = ''::''); s' = (if leading then drop 2 s else s) in
        if leading \<and> s' = [] then Some (replicate 16 0)
        else case parseIPv6_loop s' [] (if leading then Some 0 else None) of
          None \<Rightarrow> None
        | Some (rest, bs, ellipsis) \<Rightarrow>
            if rest \<noteq> [] then None
            else if length bs < 16 then
              (case ellipsis of
                 None \<Rightarrow> None
               | Some e \<Rightarrow> Some (take e bs @ replicate (16 - length bs) 0 @ drop e bs))
            else if ellipsis \<noteq> None then None
            else Some bs)"

text \<open>\<open>netip.ParseAddr\<close> without zones: the first separator decides the kind.\<close>

definition ParseAddr :: "string \<Rightarrow> u8 list option" where
  "ParseAddr s =
     (case dropWhile (\<lambda>c. c \<notin> set ''.:%'') s of
        [] \<Rightarrow> None
      | c # _ \<Rightarrow> if c = CHR ''.'' then parseIPv4 s 0 0 []
               else if c = CHR '':'' then parseIPv6 s else None)"

definition ip_mask :: "ip \<Rightarrow> u8 list \<Rightarrow> ip" where
  "ip_mask a m =
     (let m' = (if length m = 16 \<and> length a = 4 \<and> take 12 m = replicate 12 255 then drop 12 m else m);
          a' = (if length m' = 4 \<and> length a = 16 \<and> take 12 a = v4InV6Prefix then drop 12 a else a)
      in if length a' \<noteq> length m' then [] else map2 (\<lambda>x y. and x y) a' m')"

definition ParseCIDR :: "string \<Rightarrow> (ip \<times> IPNet) option" where
  "ParseCIDR s =
     (case dropWhile (\<lambda>c. c \<noteq> CHR ''/'') s of
        [] \<Rightarrow> None
      | _ # msk \<Rightarrow>
          (case ParseAddr (takeWhile (\<lambda>c. c \<noteq> CHR ''/'') s) of
             None \<Rightarrow> None
           | Some a \<Rightarrow>
               if msk = [] \<or> \<not> list_all is_dec msk \<or> 8 * length a < dec_value msk then None
               else let m = CIDRMask (dec_value msk) (8 * length a);
                        a16 = (if length a = 4 then v4InV6Prefix @ a else a)
                    in Some (a16, \<lparr>net_IP = ip_mask a16 m, net_Mask = m\<rparr>)))"

text \<open>Whatever parses has four or sixteen bytes, and a mask of the length of its network.\<close>

lemma parseIPv4_length: "parseIPv4 s v d os = Some bs \<Longrightarrow> length os \<le> 3 \<Longrightarrow> length bs = 4"
  by (induction s v d os rule: parseIPv4.induct) (auto simp: Let_def split: if_splits)

lemma parseIPv6_loop_length:
  "parseIPv6_loop s bs e = Some (r, bs', e') \<Longrightarrow> length bs \<le> 16 \<Longrightarrow> even (length bs) \<Longrightarrow> length bs' \<le> 16"
proof (induction s bs e rule: parseIPv6_loop.induct)
  case (1 s bs e)
  note run = 1(3) [unfolded parseIPv6_loop.simps [of s bs e] Let_def]
  show ?case
  proof (cases "16 \<le> length bs")
    case True
    with run 1(4) show ?thesis by simp
  next
    case False
    with 1(5) have "length bs + 2 \<le> 16" by presburger
    then show ?thesis
      using run 1(1,2) [OF False refl refl refl] 1(5) False
      by (auto dest: parseIPv4_length split: if_splits)
  qed
qed

lemma parseIPv6_loop_start: "parseIPv6_loop s [] e = Some (r, bs, e') \<Longrightarrow> length bs \<le> 16"
  by (rule parseIPv6_loop_length) auto

lemma parseIPv6_length: "parseIPv6 s = Some a \<Longrightarrow> length a = 16"
  by (auto simp: parseIPv6_def Let_def min_def split: if_splits option.splits)
    (frule parseIPv6_loop_start, linarith)+

lemma ParseAddr_length: "ParseAddr s = Some a \<Longrightarrow> length a = 4 \<or> length a = 16"
  by (auto simp: ParseAddr_def dest: parseIPv4_length parseIPv6_length split: list.splits if_splits)

lemma ParseCIDR_length:
  assumes "ParseCIDR s = Some (a, n)"
  shows "length (net_IP n) = length (net_Mask n) \<and> (length (net_IP n) = 4 \<or> length (net_IP n) = 16)"
  using assms
  by (auto simp: ParseCIDR_def Let_def ip_mask_def CIDRMask_def v4InV6Prefix_def dest: ParseAddr_length
    split: list.splits if_splits option.splits)

section \<open>Splitting text\<close>

text \<open>\<open>strings.Split\<close> on one character and \<open>strings.Join\<close> with it.\<close>

fun split_at :: "char \<Rightarrow> string \<Rightarrow> string list" where
  "split_at sep [] = [[]]"
| "split_at sep (c # s) =
     (if c = sep then [] # split_at sep s
      else case split_at sep s of [] \<Rightarrow> [[c]] | w # ws \<Rightarrow> (c # w) # ws)"

fun join_with :: "char \<Rightarrow> string list \<Rightarrow> string" where
  "join_with sep [] = []"
| "join_with sep [w] = w"
| "join_with sep (w # ws) = w @ sep # join_with sep ws"

section \<open>Routes\<close>

text \<open>
  The two implementations of the interface \<open>mesh.Route\<close>: the stored one keeps its destination as
  text and parses it on every access, the other one holds a network.
\<close>

record Route =
  rt_Destination :: string
  rt_Path :: "string list"

record RouteStub =
  rs_Destination :: "IPNet option"
  rs_Path :: "string list"

datatype mesh_route = StoreRoute Route | StubRoute RouteStub

fun GetDestination :: "mesh_route \<Rightarrow> IPNet option" where
  "GetDestination (StoreRoute r) = map_option snd (ParseCIDR (rt_Destination r))"
| "GetDestination (StubRoute r) = rs_Destination r"

declare GetDestination.simps [simp del]

fun GetPath :: "mesh_route \<Rightarrow> string list" where
  "GetPath (StoreRoute r) = rt_Path r"
| "GetPath (StubRoute r) = rs_Path r"

definition GetHopCount :: "mesh_route \<Rightarrow> nat" where
  "GetHopCount r = length (GetPath r)"

definition RouteEqual :: "mesh_route \<Rightarrow> mesh_route \<Rightarrow> bool" where
  "RouteEqual r1 r2 \<longleftrightarrow> ipnet_string (GetDestination r1) = ipnet_string (GetDestination r2)
     \<and> GetHopCount r1 = GetHopCount r2 \<and> GetPath r1 = GetPath r2"

text \<open>The key under which a route is filed.\<close>

abbreviation route_key :: "mesh_route \<Rightarrow> string" where
  "route_key r \<equiv> ipnet_string (GetDestination r)"

end
