(* ===== verification/Conf.thy ===== *)
theory Conf
  imports Complex_Main Prelude
begin

text \<open>
  \<open>src/pkg/conf/conf.go\<close>: the configuration of the daemon and of a mesh. A pointer or a slice that
  may be nil is an option. The validator is a third-party package, so its verdict is the argument
  \<open>validate\<close> (\<open>None\<close>: valid); reading the file and parsing YAML are arguments as well.

  Go leaves open whether \<open>return result, ValidateMeshConfiguration(&result)\<close> reads \<open>result\<close> before or
  after the call that fills in missing slices. The argument \<open>readLate\<close> stands for that choice, and
  the lemmas hold for both values.
\<close>

definition PEER_ROLE :: string where "PEER_ROLE = ''peer''"
definition CLIENT_ROLE :: string where "CLIENT_ROLE = ''client''"
definition PUBLIC_IP_DISCOVERY :: string where "PUBLIC_IP_DISCOVERY = ''public''"
definition OUTGOING_IP_DISCOVERY :: string where "OUTGOING_IP_DISCOVERY = ''outgoing''"

lemma roles_differ [simp]: "PEER_ROLE \<noteq> CLIENT_ROLE" "CLIENT_ROLE \<noteq> PEER_ROLE"
  by (simp_all add: PEER_ROLE_def CLIENT_ROLE_def)

record WgConfiguration =
  cfg_IPDiscovery :: "string option"
  cfg_AdvertiseRoutes :: "bool option"
  cfg_AdvertiseDefaultRoute :: "bool option"
  cfg_Endpoint :: "string option"
  cfg_Role :: "string option"
  cfg_KeepAliveWg :: "int option"
  cfg_PreUp :: "string list option"
  cfg_PostUp :: "string list option"
  cfg_PreDown :: "string list option"
  cfg_PostDown :: "string list option"

record DaemonConfiguration =
  dc_CertificatePath :: string
  dc_PrivateKeyPath :: string
  dc_CaCertificatePath :: string
  dc_SkipCertVerification :: bool
  dc_GrpcPort :: int
  dc_Timeout :: int
  dc_StubWg :: bool
  dc_SyncInterval :: int
  dc_PullInterval :: int
  dc_Heartbeat :: int
  dc_ClusterSize :: int
  dc_InterClusterChance :: rat
  dc_Branch :: int
  dc_InfectionCount :: int
  dc_BaseConfiguration :: WgConfiguration
  dc_LogLevel :: string

definition zeroConfiguration :: WgConfiguration where
  "zeroConfiguration = \<lparr>cfg_IPDiscovery = None, cfg_AdvertiseRoutes = None,
     cfg_AdvertiseDefaultRoute = None, cfg_Endpoint = None, cfg_Role = None, cfg_KeepAliveWg = None,
     cfg_PreUp = None, cfg_PostUp = None, cfg_PreDown = None, cfg_PostDown = None\<rparr>"

definition non_nil :: "'a list option \<Rightarrow> 'a list option" where
  "non_nil x = (case x of None \<Rightarrow> Some [] | Some xs \<Rightarrow> Some xs)"

text \<open>The configuration with its slices filled in, and the error.\<close>

definition ValidateMeshConfiguration ::
  "(WgConfiguration \<Rightarrow> 'e option) \<Rightarrow> WgConfiguration \<Rightarrow> WgConfiguration \<times> 'e option" where
  "ValidateMeshConfiguration validate cfg =
     (let err = validate cfg;
          cfg = cfg\<lparr>cfg_PostDown := non_nil (cfg_PostDown cfg)\<rparr>;
          cfg = cfg\<lparr>cfg_PostUp := non_nil (cfg_PostUp cfg)\<rparr>;
          cfg = cfg\<lparr>cfg_PreDown := non_nil (cfg_PreDown cfg)\<rparr>;
          cfg = cfg\<lparr>cfg_PreUp := non_nil (cfg_PreUp cfg)\<rparr>
      in (cfg, err))"

definition ValidateDaemonConfiguration ::
  "(DaemonConfiguration \<Rightarrow> 'e option) \<Rightarrow> DaemonConfiguration \<Rightarrow> DaemonConfiguration \<times> 'e option" where
  "ValidateDaemonConfiguration validate cfg =
     (let base = dc_BaseConfiguration cfg;
          cfg = (if cfg_KeepAliveWg base = None
                 then cfg\<lparr>dc_BaseConfiguration := base\<lparr>cfg_KeepAliveWg := Some 0\<rparr>\<rparr> else cfg);
          cfg = (if dc_LogLevel cfg = [] then cfg\<lparr>dc_LogLevel := ''warning''\<rparr> else cfg)
      in (cfg, validate cfg))"

definition ParseDaemonConfiguration ::
  "(string \<Rightarrow> 'e + 'b) \<Rightarrow> ('b \<Rightarrow> 'e + DaemonConfiguration) \<Rightarrow> (DaemonConfiguration \<Rightarrow> 'e option)
    \<Rightarrow> string \<Rightarrow> DaemonConfiguration option \<times> 'e option" where
  "ParseDaemonConfiguration readFile unmarshal validate filePath =
     (case readFile filePath of
        Inl err \<Rightarrow> (None, Some err)
      | Inr yamlBytes \<Rightarrow>
          (case unmarshal yamlBytes of
             Inl err \<Rightarrow> (None, Some err)
           | Inr cfg \<Rightarrow> (case ValidateDaemonConfiguration validate cfg of (cfg', err) \<Rightarrow> (Some cfg', err))))"

text \<open>\<open>if cfg.F != nil { result.F = cfg.F }\<close>\<close>

definition override :: "'a option \<Rightarrow> 'a option \<Rightarrow> 'a option" where
  "override result cfg = (if cfg \<noteq> None then cfg else result)"

definition merge_step :: "WgConfiguration \<Rightarrow> WgConfiguration \<Rightarrow> WgConfiguration" where
  "merge_step cfg result =
     \<lparr>cfg_IPDiscovery = override (cfg_IPDiscovery result) (cfg_IPDiscovery cfg),
      cfg_AdvertiseRoutes = override (cfg_AdvertiseRoutes result) (cfg_AdvertiseRoutes cfg),
      cfg_AdvertiseDefaultRoute = override (cfg_AdvertiseDefaultRoute result) (cfg_AdvertiseDefaultRoute cfg),
      cfg_Endpoint = override (cfg_Endpoint result) (cfg_Endpoint cfg),
      cfg_Role = override (cfg_Role result) (cfg_Role cfg),
      cfg_KeepAliveWg = override (cfg_KeepAliveWg result) (cfg_KeepAliveWg cfg),
      cfg_PreUp = override (cfg_PreUp result) (cfg_PreUp cfg),
      cfg_PostUp = override (cfg_PostUp result) (cfg_PostUp cfg),
      cfg_PreDown = override (cfg_PreDown result) (cfg_PreDown cfg),
      cfg_PostDown = override (cfg_PostDown result) (cfg_PostDown cfg)\<rparr>"

definition MergeMeshConfiguration ::
  "bool \<Rightarrow> (WgConfiguration \<Rightarrow> 'e option) \<Rightarrow> WgConfiguration list \<Rightarrow> WgConfiguration \<times> 'e option" where
  "MergeMeshConfiguration readLate validate cfgs =
     (let result = fold merge_step cfgs zeroConfiguration in
      case ValidateMeshConfiguration validate result of
        (filled, err) \<Rightarrow> (if readLate then filled else result, err))"

section \<open>Precedence\<close>

text \<open>The value of the last configuration that sets a field.\<close>

definition last_set :: "'a option list \<Rightarrow> 'a option" where
  "last_set xs = (let ys = filter (\<lambda>x. x \<noteq> None) xs in if ys = [] then None else last ys)"

lemma last_set_simps [simp]: "last_set [] = None" "last_set (xs @ [x]) = override (last_set xs) x"
  by (auto simp: last_set_def override_def Let_def)

lemma merge_fields:
  "fold merge_step cfgs zeroConfiguration =
     \<lparr>cfg_IPDiscovery = last_set (map cfg_IPDiscovery cfgs),
      cfg_AdvertiseRoutes = last_set (map cfg_AdvertiseRoutes cfgs),
      cfg_AdvertiseDefaultRoute = last_set (map cfg_AdvertiseDefaultRoute cfgs),
      cfg_Endpoint = last_set (map cfg_Endpoint cfgs),
      cfg_Role = last_set (map cfg_Role cfgs),
      cfg_KeepAliveWg = last_set (map cfg_KeepAliveWg cfgs),
      cfg_PreUp = last_set (map cfg_PreUp cfgs),
      cfg_PostUp = last_set (map cfg_PostUp cfgs),
      cfg_PreDown = last_set (map cfg_PreDown cfgs),
      cfg_PostDown = last_set (map cfg_PostDown cfgs)\<rparr>"
  by (induction cfgs rule: rev_induct) (simp_all add: zeroConfiguration_def merge_step_def)

text \<open>Commands to run: a nil slice and an empty one are the same list.\<close>

definition commands :: "string list option \<Rightarrow> string list" where
  "commands x = (case x of None \<Rightarrow> [] | Some xs \<Rightarrow> xs)"

lemma commands_non_nil [simp]: "commands (non_nil x) = commands x"
  by (simp add: commands_def non_nil_def split: option.splits)

text \<open>Merging configurations gives every setting the value of the last configuration that sets
  it, whatever the validator says and whichever way the return statement is evaluated; the error is
  the validator's verdict on the merged configuration before missing command lists are filled in.\<close>

lemma merge_last_setting_wins:
  "let (result, err) = MergeMeshConfiguration readLate validate cfgs
   in cfg_IPDiscovery result = last_set (map cfg_IPDiscovery cfgs)
    \<and> cfg_AdvertiseRoutes result = last_set (map cfg_AdvertiseRoutes cfgs)
    \<and> cfg_AdvertiseDefaultRoute result = last_set (map cfg_AdvertiseDefaultRoute cfgs)
    \<and> cfg_Endpoint result = last_set (map cfg_Endpoint cfgs)
    \<and> cfg_Role result = last_set (map cfg_Role cfgs)
    \<and> cfg_KeepAliveWg result = last_set (map cfg_KeepAliveWg cfgs)
    \<and> commands (cfg_PreUp result) = commands (last_set (map cfg_PreUp cfgs))
    \<and> commands (cfg_PostUp result) = commands (last_set (map cfg_PostUp cfgs))
    \<and> commands (cfg_PreDown result) = commands (last_set (map cfg_PreDown cfgs))
    \<and> commands (cfg_PostDown result) = commands (last_set (map cfg_PostDown cfgs))
    \<and> err = validate (fold merge_step cfgs zeroConfiguration)"
  by (simp add: MergeMeshConfiguration_def ValidateMeshConfiguration_def Let_def merge_fields)

end
