(* ===== verification/Datastore.thy ===== *)
theory Datastore
  imports Two_Phase_Syncer Net Conf
begin

text \<open>
  \<open>src/pkg/crdt/datastore.go\<close> and \<open>src/pkg/crdt/factory.go\<close>: the nodes of a mesh in a two-phase map
  keyed by public key, with the operations of the interface \<open>mesh.MeshProvider\<close>, and the factories.

  Go's errors and panics are the values of \<open>ds_error\<close>. A nil map field is \<open>None\<close>; writing to it
  panics. \<open>now\<close> is the time in seconds. The saved bytes are the snapshot itself. The WireGuard
  client, which only \<open>GetDevice\<close> and the configuration of the interface use, is left out.
\<close>

section \<open>Data\<close>

record MeshNode =
  HostEndpoint :: string
  WgEndpoint :: string
  PublicKey :: string
  WgHost :: string
  Timestamp :: int
  Routes :: "(string, Route) gomap option"
  Alias :: string
  Description :: string
  Services :: "(string, string) gomap option"
  Type :: string
  Tombstone :: bool

definition zeroNode :: MeshNode where
  "zeroNode = \<lparr>HostEndpoint = [], WgEndpoint = [], PublicKey = [], WgHost = [], Timestamp = 0,
     Routes = None, Alias = [], Description = [], Services = None, Type = [], Tombstone = False\<rparr>"

record TwoPhaseStoreMeshManager =
  MeshId :: string
  IfName :: string
  LastClock :: u64
  MConf :: WgConfiguration
  DaemonConf :: DaemonConfiguration
  store :: "(string, MeshNode) TwoPhaseMap"

datatype ds_error =
    NodeDoesNotExist string
  | NoSuchService string
  | CannotGetRoute string
  | WrongNodeType
  | NilMapWrite
  | NilDereference
  | SliceBounds

type_synonym 'a result = "ds_error + 'a"

abbreviation ds_contains :: "string \<Rightarrow> TwoPhaseStoreMeshManager \<Rightarrow> bool" where
  "ds_contains nodeId m \<equiv> TP_Contains zeroNode nodeId (store m)"

abbreviation ds_get :: "string \<Rightarrow> TwoPhaseStoreMeshManager \<Rightarrow> MeshNode" where
  "ds_get nodeId m \<equiv> TP_Get zeroNode nodeId (store m)"

definition ds_put :: "u64 \<Rightarrow> string \<Rightarrow> MeshNode \<Rightarrow> TwoPhaseStoreMeshManager \<Rightarrow> TwoPhaseStoreMeshManager" where
  "ds_put now nodeId node m = m\<lparr>store := TP_Put now nodeId node (store m)\<rparr>"

section \<open>A node\<close>

definition node_routes :: "MeshNode \<Rightarrow> (string, Route) gomap" where
  "node_routes n = (case Routes n of None \<Rightarrow> [] | Some rs \<Rightarrow> rs)"

definition node_services :: "MeshNode \<Rightarrow> (string, string) gomap" where
  "node_services n = (case Services n of None \<Rightarrow> [] | Some s \<Rightarrow> s)"

definition GetWgHost :: "MeshNode \<Rightarrow> IPNet option" where
  "GetWgHost n = map_option snd (ParseCIDR (WgHost n))"

definition Node_GetRoutes :: "MeshNode \<Rightarrow> mesh_route list" where
  "Node_GetRoutes n = map (\<lambda>route. StoreRoute \<lparr>rt_Destination = rt_Destination route, rt_Path = rt_Path route\<rparr>)
     (MapValues (node_routes n))"

definition GetIdentifier :: "MeshNode \<Rightarrow> string result" where
  "GetIdentifier m =
     (if length (WgHost m) < 4 then Inl SliceBounds
      else let ipv6 = take (length (WgHost m) - 4) (WgHost m);
               constituents = split_at (CHR '':'') ipv6
           in if length constituents < 4 then Inl SliceBounds
              else Inr (join_with (CHR '':'') (drop 4 constituents)))"

definition GetNodes :: "(string, MeshNode) gomap \<Rightarrow> (string, MeshNode) gomap" where
  "GetNodes nodes = gm_build (\<lambda>value. value\<lparr>Tombstone := False\<rparr>) nodes"

section \<open>Operations of the mesh provider\<close>

definition DS_Mark :: "string \<Rightarrow> TwoPhaseStoreMeshManager \<Rightarrow> TwoPhaseStoreMeshManager" where
  "DS_Mark nodeId m = m\<lparr>store := TP_Mark zeroNode nodeId (store m)\<rparr>"

text \<open>\<open>None\<close> is a node of another implementation of the interface.\<close>

definition DS_AddNode :: "u64 \<Rightarrow> MeshNode option \<Rightarrow> TwoPhaseStoreMeshManager \<Rightarrow> TwoPhaseStoreMeshManager result" where
  "DS_AddNode now node m =
     (case node of
        None \<Rightarrow> Inl WrongNodeType
      | Some crdt \<Rightarrow>
          let crdt = crdt\<lparr>Routes := Some [], Services := Some [], Timestamp := sint now\<rparr>
          in Inr (ds_put now (PublicKey crdt) crdt m))"

definition DS_GetMesh :: "TwoPhaseStoreMeshManager \<Rightarrow> (string, MeshNode) gomap" where
  "DS_GetMesh m = fold (\<lambda>node snapshot. gm_put (PublicKey node) node snapshot) (TP_AsList zeroNode (store m)) []"

definition DS_Save :: "TwoPhaseStoreMeshManager \<Rightarrow> MeshNode TwoPhaseMapSnapshot" where
  "DS_Save m = TP_Snapshot (store m)"

text \<open>The decoded snapshot, or the decoder's error with what it had decoded.\<close>

definition DS_Load ::
  "u64 \<Rightarrow> MeshNode TwoPhaseMapSnapshot \<times> 'e option \<Rightarrow> TwoPhaseStoreMeshManager
    \<Rightarrow> TwoPhaseStoreMeshManager \<times> 'e option" where
  "DS_Load now decoded m =
     (case decoded of (snapshot, err) \<Rightarrow> (m\<lparr>store := TP_Merge now snapshot (store m)\<rparr>, err))"

definition DS_HasChanges :: "TwoPhaseStoreMeshManager \<Rightarrow> bool" where
  "DS_HasChanges m = (TP_GetHash (store m) \<noteq> LastClock m)"

definition DS_SaveChanges :: "TwoPhaseStoreMeshManager \<Rightarrow> TwoPhaseStoreMeshManager" where
  "DS_SaveChanges m = m\<lparr>LastClock := TP_GetHash (store m)\<rparr>"

definition DS_GetPeers :: "TwoPhaseStoreMeshManager \<Rightarrow> string list" where
  "DS_GetPeers m =
     (let nodes = Filter (TP_AsList zeroNode (store m)) (\<lambda>mn.
            if Type mn \<noteq> PEER_ROLE then False
            else if TP_IsMarked (PublicKey mn) (store m) then False
            else True)
      in Map nodes PublicKey)"

definition DS_UpdateTimeStamp :: "u64 \<Rightarrow> string \<Rightarrow> TwoPhaseStoreMeshManager \<Rightarrow> TwoPhaseStoreMeshManager result" where
  "DS_UpdateTimeStamp now nodeId m =
     (if \<not> ds_contains nodeId m then Inl (NodeDoesNotExist nodeId)
      else case sort (DS_GetPeers m) of
        [] \<Rightarrow> Inr m
      | leader # rest \<Rightarrow>
          (case Vector_Clock.GetTimestamp leader (tp_Clock (store m)) of
             None \<Rightarrow> Inl NilDereference
           | Some ts \<Rightarrow>
               let late = (now - ts > 3 * word_of_int (dc_Heartbeat (DaemonConf m)));
                   m1 = (if late then DS_Mark leader m else m)
               in if late \<and> rest = [] then Inr m1
                  else let peerToUpdate = (if late then hd rest else leader)
                       in if peerToUpdate \<noteq> nodeId then Inr m1
                          else let node = (ds_get nodeId m1)\<lparr>Timestamp := sint now\<rparr>
                               in Inr (ds_put now nodeId node m1)))"

fun addRoutes_loop ::
  "mesh_route list \<Rightarrow> (string, Route) gomap option \<Rightarrow> bool \<Rightarrow> ((string, Route) gomap option \<times> bool) result" where
  "addRoutes_loop [] routes changes = Inr (routes, changes)"
| "addRoutes_loop (route # rest) routes changes =
     (let key = route_key route in
      if (case Option.bind routes (\<lambda>rs. map_of rs key) of
            None \<Rightarrow> True
          | Some prevRoute \<Rightarrow> GetHopCount route < length (rt_Path prevRoute))
      then (case routes of
              None \<Rightarrow> Inl NilMapWrite
            | Some rs \<Rightarrow> addRoutes_loop rest
                (Some (gm_put key \<lparr>rt_Destination = key, rt_Path = GetPath route\<rparr> rs)) True)
      else addRoutes_loop rest routes changes)"

definition DS_AddRoutes ::
  "u64 \<Rightarrow> string \<Rightarrow> mesh_route list \<Rightarrow> TwoPhaseStoreMeshManager \<Rightarrow> TwoPhaseStoreMeshManager result" where
  "DS_AddRoutes now nodeId routes m =
     (if \<not> ds_contains nodeId m then Inl (NodeDoesNotExist nodeId)
      else if routes = [] then Inr m
      else let node = ds_get nodeId m in
        case addRoutes_loop routes (Routes node) False of
          Inl e \<Rightarrow> Inl e
        | Inr (rs, changes) \<Rightarrow>
            Inr (if changes then ds_put now nodeId (node\<lparr>Routes := rs\<rparr>) m else m))"

definition DS_RemoveRoutes ::
  "u64 \<Rightarrow> string \<Rightarrow> mesh_route list \<Rightarrow> TwoPhaseStoreMeshManager \<Rightarrow> TwoPhaseStoreMeshManager result" where
  "DS_RemoveRoutes now nodeId routes m =
     (if \<not> ds_contains nodeId m then Inl (NodeDoesNotExist nodeId)
      else if routes = [] then Inr m
      else let node = ds_get nodeId m;
               rs = map_option (fold (\<lambda>route. gm_del (route_key route)) routes) (Routes node)
           in Inr (ds_put now nodeId (node\<lparr>Routes := rs\<rparr>) m))"

definition DS_GetSyncer :: "TwoPhaseStoreMeshManager \<Rightarrow> (string, MeshNode) TwoPhaseSyncer" where
  "DS_GetSyncer m = NewTwoPhaseSyncer (store m)"

definition DS_GetNode :: "string \<Rightarrow> TwoPhaseStoreMeshManager \<Rightarrow> MeshNode result" where
  "DS_GetNode nodeId m =
     (if \<not> ds_contains nodeId m then Inl (NodeDoesNotExist nodeId) else Inr (ds_get nodeId m))"

definition DS_NodeExists :: "string \<Rightarrow> TwoPhaseStoreMeshManager \<Rightarrow> bool" where
  "DS_NodeExists nodeId m = ds_contains nodeId m"

definition DS_SetDescription ::
  "u64 \<Rightarrow> string \<Rightarrow> string \<Rightarrow> TwoPhaseStoreMeshManager \<Rightarrow> TwoPhaseStoreMeshManager result" where
  "DS_SetDescription now nodeId description m =
     (if \<not> ds_contains nodeId m then Inl (NodeDoesNotExist nodeId)
      else let node = (ds_get nodeId m)\<lparr>Description := description\<rparr>
           in Inr (ds_put now nodeId node m))"

definition DS_SetAlias ::
  "u64 \<Rightarrow> string \<Rightarrow> string \<Rightarrow> TwoPhaseStoreMeshManager \<Rightarrow> TwoPhaseStoreMeshManager result" where
  "DS_SetAlias now nodeId alias m =
     (if \<not> ds_contains nodeId m then Inl (NodeDoesNotExist nodeId)
      else let node = (ds_get nodeId m)\<lparr>Alias := alias\<rparr>
           in Inr (ds_put now nodeId node m))"

definition DS_AddService ::
  "u64 \<Rightarrow> string \<Rightarrow> string \<Rightarrow> string \<Rightarrow> TwoPhaseStoreMeshManager \<Rightarrow> TwoPhaseStoreMeshManager result" where
  "DS_AddService now nodeId key value m =
     (if \<not> ds_contains nodeId m then Inl (NodeDoesNotExist nodeId)
      else let node = ds_get nodeId m in
        case Services node of
          None \<Rightarrow> Inl NilMapWrite
        | Some services \<Rightarrow> Inr (ds_put now nodeId (node\<lparr>Services := Some (gm_put key value services)\<rparr>) m))"

definition DS_RemoveService ::
  "u64 \<Rightarrow> string \<Rightarrow> string \<Rightarrow> TwoPhaseStoreMeshManager \<Rightarrow> TwoPhaseStoreMeshManager result" where
  "DS_RemoveService now nodeId key m =
     (if \<not> ds_contains nodeId m then Inl (NodeDoesNotExist nodeId)
      else let node = ds_get nodeId m in
        if map_of (node_services node) key = None then Inl (NoSuchService key)
        else Inr (ds_put now nodeId (node\<lparr>Services := map_option (gm_del key) (Services node)\<rparr>) m))"

definition DS_Prune :: "TwoPhaseStoreMeshManager \<Rightarrow> TwoPhaseStoreMeshManager" where
  "DS_Prune m = m\<lparr>store := TP_Prune (store m)\<rparr>"

definition DS_getRoutes :: "string \<Rightarrow> TwoPhaseStoreMeshManager \<Rightarrow> (string, Route) gomap result" where
  "DS_getRoutes targetNode m =
     (if \<not> ds_contains targetNode m then Inl (CannotGetRoute targetNode)
      else Inr (node_routes (ds_get targetNode m)))"

text \<open>The inner loop of \<open>GetRoutes\<close>: take over what is new or shorter.\<close>

definition better_route :: "string \<Rightarrow> Route \<Rightarrow> (string, mesh_route) gomap \<Rightarrow> (string, mesh_route) gomap" where
  "better_route meshId route routes =
     (let key = route_key (StoreRoute route) in
      if (case map_of routes key of
            None \<Rightarrow> True
          | Some otherRoute \<Rightarrow> length (rt_Path route) + 1 < GetHopCount otherRoute)
      then gm_put key (StoreRoute \<lparr>rt_Destination = key, rt_Path = rt_Path route @ [meshId]\<rparr>) routes
      else routes)"

fun peer_routes ::
  "TwoPhaseStoreMeshManager \<Rightarrow> string list \<Rightarrow> (string, mesh_route) gomap \<Rightarrow> (string, mesh_route) gomap result" where
  "peer_routes m [] routes = Inr routes"
| "peer_routes m (node # nodes) routes =
     (case DS_getRoutes node m of
        Inl err \<Rightarrow> Inl err
      | Inr nodeRoutes \<Rightarrow>
          peer_routes m nodes (fold (\<lambda>(_, route). better_route (MeshId m) route) nodeRoutes routes))"

definition DS_GetRoutes :: "string \<Rightarrow> TwoPhaseStoreMeshManager \<Rightarrow> (string, mesh_route) gomap result" where
  "DS_GetRoutes targetNode m =
     (case DS_GetNode targetNode m of
        Inl err \<Rightarrow> Inl err
      | Inr node \<Rightarrow>
          peer_routes m (DS_GetPeers m)
            (fold (\<lambda>route. gm_put (route_key route) route) (Node_GetRoutes node) []))"

definition DS_RemoveNode :: "u64 \<Rightarrow> string \<Rightarrow> TwoPhaseStoreMeshManager \<Rightarrow> TwoPhaseStoreMeshManager result" where
  "DS_RemoveNode now nodeId m =
     (if \<not> ds_contains nodeId m then Inl (NodeDoesNotExist nodeId)
      else Inr (m\<lparr>store := TP_Remove now nodeId (store m)\<rparr>))"

section \<open>Factories\<close>

record MeshProviderFactoryParams =
  pp_DevName :: string
  pp_MeshId :: string
  pp_Conf :: WgConfiguration
  pp_DaemonConf :: DaemonConfiguration
  pp_NodeID :: string

definition Factory_CreateMesh ::
  "DaemonConfiguration \<Rightarrow> MeshProviderFactoryParams \<Rightarrow> TwoPhaseStoreMeshManager" where
  "Factory_CreateMesh config params =
     \<lparr>MeshId = pp_MeshId params, IfName = pp_DevName params, LastClock = 0, MConf = pp_Conf params,
      DaemonConf = pp_DaemonConf params,
      store = NewTwoPhaseMap (pp_NodeID params) fnv64a (word_of_int (3 * dc_Heartbeat config))\<rparr>"

record MeshNodeFactoryParams =
  np_PublicKey :: string
  np_NodeIP :: ip
  np_WgPort :: int
  np_Endpoint :: string
  np_MeshConfig :: WgConfiguration

definition int_string :: "int \<Rightarrow> string" where
  "int_string i = (if i < 0 then ''-'' @ itoa (nat (- i)) else itoa (nat i))"

text \<open>The two address look-ups go to the network; their answers (\<open>None\<close>: an error) are arguments.\<close>

definition getAddress :: "ip option \<Rightarrow> ip option \<Rightarrow> MeshNodeFactoryParams \<Rightarrow> string result" where
  "getAddress publicIP outboundIP params =
     (let discovered =
        (case cfg_IPDiscovery (np_MeshConfig params) of
           None \<Rightarrow> Inl NilDereference
         | Some discovery \<Rightarrow>
             let found = (if discovery = OUTGOING_IP_DISCOVERY then outboundIP else publicIP)
             in Inr (case found of None \<Rightarrow> [] | Some a \<Rightarrow> ip_string a))
      in if np_Endpoint params \<noteq> [] then Inr (np_Endpoint params)
         else case cfg_Endpoint (np_MeshConfig params) of
           None \<Rightarrow> discovered
         | Some e \<Rightarrow> if length e \<noteq> 0 then Inr e else discovered)"

definition Factory_Build ::
  "DaemonConfiguration \<Rightarrow> ip option \<Rightarrow> ip option \<Rightarrow> MeshNodeFactoryParams \<Rightarrow> MeshNode result" where
  "Factory_Build config publicIP outboundIP params =
     (case getAddress publicIP outboundIP params of
        Inl e \<Rightarrow> Inl e
      | Inr hostName \<Rightarrow>
          (case cfg_Role (np_MeshConfig params) of
             None \<Rightarrow> Inl NilDereference
           | Some role \<Rightarrow>
               let client = (role = CLIENT_ROLE) in
               Inr (zeroNode\<lparr>
                 HostEndpoint := (if client then ''-'' else hostName @ '':'' @ int_string (dc_GrpcPort config)),
                 PublicKey := np_PublicKey params,
                 WgEndpoint := (if client then ''-'' else hostName @ '':'' @ int_string (np_WgPort params)),
                 WgHost := ip_string (np_NodeIP params) @ ''/128'',
                 Routes := Some [],
                 Type := role\<rparr>)))"

section \<open>Updates of one node\<close>

abbreviation ds_ready :: "nat \<Rightarrow> TwoPhaseStoreMeshManager \<Rightarrow> bool" where
  "ds_ready n m \<equiv> tp_ready n (store m)"

abbreviation same_hash :: "TwoPhaseStoreMeshManager \<Rightarrow> string \<Rightarrow> string \<Rightarrow> bool" where
  "same_hash m j k \<equiv> tp_hash (store m) j = tp_hash (store m) k"

text \<open>The result is the store with the node \<open>nodeId\<close> mapped through \<open>f\<close> and nothing else changed.\<close>

definition updates_node ::
  "string \<Rightarrow> (MeshNode \<Rightarrow> MeshNode) \<Rightarrow> TwoPhaseStoreMeshManager \<Rightarrow> TwoPhaseStoreMeshManager result \<Rightarrow> bool" where
  "updates_node nodeId f m r \<longleftrightarrow> (\<exists>m'. r = Inr m' \<and> m' = m\<lparr>store := store m'\<rparr>
     \<and> ds_contains nodeId m' \<and> ds_get nodeId m' = f (ds_get nodeId m)
     \<and> (\<forall>j. \<not> same_hash m j nodeId \<longrightarrow> ds_contains j m' = ds_contains j m \<and> ds_get j m' = ds_get j m))"

lemma ds_put_get:
  assumes "ds_ready (Suc n) m"
  shows "ds_contains j (ds_put now nodeId node m) \<longleftrightarrow> same_hash m j nodeId \<or> ds_contains j m"
    and "ds_get j (ds_put now nodeId node m) = (if same_hash m j nodeId then node else ds_get j m)"
  using assms by (simp_all add: ds_put_def ks.put_contains ks.put_get)

lemma updates_node_put:
  "ds_ready (Suc n) m \<Longrightarrow> ds_contains nodeId m
    \<Longrightarrow> updates_node nodeId f m (Inr (ds_put now nodeId (f (ds_get nodeId m)) m))"
  unfolding updates_node_def
  by (rule exI [of _ "ds_put now nodeId (f (ds_get nodeId m)) m"])
    (simp add: ds_put_get, simp add: ds_put_def)

text \<open>Each setter changes its own field of the named node and nothing else in the mesh; for a
  node that is not in the mesh it returns an error, and removing an unknown service is an error.\<close>

lemma setters_change_one_field:
  assumes "ds_ready 1 m"
  shows "(ds_contains nodeId m \<longrightarrow>
      updates_node nodeId (Description_update (\<lambda>_. v)) m (DS_SetDescription now nodeId v m)
      \<and> updates_node nodeId (Alias_update (\<lambda>_. v)) m (DS_SetAlias now nodeId v m)
      \<and> (\<forall>services. Services (ds_get nodeId m) = Some services \<longrightarrow>
          updates_node nodeId (Services_update (\<lambda>_. Some (gm_put k v services))) m (DS_AddService now nodeId k v m)
          \<and> (case map_of services k of
               Some _ \<Rightarrow> updates_node nodeId (Services_update (\<lambda>_. Some (gm_del k services))) m (DS_RemoveService now nodeId k m)
             | None \<Rightarrow> DS_RemoveService now nodeId k m = Inl (NoSuchService k))))
    \<and> (\<not> ds_contains nodeId m \<longrightarrow>
      DS_SetDescription now nodeId v m = Inl (NodeDoesNotExist nodeId)
      \<and> DS_SetAlias now nodeId v m = Inl (NodeDoesNotExist nodeId)
      \<and> DS_AddService now nodeId k v m = Inl (NodeDoesNotExist nodeId)
      \<and> DS_RemoveService now nodeId k m = Inl (NodeDoesNotExist nodeId))"
proof -
  have r: "ds_ready (Suc 0) m" using assms by simp
  note put = updates_node_put [OF r, of nodeId _ now]
  show ?thesis
    using put [of "Description_update (\<lambda>_. v)"] put [of "Alias_update (\<lambda>_. v)"]
      put [of "Services_update (\<lambda>_. Some (gm_put k v s))" for s]
      put [of "Services_update (\<lambda>_. Some (gm_del k s))" for s]
    by (simp add: DS_SetDescription_def DS_SetAlias_def DS_AddService_def DS_RemoveService_def
      node_services_def Let_def split: option.splits)
qed

text \<open>A mesh with one node, for the examples.\<close>

definition demo_daemon :: DaemonConfiguration where
  "demo_daemon = \<lparr>dc_CertificatePath = ''cert'', dc_PrivateKeyPath = ''key'', dc_CaCertificatePath = ''ca'',
     dc_SkipCertVerification = False, dc_GrpcPort = 4000, dc_Timeout = 5, dc_StubWg = True,
     dc_SyncInterval = 2, dc_PullInterval = 0, dc_Heartbeat = 20, dc_ClusterSize = 16,
     dc_InterClusterChance = 1 / 10, dc_Branch = 3, dc_InfectionCount = 3,
     dc_BaseConfiguration = zeroConfiguration\<lparr>cfg_Role := Some PEER_ROLE\<rparr>, dc_LogLevel = ''info''\<rparr>"

definition demo_empty :: "TwoPhaseStoreMeshManager" where
  "demo_empty = Factory_CreateMesh demo_daemon \<lparr>pp_DevName = ''wg0'', pp_MeshId = ''mesh'',
     pp_Conf = zeroConfiguration, pp_DaemonConf = demo_daemon, pp_NodeID = ''k1''\<rparr>"

definition demo_node :: MeshNode where
  "demo_node = zeroNode\<lparr>PublicKey := ''k1'', WgHost := ''fd00::1/128'', Type := PEER_ROLE,
     Routes := Some [], Services := Some []\<rparr>"

definition demo_mesh :: TwoPhaseStoreMeshManager where
  "demo_mesh = ds_put 5 ''k1'' demo_node demo_empty"

lemma demo_empty_ready: "ds_ready n demo_empty \<longleftrightarrow> 2 * n < 2 ^ 64"
  by (simp add: demo_empty_def Factory_CreateMesh_def New_ready)

lemma demo_empty_contains: "\<not> ds_contains j demo_empty"
  by (simp add: demo_empty_def Factory_CreateMesh_def TP_Contains_def TP_contains_iff
    NewTwoPhaseMap_def NewGMap_def)

lemma demo_mesh_simps [simp]:
  "ds_ready 2 demo_mesh" "ds_ready (Suc 0) demo_mesh"
  "ds_contains ''k1'' demo_mesh" "ds_get ''k1'' demo_mesh = demo_node"
proof -
  have r: "ds_ready (Suc n) demo_empty" if "n < 100" for n using that by (simp add: demo_empty_ready)
  show "ds_ready 2 demo_mesh" "ds_ready (Suc 0) demo_mesh"
    using ks.put_ready [OF r, of 2] ks.put_ready [OF r, of 1] by (simp_all add: demo_mesh_def ds_put_def)
  show "ds_contains ''k1'' demo_mesh" "ds_get ''k1'' demo_mesh = demo_node"
    using ds_put_get [OF r, of 1] by (simp_all add: demo_mesh_def)
qed


text \<open>A node that joins is found under its public key with the data it announced, no routes, no
  services and a fresh time stamp; nodes with another key hash are unchanged.\<close>

lemma add_node_then_get_node:
  assumes "ds_ready 1 m"
  shows "\<exists>m'. DS_AddNode now (Some node) m = Inr m'
    \<and> DS_GetNode (PublicKey node) m' =
        Inr (node\<lparr>Routes := Some [], Services := Some [], Timestamp := sint now\<rparr>)
    \<and> (\<forall>j. \<not> same_hash m j (PublicKey node) \<longrightarrow> DS_GetNode j m' = DS_GetNode j m)"
proof -
  have r: "ds_ready (Suc 0) m" using assms by simp
  show ?thesis
    by (simp add: DS_AddNode_def Let_def DS_GetNode_def ds_put_get [OF r])
qed


section \<open>Routes of a node\<close>

abbreviation hops :: "Route \<Rightarrow> nat" where
  "hops r \<equiv> length (rt_Path r)"

text \<open>A route that the node does not have yet, or has with more hops.\<close>

definition improves :: "mesh_route \<Rightarrow> (string, Route) gomap \<Rightarrow> bool" where
  "improves route rs \<longleftrightarrow> (case map_of rs (route_key route) of
     None \<Rightarrow> True | Some prev \<Rightarrow> GetHopCount route < hops prev)"

text \<open>\<open>rs'\<close> holds a shortest one of the old and the offered routes, for every destination.\<close>

definition shortest_of ::
  "(string, Route) gomap \<Rightarrow> mesh_route list \<Rightarrow> (string, Route) gomap \<Rightarrow> bool" where
  "shortest_of rs routes rs' \<longleftrightarrow> (\<forall>key. case map_of rs' key of
       None \<Rightarrow> map_of rs key = None \<and> key \<notin> route_key ` set routes
     | Some r' \<Rightarrow>
         (\<forall>r. map_of rs key = Some r \<longrightarrow> hops r' \<le> hops r)
         \<and> (\<forall>route \<in> set routes. route_key route = key \<longrightarrow> hops r' \<le> GetHopCount route)
         \<and> (map_of rs key = Some r'
            \<or> (\<exists>route \<in> set routes. route_key route = key \<and> r' = \<lparr>rt_Destination = key, rt_Path = GetPath route\<rparr>)))"

lemma shortest_of_Nil [simp]: "shortest_of rs [] rs"
  by (simp add: shortest_of_def split: option.splits)

lemma shortest_of_skip:
  assumes "\<not> improves route rs" and "shortest_of rs routes rs'"
  shows "shortest_of rs (route # routes) rs'"
  unfolding shortest_of_def
proof (rule allI)
  fix key
  show "case map_of rs' key of
       None \<Rightarrow> map_of rs key = None \<and> key \<notin> route_key ` set (route # routes)
     | Some r' \<Rightarrow>
         (\<forall>r. map_of rs key = Some r \<longrightarrow> hops r' \<le> hops r)
         \<and> (\<forall>route \<in> set (route # routes). route_key route = key \<longrightarrow> hops r' \<le> GetHopCount route)
         \<and> (map_of rs key = Some r'
            \<or> (\<exists>route \<in> set (route # routes). route_key route = key \<and> r' = \<lparr>rt_Destination = key, rt_Path = GetPath route\<rparr>))"
    using assms(2) [unfolded shortest_of_def, rule_format, of key] assms(1)
    by (auto simp: improves_def split: option.splits intro: order_trans)
qed

lemma shortest_of_take:
  assumes "improves route rs" and "key = route_key route"
    and "shortest_of (gm_put key \<lparr>rt_Destination = key, rt_Path = GetPath route\<rparr> rs) routes rs'"
  shows "shortest_of rs (route # routes) rs'"
  unfolding shortest_of_def
proof (rule allI)
  fix k
  show "case map_of rs' k of
       None \<Rightarrow> map_of rs k = None \<and> k \<notin> route_key ` set (route # routes)
     | Some r' \<Rightarrow>
         (\<forall>r. map_of rs k = Some r \<longrightarrow> hops r' \<le> hops r)
         \<and> (\<forall>route \<in> set (route # routes). route_key route = k \<longrightarrow> hops r' \<le> GetHopCount route)
         \<and> (map_of rs k = Some r'
            \<or> (\<exists>route \<in> set (route # routes). route_key route = k \<and> r' = \<lparr>rt_Destination = k, rt_Path = GetPath route\<rparr>))"
    using assms(3) [unfolded shortest_of_def, rule_format, of k] assms(1,2)
    by (auto simp: improves_def GetHopCount_def split: option.splits if_splits)
qed

lemma addRoutes_loop_spec:
  "\<exists>rs'. addRoutes_loop routes (Some rs) changes = Inr (Some rs', changes \<or> (\<exists>route \<in> set routes. improves route rs))
    \<and> shortest_of rs routes rs'
    \<and> ((\<exists>route \<in> set routes. improves route rs) \<or> rs' = rs)"
proof (induction routes arbitrary: rs changes)
  case (Cons route routes)
  let ?rs1 = "gm_put (route_key route) \<lparr>rt_Destination = route_key route, rt_Path = GetPath route\<rparr> rs"
  show ?case
  proof (cases "improves route rs")
    case True
    then obtain rs' where "addRoutes_loop routes (Some ?rs1) True = Inr (Some rs', True)"
      "shortest_of ?rs1 routes rs'" using Cons.IH [of ?rs1 True] by auto
    with True shortest_of_take [OF True refl] show ?thesis
      by (auto simp: Let_def improves_def split: option.splits)
  next
    case False
    with Cons.IH [of rs changes] shortest_of_skip [OF False] show ?thesis
      by (auto simp: Let_def improves_def split: option.splits)
  qed
qed simp

text \<open>C23: adding routes to a node keeps, for every destination, a shortest one of the routes it had
  and the routes offered. When no offered route is new or shorter the store is not touched at all,
  so nothing is advertised; otherwise only that node changes.\<close>

theorem add_routes_keeps_shortest:
  assumes "ds_ready 1 m" and "ds_contains nodeId m" and "Routes (ds_get nodeId m) = Some rs"
  shows "\<exists>rs'. shortest_of rs routes rs' \<and>
    (if \<exists>route \<in> set routes. improves route rs
     then updates_node nodeId (Routes_update (\<lambda>_. Some rs')) m (DS_AddRoutes now nodeId routes m)
     else DS_AddRoutes now nodeId routes m = Inr m)"
proof -
  have r: "ds_ready (Suc 0) m" using assms(1) by simp
  obtain rs' where rs': "addRoutes_loop routes (Some rs) False
      = Inr (Some rs', \<exists>route \<in> set routes. improves route rs)" "shortest_of rs routes rs'"
    using addRoutes_loop_spec [of routes rs False] by auto
  moreover have "updates_node nodeId (Routes_update (\<lambda>_. Some rs')) m
      (Inr (ds_put now nodeId ((ds_get nodeId m)\<lparr>Routes := Some rs'\<rparr>) m))"
    using updates_node_put [OF r assms(2), of "Routes_update (\<lambda>_. Some rs')" now] by simp
  ultimately show ?thesis
    using assms(2,3) by (intro exI [of _ rs']) (auto simp: DS_AddRoutes_def Let_def)
qed

theorem add_routes_keeps_shortest_witness:
  "let route = StoreRoute \<lparr>rt_Destination = ''::/0'', rt_Path = [''m'']\<rparr> in
   \<exists>rs'. shortest_of [] [route] rs' \<and>
     updates_node ''k1'' (Routes_update (\<lambda>_. Some rs')) demo_mesh (DS_AddRoutes 9 ''k1'' [route] demo_mesh)"
  using add_routes_keeps_shortest [of demo_mesh "''k1''" "[]" "[StoreRoute \<lparr>rt_Destination = ''::/0'', rt_Path = [''m'']\<rparr>]" 9]
  by (simp add: demo_node_def improves_def Let_def)

lemma DS_AddRoutes_result:
  assumes "ds_ready (Suc n) m" and "ds_contains nodeId m" and "Routes (ds_get nodeId m) = Some rs"
  shows "\<exists>m' rs'. DS_AddRoutes now nodeId routes m = Inr m' \<and> ds_contains nodeId m'
    \<and> Routes (ds_get nodeId m') = Some rs' \<and> shortest_of rs routes rs'"
proof -
  obtain rs' where rs': "addRoutes_loop routes (Some rs) False
      = Inr (Some rs', \<exists>route \<in> set routes. improves route rs)" "shortest_of rs routes rs'"
    "(\<exists>route \<in> set routes. improves route rs) \<or> rs' = rs"
    using addRoutes_loop_spec [of routes rs False] by auto
  show ?thesis
  proof (cases "\<exists>route \<in> set routes. improves route rs")
    case True
    then have "routes \<noteq> []" by auto
    with True rs' show ?thesis
      using assms ds_put_get [OF assms(1)] by (simp add: DS_AddRoutes_def)
  next
    case False
    with rs' assms show ?thesis by (auto simp: DS_AddRoutes_def)
  qed
qed

lemma map_of_remove_routes:
  "map_of (fold (\<lambda>route. gm_del (route_key route)) routes rs) key =
    (if key \<in> route_key ` set routes then None else map_of rs key)"
  by (induction routes arbitrary: rs) auto

lemma DS_RemoveRoutes_result:
  assumes "ds_ready (Suc n) m" and "ds_ready n m" and "ds_contains nodeId m" and "Routes (ds_get nodeId m) = Some rs"
  shows "\<exists>m' rs'. DS_RemoveRoutes now nodeId routes m = Inr m' \<and> ds_ready n m' \<and> ds_contains nodeId m'
    \<and> Routes (ds_get nodeId m') = Some rs'
    \<and> (\<forall>key. map_of rs' key = (if key \<in> route_key ` set routes then None else map_of rs key))"
proof (cases "routes = []")
  case False
  then show ?thesis
    using assms ds_put_get [OF assms(1)] ks.put_ready [OF assms(1)]
    by (simp add: DS_RemoveRoutes_def map_of_remove_routes) (simp add: ds_put_def)
qed (use assms in \<open>simp add: DS_RemoveRoutes_def\<close>)

text \<open>Removing routes from a node removes exactly the destinations named, whatever their paths,
  and leaves the other nodes alone.\<close>

lemma remove_routes_removes_destinations:
  assumes "ds_ready 1 m" and "ds_contains nodeId m" and "Routes (ds_get nodeId m) = Some rs"
  shows "\<exists>rs'. (\<forall>key. map_of rs' key = (if key \<in> route_key ` set routes then None else map_of rs key)) \<and>
    (if routes = [] then DS_RemoveRoutes now nodeId routes m = Inr m
     else updates_node nodeId (Routes_update (\<lambda>_. Some rs')) m (DS_RemoveRoutes now nodeId routes m))"
proof -
  have r: "ds_ready (Suc 0) m" using assms(1) by simp
  let ?rs' = "fold (\<lambda>route. gm_del (route_key route)) routes rs"
  show ?thesis
    using updates_node_put [OF r assms(2), of "Routes_update (\<lambda>_. Some ?rs')" now] assms(2,3)
    by (intro exI [of _ ?rs']) (auto simp: DS_RemoveRoutes_def Let_def map_of_remove_routes)
qed

section \<open>Peers and the leader\<close>

lemma set_TP_AsList: "set (TP_AsList zero m) = (\<lambda>key. TP_get zero key m) ` {key. TP_contains zero key m}"
  by (simp add: TP_AsList_eq set_TP_keys)

lemma set_DS_GetPeers:
  "p \<in> set (DS_GetPeers m) \<longleftrightarrow> (\<exists>n \<in> set (TP_AsList zeroNode (store m)).
     Type n = PEER_ROLE \<and> \<not> TP_IsMarked (PublicKey n) (store m) \<and> p = PublicKey n)"
  by (auto simp: DS_GetPeers_def Let_def)

text \<open>The nodes of a store are filed under the hash of their public key, as \<open>AddNode\<close> files them.\<close>

definition keyed_nodes :: "TwoPhaseStoreMeshManager \<Rightarrow> bool" where
  "keyed_nodes m \<longleftrightarrow> (\<forall>key b. map_of (tp_addMap (store m)) key = Some b
     \<longrightarrow> tp_hash (store m) (PublicKey (Contents b)) = key)"

lemma keyed_nodes_get:
  assumes "keyed_nodes m" and "TP_contains zeroNode key (store m)"
  shows "tp_hash (store m) (PublicKey (TP_get zeroNode key (store m))) = key"
  using assms by (auto simp: keyed_nodes_def TP_get_eq TP_contains_iff)

lemma keyed_nodes_put:
  "ds_ready (Suc n) m \<Longrightarrow> keyed_nodes m \<Longrightarrow> PublicKey node = nodeId \<Longrightarrow> keyed_nodes (ds_put now nodeId node m)"
  by (simp add: keyed_nodes_def ds_put_def ready_Put_fields)

lemma peer_contained:
  assumes "keyed_nodes m" and "p \<in> set (DS_GetPeers m)"
  shows "ds_contains p m \<and> Type (ds_get p m) = PEER_ROLE \<and> PublicKey (ds_get p m) = p"
proof -
  obtain key where "TP_contains zeroNode key (store m)" "p = PublicKey (TP_get zeroNode key (store m))"
    "Type (TP_get zeroNode key (store m)) = PEER_ROLE"
    using assms(2) by (auto simp: set_DS_GetPeers set_TP_AsList)
  moreover from this have "tp_hash (store m) p = key" using keyed_nodes_get [OF assms(1)] by blast
  ultimately show ?thesis by (simp add: TP_Contains_def TP_Get_eq)
qed

text \<open>The own time stamp is too old for the leader to be considered alive.\<close>

definition leader_late :: "u64 \<Rightarrow> TwoPhaseStoreMeshManager \<Rightarrow> bool" where
  "leader_late now m \<longleftrightarrow> (case Vector_Clock.GetTimestamp [] (tp_Clock (store m)) of
     None \<Rightarrow> False | Some ts \<Rightarrow> now - ts > 3 * word_of_int (dc_Heartbeat (DaemonConf m)))"

definition heartbeat_node :: "u64 \<Rightarrow> TwoPhaseStoreMeshManager \<Rightarrow> string option" where
  "heartbeat_node now m = (case sort (DS_GetPeers m) of
     [] \<Rightarrow> None
   | leader # rest \<Rightarrow> if leader_late now m then (case rest of [] \<Rightarrow> None | p # _ \<Rightarrow> Some p) else Some leader)"

lemma Mark_same_views: "same_views (TP_Mark zero key m) m"
  by (simp add: same_views_def)

lemma DS_Mark_simps [simp]:
  "ds_contains j (DS_Mark p m) = ds_contains j m" "ds_get j (DS_Mark p m) = ds_get j m"
  "same_hash (DS_Mark p m) j k = same_hash m j k"
  "ds_ready n (DS_Mark p m) = ds_ready n m"
  "DaemonConf (DS_Mark p m) = DaemonConf m"
proof -
  have v: "same_views (store (DS_Mark p m)) (store m)" by (simp add: DS_Mark_def Mark_same_views)
  have h: "tp_Clock (store (DS_Mark p m)) = tp_Clock (store m)" by (simp add: DS_Mark_def)
  show "ds_contains j (DS_Mark p m) = ds_contains j m" "ds_get j (DS_Mark p m) = ds_get j m"
    using same_views_contains [OF v] same_views_get [OF v] by (simp_all add: TP_Contains_def TP_Get_eq h)
  show "same_hash (DS_Mark p m) j k = same_hash m j k" by (simp add: h)
  show "DaemonConf (DS_Mark p m) = DaemonConf m" by (simp add: DS_Mark_def)
  have "gm_wf (tp_addMap (store (DS_Mark p m))) = gm_wf (tp_addMap (store m))"
    by (simp add: DS_Mark_def TP_Mark_def GM_Mark_def gm_wf_def GM_Contains_def GM_contains_iff
        update_keys map_of_eq_None_iff Let_def)
  then show "ds_ready n (DS_Mark p m) = ds_ready n m"
    by (simp add: tp_ready_def tp_inv_def tp_wf_def tp_bound_def tp_room_def h) (simp add: DS_Mark_def)
qed

lemma UpdateTimeStamp_cases:
  assumes "ds_contains nodeId m" and "Vector_Clock.GetTimestamp [] (tp_Clock (store m)) \<noteq> None"
  shows "\<exists>m1. (m1 = m \<or> (\<exists>p. m1 = DS_Mark p m)) \<and> DS_UpdateTimeStamp now nodeId m =
    Inr (if heartbeat_node now m = Some nodeId
         then ds_put now nodeId ((ds_get nodeId m1)\<lparr>Timestamp := sint now\<rparr>) m1 else m1)"
proof -
  have ts: "Vector_Clock.GetTimestamp p clk = Vector_Clock.GetTimestamp [] clk" for p and clk :: "string VectorClock"
    by (simp add: GetTimestamp_def)
  obtain t where t: "Vector_Clock.GetTimestamp [] (tp_Clock (store m)) = Some t" using assms(2) by blast
  show ?thesis
  proof (cases "sort (DS_GetPeers m)")
    case (Cons leader rest)
    then show ?thesis
      using assms(1) ts [of leader "tp_Clock (store m)"] t
      by (cases rest) (auto simp: DS_UpdateTimeStamp_def heartbeat_node_def leader_late_def Let_def)
  qed (use assms(1) in \<open>auto simp: DS_UpdateTimeStamp_def heartbeat_node_def\<close>)
qed

lemma heartbeat_node_least:
  assumes "\<not> leader_late now m" and "heartbeat_node now m = Some p" and "q \<in> set (DS_GetPeers m)"
  shows "p \<le> q"
proof -
  obtain rest where rest: "sort (DS_GetPeers m) = p # rest"
    using assms(1,2) by (auto simp: heartbeat_node_def split: list.splits if_splits)
  moreover have "q \<in> set (sort (DS_GetPeers m))" using assms(3) by simp
  ultimately show ?thesis using sorted_sort [of "DS_GetPeers m"] by auto
qed


lemma demo_mesh_timestamp: "Vector_Clock.GetTimestamp [] (tp_Clock (store demo_mesh)) \<noteq> None"
  by (simp add: demo_mesh_def demo_empty_def Factory_CreateMesh_def ds_put_def TP_Put_def
    NewTwoPhaseMap_def NewVectorClock_def NewGMap_def GM_Put_def IncrementClock_def VC_Put_def VC_put_def
    GetTimestamp_def Let_def)


section \<open>All routes a node can use\<close>

abbreviation hops_at :: "(string, mesh_route) gomap \<Rightarrow> string \<Rightarrow> nat" where
  "hops_at routes key \<equiv> GetHopCount (the (map_of routes key))"

text \<open>What one step of the loops keeps: routes only get shorter, and each has a source.\<close>

definition shorter :: "(string, mesh_route) gomap \<Rightarrow> (string, mesh_route) gomap \<Rightarrow> bool" where
  "shorter routes routes' \<longleftrightarrow> (\<forall>key \<in> dom (map_of routes).
     key \<in> dom (map_of routes') \<and> hops_at routes' key \<le> hops_at routes key)"

lemma shorter_refl [simp]: "shorter r r"
  by (auto simp: shorter_def)

lemma shorter_trans: "shorter a b \<Longrightarrow> shorter b c \<Longrightarrow> shorter a c"
  unfolding shorter_def by (meson order_trans)

lemma better_route_shorter: "shorter routes (better_route meshId route routes)"
  by (auto simp: shorter_def better_route_def Let_def GetHopCount_def split: option.splits)

lemma better_route_has:
  "route_key (StoreRoute route) \<in> dom (map_of (better_route meshId route routes))
   \<and> hops_at (better_route meshId route routes) (route_key (StoreRoute route)) \<le> hops route + 1"
  by (auto simp: better_route_def Let_def GetHopCount_def split: option.splits)

lemma better_route_source:
  "map_of (better_route meshId route routes) key = Some r
    \<Longrightarrow> map_of routes key = Some r \<or>
      key = route_key (StoreRoute route) \<and> GetPath r = rt_Path route @ [meshId]"
  by (auto simp: better_route_def Let_def split: option.splits if_splits)

abbreviation take_routes where
  "take_routes meshId nodeRoutes \<equiv> fold (\<lambda>(_, route). better_route meshId route) nodeRoutes"

lemma take_routes_shorter: "shorter routes (take_routes meshId nodeRoutes routes)"
  by (induction nodeRoutes arbitrary: routes) (auto intro: shorter_trans better_route_shorter)

lemma take_routes_has:
  assumes "(k, route) \<in> set nodeRoutes"
  shows "route_key (StoreRoute route) \<in> dom (map_of (take_routes meshId nodeRoutes routes))
    \<and> hops_at (take_routes meshId nodeRoutes routes) (route_key (StoreRoute route)) \<le> hops route + 1"
  using assms
proof (induction nodeRoutes arbitrary: routes)
  case (Cons x xs)
  show ?case
  proof (cases "(k, route) \<in> set xs")
    case False
    with Cons.prems have x: "x = (k, route)" by simp
    show ?thesis
      using better_route_has [of route meshId routes]
        take_routes_shorter [of "better_route meshId route routes" meshId xs, unfolded shorter_def]
      by (auto simp: x intro: order_trans)
  qed (use Cons.IH in \<open>simp add: case_prod_unfold\<close>)
qed simp

lemma take_routes_source:
  "map_of (take_routes meshId nodeRoutes routes) key = Some r
    \<Longrightarrow> map_of routes key = Some r \<or>
      (\<exists>(k, route) \<in> set nodeRoutes. key = route_key (StoreRoute route) \<and> GetPath r = rt_Path route @ [meshId])"
proof (induction nodeRoutes arbitrary: routes)
  case (Cons x xs)
  obtain k route where x: "x = (k, route)" by force
  show ?case
    using Cons.IH [of "better_route meshId route routes"] Cons.prems
      better_route_source [of meshId route routes key r]
    by (auto simp: x)
qed simp

abbreviation routes_of :: "string \<Rightarrow> TwoPhaseStoreMeshManager \<Rightarrow> (string, Route) gomap" where
  "routes_of p m \<equiv> node_routes (ds_get p m)"

lemma peer_routes_spec:
  assumes "\<forall>p \<in> set ps. ds_contains p m"
  shows "\<exists>routes'. peer_routes m ps routes = Inr routes' \<and> shorter routes routes'
    \<and> (\<forall>p \<in> set ps. \<forall>(k, route) \<in> set (routes_of p m).
        route_key (StoreRoute route) \<in> dom (map_of routes')
        \<and> hops_at routes' (route_key (StoreRoute route)) \<le> hops route + 1)
    \<and> (\<forall>key r. map_of routes' key = Some r \<longrightarrow> map_of routes key = Some r \<or>
        (\<exists>p \<in> set ps. \<exists>(k, route) \<in> set (routes_of p m).
          key = route_key (StoreRoute route) \<and> GetPath r = rt_Path route @ [MeshId m]))"
  using assms
proof (induction ps arbitrary: routes)
  case (Cons p ps)
  let ?r1 = "take_routes (MeshId m) (routes_of p m) routes"
  obtain r2 where r2: "peer_routes m ps ?r1 = Inr r2" and sh: "shorter ?r1 r2"
    and has: "\<forall>q \<in> set ps. \<forall>(k, route) \<in> set (routes_of q m).
        route_key (StoreRoute route) \<in> dom (map_of r2)
        \<and> hops_at r2 (route_key (StoreRoute route)) \<le> hops route + 1"
    and src: "\<forall>key r. map_of r2 key = Some r \<longrightarrow> map_of ?r1 key = Some r \<or>
        (\<exists>q \<in> set ps. \<exists>(k, route) \<in> set (routes_of q m).
          key = route_key (StoreRoute route) \<and> GetPath r = rt_Path route @ [MeshId m])"
    using Cons.IH [of ?r1] Cons.prems by auto
  have run: "peer_routes m (p # ps) routes = Inr r2" using Cons.prems r2 by (simp add: DS_getRoutes_def)
  have own: "route_key (StoreRoute route) \<in> dom (map_of r2)
      \<and> hops_at r2 (route_key (StoreRoute route)) \<le> hops route + 1" if "(k, route) \<in> set (routes_of p m)" for k route
    using take_routes_has [OF that, of "MeshId m" routes] sh unfolding shorter_def
    by (meson order_trans)
  have "map_of routes key = Some r \<or> (\<exists>q \<in> set (p # ps). \<exists>(k, route) \<in> set (routes_of q m).
      key = route_key (StoreRoute route) \<and> GetPath r = rt_Path route @ [MeshId m])"
    if "map_of r2 key = Some r" for key r
    using src that take_routes_source [of "MeshId m" "routes_of p m" routes key r] by fastforce
  then show ?case
    using run own has shorter_trans [OF take_routes_shorter sh]
    by (intro exI [of _ r2] conjI) (simp, blast, fastforce, blast)
qed simp

abbreviation file_routes :: "mesh_route list \<Rightarrow> (string, mesh_route) gomap \<Rightarrow> (string, mesh_route) gomap" where
  "file_routes \<equiv> fold (\<lambda>route. gm_put (route_key route) route)"

lemma dom_file_routes: "dom (map_of (file_routes rs acc)) = route_key ` set rs \<union> dom (map_of acc)"
  by (induction rs arbitrary: acc) (auto split: if_splits)

lemma file_routes_source:
  "map_of (file_routes rs acc) key = Some r
    \<Longrightarrow> r \<in> set rs \<and> route_key r = key \<or> map_of acc key = Some r"
proof (induction rs arbitrary: acc)
  case (Cons a rs)
  then show ?case using Cons.IH [of "gm_put (route_key a) a acc"] by (auto split: if_splits)
qed simp

text \<open>C15: the routes a node can use, \<open>GetRoutes\<close>. Every destination the node or one of the reachable
  peers advertises has a route; the route has at most one hop more than any peer's and, where the
  node's own routes have different destinations, no more hops than the node's own. Each route is the
  node's own or a peer's extended by this mesh, so the hop counts are the minimum and not just a
  bound. The result does not depend on the order in which nodes and routes are visited.\<close>

theorem get_routes_are_shortest:
  assumes "keyed_nodes m" and "ds_contains target m"
  shows "\<exists>routes. DS_GetRoutes target m = Inr routes
    \<and> (\<forall>p \<in> set (DS_GetPeers m). \<forall>(k, route) \<in> set (routes_of p m).
        hops_at routes (route_key (StoreRoute route)) \<le> hops route + 1)
    \<and> (\<forall>route \<in> set (Node_GetRoutes (ds_get target m)).
        (\<forall>other \<in> set (Node_GetRoutes (ds_get target m)). route_key other = route_key route \<longrightarrow> other = route)
        \<longrightarrow> hops_at routes (route_key route) \<le> GetHopCount route)
    \<and> dom (map_of routes) = route_key ` set (Node_GetRoutes (ds_get target m))
        \<union> (\<Union>p \<in> set (DS_GetPeers m). (\<lambda>(k, route). route_key (StoreRoute route)) ` set (routes_of p m))
    \<and> (\<forall>key r. map_of routes key = Some r \<longrightarrow>
        r \<in> set (Node_GetRoutes (ds_get target m)) \<and> route_key r = key
        \<or> (\<exists>p \<in> set (DS_GetPeers m). \<exists>(k, route) \<in> set (routes_of p m).
            key = route_key (StoreRoute route) \<and> GetPath r = rt_Path route @ [MeshId m]))"
proof -
  let ?own = "file_routes (Node_GetRoutes (ds_get target m)) []"
  have dom: "dom (map_of ?own) = route_key ` set (Node_GetRoutes (ds_get target m))"
    by (simp add: dom_file_routes)
  have own: "r \<in> set (Node_GetRoutes (ds_get target m)) \<and> route_key r = key" if "map_of ?own key = Some r" for key r
    using file_routes_source [OF that] by simp
  have "\<forall>p \<in> set (DS_GetPeers m). ds_contains p m" using peer_contained [OF assms(1)] by blast
  from peer_routes_spec [OF this, of ?own] obtain routes where
    run: "peer_routes m (DS_GetPeers m) ?own = Inr routes" and sh: "shorter ?own routes"
    and has: "\<forall>p \<in> set (DS_GetPeers m). \<forall>(k, route) \<in> set (routes_of p m).
        route_key (StoreRoute route) \<in> dom (map_of routes)
        \<and> hops_at routes (route_key (StoreRoute route)) \<le> hops route + 1"
    and src: "\<forall>key r. map_of routes key = Some r \<longrightarrow> map_of ?own key = Some r \<or>
        (\<exists>p \<in> set (DS_GetPeers m). \<exists>(k, route) \<in> set (routes_of p m).
          key = route_key (StoreRoute route) \<and> GetPath r = rt_Path route @ [MeshId m])" by blast
  have source: "r \<in> set (Node_GetRoutes (ds_get target m)) \<and> route_key r = key
        \<or> (\<exists>p \<in> set (DS_GetPeers m). \<exists>(k, route) \<in> set (routes_of p m).
            key = route_key (StoreRoute route) \<and> GetPath r = rt_Path route @ [MeshId m])"
    if "map_of routes key = Some r" for key r
    using src [rule_format, OF that] own [of key r] by argo
  have "hops_at routes (route_key route) \<le> GetHopCount route"
    if r: "route \<in> set (Node_GetRoutes (ds_get target m))"
      "\<forall>other \<in> set (Node_GetRoutes (ds_get target m)). route_key other = route_key route \<longrightarrow> other = route" for route
  proof -
    obtain other where other: "map_of ?own (route_key route) = Some other"
      using dom r(1) by (metis (no_types, lifting) domD imageI)
    then have "other = route" using own [OF other] r(2) by blast
    with other show ?thesis using sh unfolding shorter_def by force
  qed
  moreover have "dom (map_of routes) = route_key ` set (Node_GetRoutes (ds_get target m))
      \<union> (\<Union>p \<in> set (DS_GetPeers m). (\<lambda>(k, route). route_key (StoreRoute route)) ` set (routes_of p m))"
    (is "_ = ?A \<union> ?B")
  proof
    show "dom (map_of routes) \<subseteq> ?A \<union> ?B"
    proof
      fix key assume "key \<in> dom (map_of routes)"
      then obtain r where "map_of routes key = Some r" by blast
      from source [OF this] show "key \<in> ?A \<union> ?B" by force
    qed
    show "?A \<union> ?B \<subseteq> dom (map_of routes)" using sh has dom unfolding shorter_def by auto
  qed
  moreover have "DS_GetRoutes target m = Inr routes"
    using run assms(2) by (simp add: DS_GetRoutes_def DS_GetNode_def)
  moreover have "\<forall>p \<in> set (DS_GetPeers m). \<forall>(k, route) \<in> set (routes_of p m).
      hops_at routes (route_key (StoreRoute route)) \<le> hops route + 1" using has by fast
  ultimately show ?thesis using source by (intro exI [of _ routes] conjI ballI allI impI) simp_all
qed

theorem get_routes_are_shortest_witness:
  "let r = \<lparr>rt_Destination = ''::/0'', rt_Path = [''m'']\<rparr>;
       m = ds_put 5 ''k1'' (demo_node\<lparr>Routes := Some [(''::/0'', r)]\<rparr>) demo_empty
   in \<exists>routes. DS_GetRoutes ''k1'' m = Inr routes \<and> hops_at routes (route_key (StoreRoute r)) \<le> 1"
proof -
  let ?r = "\<lparr>rt_Destination = ''::/0'', rt_Path = [''m'']\<rparr>"
  let ?n = "demo_node\<lparr>Routes := Some [(''::/0'', ?r)]\<rparr>"
  let ?m = "ds_put 5 ''k1'' ?n demo_empty"
  have r: "ds_ready (Suc 0) demo_empty" by (simp add: demo_empty_ready)
  have "keyed_nodes demo_empty"
    by (simp add: keyed_nodes_def demo_empty_def Factory_CreateMesh_def NewTwoPhaseMap_def NewGMap_def)
  then have "keyed_nodes ?m" using r by (intro keyed_nodes_put) (simp_all add: demo_node_def)
  moreover have "ds_contains ''k1'' ?m" "ds_get ''k1'' ?m = ?n" by (simp_all add: ds_put_get [OF r])
  moreover from this have "Node_GetRoutes (ds_get ''k1'' ?m) = [StoreRoute ?r]"
    by (simp add: Node_GetRoutes_def node_routes_def)
  ultimately show ?thesis
    using get_routes_are_shortest [of ?m "''k1''"] unfolding Let_def by (auto simp: GetHopCount_def)
qed

end
