(* ===== verification/Automerge_Store.thy ===== *)
theory Automerge_Store
  imports Datastore
begin

text \<open>
  \<open>src/pkg/automerge\<close>: the older mesh provider, which keeps the nodes of a mesh in a document of the library
  automerge. The library is the parameter \<open>L\<close>, a record of the calls the package makes; a value inside
  the document is addressed by its path, so that a write through a value that was read before is a
  write at its path. \<open>automerge_law\<close> states what the package relies on: the document is a tree of maps,
  and reading, writing and deleting act at one path.

  The provider is then shown to refine a plain map from node identifiers to nodes, whatever sequence
  of operations is run.
\<close>

section \<open>Values of a document\<close>

datatype am_value =
    KindVoid
  | KindStr string
  | KindInt64 int
  | KindList "am_value list"
  | KindMap "string \<Rightarrow> am_value option"
  | KindOther

definition is_map :: "am_value \<Rightarrow> bool" where
  "is_map v = (case v of KindMap _ \<Rightarrow> True | _ \<Rightarrow> False)"

definition is_str :: "am_value \<Rightarrow> bool" where
  "is_str v = (case v of KindStr _ \<Rightarrow> True | _ \<Rightarrow> False)"

definition is_int64 :: "am_value \<Rightarrow> bool" where
  "is_int64 v = (case v of KindInt64 _ \<Rightarrow> True | _ \<Rightarrow> False)"

section \<open>types.go\<close>

record MeshNodeCrdt =
  an_HostEndpoint :: string
  an_WgEndpoint :: string
  an_PublicKey :: string
  an_WgHost :: string
  an_Timestamp :: int
  an_Routes :: "(string, Route) gomap"
  an_Alias :: string
  an_Description :: string
  an_Services :: "(string, string) gomap"
  an_Type :: string

record MeshCrdt =
  mc_Nodes :: "(string, MeshNodeCrdt) gomap"

text \<open>The values the tags of the structs describe.\<close>

definition encode_route :: "Route \<Rightarrow> am_value" where
  "encode_route r = KindMap [''destination'' \<mapsto> KindStr (rt_Destination r), ''path'' \<mapsto> KindList (map KindStr (rt_Path r))]"

definition encode_routes :: "(string, Route) gomap \<Rightarrow> am_value" where
  "encode_routes rs = KindMap (\<lambda>k. map_option encode_route (map_of rs k))"

definition encode_services :: "(string, string) gomap \<Rightarrow> am_value" where
  "encode_services s = KindMap (\<lambda>k. map_option KindStr (map_of s k))"

definition encode_node :: "MeshNodeCrdt \<Rightarrow> am_value" where
  "encode_node n = KindMap [
     ''hostEndpoint'' \<mapsto> KindStr (an_HostEndpoint n), ''wgEndpoint'' \<mapsto> KindStr (an_WgEndpoint n),
     ''publicKey'' \<mapsto> KindStr (an_PublicKey n), ''wgHost'' \<mapsto> KindStr (an_WgHost n),
     ''timestamp'' \<mapsto> KindInt64 (an_Timestamp n), ''routes'' \<mapsto> encode_routes (an_Routes n),
     ''alias'' \<mapsto> KindStr (an_Alias n), ''description'' \<mapsto> KindStr (an_Description n),
     ''services'' \<mapsto> encode_services (an_Services n), ''type'' \<mapsto> KindStr (an_Type n)]"

section \<open>The library\<close>

text \<open>The calls the package makes, over documents \<open>'d\<close>, hashes of changes \<open>'h\<close> and states \<open>'s\<close> of a synchronisation.
  A read returns the value and the error; a list of changes is represented by their hashes.\<close>

record ('d, 'h, 's) automerge =
  am_New :: 'd
  am_Get :: "'d \<Rightarrow> string list \<Rightarrow> string \<Rightarrow> am_value \<times> string option"
  am_Set :: "'d \<Rightarrow> string list \<Rightarrow> string \<Rightarrow> am_value \<Rightarrow> 'd \<times> string option"
  am_Delete :: "'d \<Rightarrow> string list \<Rightarrow> string \<Rightarrow> 'd \<times> string option"
  am_Keys :: "'d \<Rightarrow> string list \<Rightarrow> string list"
  am_Len :: "'d \<Rightarrow> string list \<Rightarrow> nat"
  am_Root :: "'d \<Rightarrow> am_value"
  am_Save :: "'d \<Rightarrow> string"
  am_Load :: "string \<Rightarrow> string + 'd"
  am_Changes :: "'d \<Rightarrow> 'h \<Rightarrow> string + 'h list"
  am_Heads :: "'d \<Rightarrow> 'h list"
  am_ZeroHash :: 'h
  am_AsNode :: "am_value \<Rightarrow> string + MeshNodeCrdt"
  am_AsRoutes :: "am_value \<Rightarrow> string + (string, Route) gomap"
  am_AsMesh :: "am_value \<Rightarrow> string + MeshCrdt"
  am_NewSyncState :: "'d \<Rightarrow> 's"
  am_GenerateMessage :: "'d \<Rightarrow> 's \<Rightarrow> 's \<times> string \<times> bool"
  am_ReceiveMessage :: "string \<Rightarrow> 'd \<Rightarrow> 's \<Rightarrow> 'd \<times> 's \<times> string option"

section \<open>automerge.go\<close>

record ('d, 'h) CrdtMeshManager =
  cm_MeshId :: string
  cm_IfName :: string
  cm_doc :: 'd
  cm_LastHash :: 'h
  cm_conf :: WgConfiguration
  cm_cache :: "MeshCrdt option"
  cm_lastCacheHash :: 'h

text \<open>\<open>AmPanic\<close> covers the explicit panic, a value of another kind that is used as a map, and an index out of
  range.\<close>

datatype am_error =
    LibError string
  | NotAMap
  | DoesNotExist string
  | NoServices
  | ServiceDoesNotExist string
  | AmPanic

abbreviation node_path :: "string \<Rightarrow> string list" where
  "node_path nodeId \<equiv> [''nodes'', nodeId]"

text \<open>\<open>None\<close> is a node of another implementation. An error of the library is only logged.\<close>

definition AM_AddNode ::
  "('d, 'h, 's) automerge \<Rightarrow> int \<Rightarrow> MeshNodeCrdt option \<Rightarrow> ('d, 'h) CrdtMeshManager
    \<Rightarrow> ('d, 'h) CrdtMeshManager \<times> am_error option" where
  "AM_AddNode L now node m =
     (case node of
        None \<Rightarrow> (m, Some AmPanic)
      | Some crdt \<Rightarrow>
          let crdt = crdt\<lparr>an_Routes := [], an_Services := [], an_Timestamp := now\<rparr>
          in (m\<lparr>cm_doc := fst (am_Set L (cm_doc m) [''nodes''] (an_PublicKey crdt) (encode_node crdt))\<rparr>, None))"

definition AM_isPeer :: "('d, 'h, 's) automerge \<Rightarrow> string \<Rightarrow> ('d, 'h) CrdtMeshManager \<Rightarrow> bool" where
  "AM_isPeer L nodeId m =
     (case am_Get L (cm_doc m) [''nodes''] nodeId of (node, err) \<Rightarrow>
        if err \<noteq> None \<or> \<not> is_map node then False
        else case am_Get L (cm_doc m) (node_path nodeId) ''type'' of (nodeType, err) \<Rightarrow>
          if err \<noteq> None \<or> \<not> is_str nodeType then False
          else nodeType = KindStr PEER_ROLE)"

definition AM_isAlive :: "('d, 'h, 's) automerge \<Rightarrow> string \<Rightarrow> ('d, 'h) CrdtMeshManager \<Rightarrow> bool" where
  "AM_isAlive L nodeId m =
     (case am_Get L (cm_doc m) [''nodes''] nodeId of (node, err) \<Rightarrow>
        if err \<noteq> None \<or> \<not> is_map node then False
        else case am_Get L (cm_doc m) (node_path nodeId) ''timestamp'' of (timestamp, err) \<Rightarrow>
          if err \<noteq> None \<or> \<not> is_int64 timestamp then False else True)"

definition AM_GetPeers :: "('d, 'h, 's) automerge \<Rightarrow> ('d, 'h) CrdtMeshManager \<Rightarrow> string list" where
  "AM_GetPeers L m =
     Filter (am_Keys L (cm_doc m) [''nodes'']) (\<lambda>publicKey. AM_isPeer L publicKey m \<and> AM_isAlive L publicKey m)"

text \<open>The snapshot is decoded again when the library reports changes since the hash of the cache.\<close>

definition AM_GetMesh ::
  "('d, 'h, 's) automerge \<Rightarrow> ('d, 'h) CrdtMeshManager \<Rightarrow> ('d, 'h) CrdtMeshManager \<times> (am_error + MeshCrdt)" where
  "AM_GetMesh L m =
     (case am_Changes L (cm_doc m) (cm_lastCacheHash m) of
        Inl err \<Rightarrow> (m, Inl (LibError err))
      | Inr changes \<Rightarrow>
          if cm_cache m = None \<or> length changes > 0 then
            let m = m\<lparr>cm_lastCacheHash := cm_LastHash m\<rparr> in
            case am_AsMesh L (am_Root L (cm_doc m)) of
              Inl err \<Rightarrow> (m, Inl (LibError err))
            | Inr cache \<Rightarrow> (m\<lparr>cm_cache := Some cache\<rparr>, Inr cache)
          else (m, Inr (the (cm_cache m))))"

definition AM_Save :: "('d, 'h, 's) automerge \<Rightarrow> ('d, 'h) CrdtMeshManager \<Rightarrow> string" where
  "AM_Save L m = am_Save L (cm_doc m)"

definition AM_Load ::
  "('d, 'h, 's) automerge \<Rightarrow> string \<Rightarrow> ('d, 'h) CrdtMeshManager \<Rightarrow> ('d, 'h) CrdtMeshManager \<times> am_error option" where
  "AM_Load L bytes m =
     (case am_Load L bytes of
        Inl err \<Rightarrow> (m, Some (LibError err))
      | Inr doc \<Rightarrow> (m\<lparr>cm_doc := doc\<rparr>, None))"

definition NewCrdtNodeManager ::
  "('d, 'h, 's) automerge \<Rightarrow> string \<Rightarrow> string \<Rightarrow> WgConfiguration \<Rightarrow> ('d, 'h) CrdtMeshManager" where
  "NewCrdtNodeManager L meshId devName config =
     \<lparr>cm_MeshId = meshId, cm_IfName = devName, cm_doc = am_New L, cm_LastHash = am_ZeroHash L,
      cm_conf = config, cm_cache = None, cm_lastCacheHash = am_ZeroHash L\<rparr>"

definition AM_NodeExists :: "('d, 'h, 's) automerge \<Rightarrow> string \<Rightarrow> ('d, 'h) CrdtMeshManager \<Rightarrow> bool" where
  "AM_NodeExists L key m =
     (case am_Get L (cm_doc m) [''nodes''] key of (node, err) \<Rightarrow> is_map node \<and> err = None)"

definition AM_GetNode ::
  "('d, 'h, 's) automerge \<Rightarrow> string \<Rightarrow> ('d, 'h) CrdtMeshManager \<Rightarrow> am_error + MeshNodeCrdt" where
  "AM_GetNode L endpoint m =
     (case am_Get L (cm_doc m) [''nodes''] endpoint of (node, err) \<Rightarrow>
        if \<not> is_map node then Inl NotAMap
        else case err of
          Some e \<Rightarrow> Inl (LibError e)
        | None \<Rightarrow> (case am_AsNode L node of Inl e \<Rightarrow> Inl (LibError e) | Inr meshNode \<Rightarrow> Inr meshNode))"

definition AM_Length :: "('d, 'h, 's) automerge \<Rightarrow> ('d, 'h) CrdtMeshManager \<Rightarrow> nat" where
  "AM_Length L m = am_Len L (cm_doc m) [''nodes'']"

definition AM_HasChanges :: "('d, 'h, 's) automerge \<Rightarrow> ('d, 'h) CrdtMeshManager \<Rightarrow> bool" where
  "AM_HasChanges L m =
     (case am_Changes L (cm_doc m) (cm_LastHash m) of Inl err \<Rightarrow> False | Inr changes \<Rightarrow> length changes > 0)"

text \<open>A document without changes has no heads, and indexing them panics.\<close>

definition AM_SaveChanges ::
  "('d, 'h, 's) automerge \<Rightarrow> ('d, 'h) CrdtMeshManager \<Rightarrow> ('d, 'h) CrdtMeshManager \<times> am_error option" where
  "AM_SaveChanges L m =
     (let hashes = am_Heads L (cm_doc m) in
      if hashes = [] then (m, Some AmPanic)
      else (m\<lparr>cm_LastHash := hashes ! (length hashes - 1)\<rparr>, None))"

text \<open>The write at the end of the operations on one node.\<close>

definition am_write ::
  "'d \<times> string option \<Rightarrow> ('d, 'h) CrdtMeshManager \<Rightarrow> ('d, 'h) CrdtMeshManager \<times> am_error option" where
  "am_write r m = (case r of (doc, err) \<Rightarrow> (m\<lparr>cm_doc := doc\<rparr>, map_option LibError err))"

definition AM_UpdateTimeStamp ::
  "('d, 'h, 's) automerge \<Rightarrow> int \<Rightarrow> string \<Rightarrow> ('d, 'h) CrdtMeshManager \<Rightarrow> ('d, 'h) CrdtMeshManager \<times> am_error option" where
  "AM_UpdateTimeStamp L now nodeId m =
     (case am_Get L (cm_doc m) [''nodes''] nodeId of (node, err) \<Rightarrow>
        case err of
          Some e \<Rightarrow> (m, Some (LibError e))
        | None \<Rightarrow>
            if \<not> is_map node then (m, Some NotAMap)
            else am_write (am_Set L (cm_doc m) (node_path nodeId) ''timestamp'' (KindInt64 now)) m)"

definition AM_SetDescription ::
  "('d, 'h, 's) automerge \<Rightarrow> string \<Rightarrow> string \<Rightarrow> ('d, 'h) CrdtMeshManager \<Rightarrow> ('d, 'h) CrdtMeshManager \<times> am_error option" where
  "AM_SetDescription L nodeId description m =
     (case am_Get L (cm_doc m) [''nodes''] nodeId of (node, err) \<Rightarrow>
        case err of
          Some e \<Rightarrow> (m, Some (LibError e))
        | None \<Rightarrow>
            if \<not> is_map node then (m, Some (DoesNotExist nodeId))
            else am_write (am_Set L (cm_doc m) (node_path nodeId) ''description'' (KindStr description)) m)"

definition AM_SetAlias ::
  "('d, 'h, 's) automerge \<Rightarrow> string \<Rightarrow> string \<Rightarrow> ('d, 'h) CrdtMeshManager \<Rightarrow> ('d, 'h) CrdtMeshManager \<times> am_error option" where
  "AM_SetAlias L nodeId name m =
     (case am_Get L (cm_doc m) [''nodes''] nodeId of (node, err) \<Rightarrow>
        case err of
          Some e \<Rightarrow> (m, Some (LibError e))
        | None \<Rightarrow>
            if \<not> is_map node then (m, Some (DoesNotExist nodeId))
            else am_write (am_Set L (cm_doc m) (node_path nodeId) ''alias'' (KindStr name)) m)"

definition AM_AddService ::
  "('d, 'h, 's) automerge \<Rightarrow> string \<Rightarrow> string \<Rightarrow> string \<Rightarrow> ('d, 'h) CrdtMeshManager
    \<Rightarrow> ('d, 'h) CrdtMeshManager \<times> am_error option" where
  "AM_AddService L nodeId key value m =
     (case am_Get L (cm_doc m) [''nodes''] nodeId of (node, err) \<Rightarrow>
        if err \<noteq> None \<or> \<not> is_map node then (m, Some (DoesNotExist nodeId))
        else case am_Get L (cm_doc m) (node_path nodeId) ''services'' of (service, err) \<Rightarrow>
          case err of
            Some e \<Rightarrow> (m, Some (LibError e))
          | None \<Rightarrow>
              if \<not> is_map service then (m, Some NoServices)
              else am_write (am_Set L (cm_doc m) (node_path nodeId @ [''services'']) key (KindStr value)) m)"

definition AM_RemoveService ::
  "('d, 'h, 's) automerge \<Rightarrow> string \<Rightarrow> string \<Rightarrow> ('d, 'h) CrdtMeshManager
    \<Rightarrow> ('d, 'h) CrdtMeshManager \<times> am_error option" where
  "AM_RemoveService L nodeId key m =
     (case am_Get L (cm_doc m) [''nodes''] nodeId of (node, err) \<Rightarrow>
        if err \<noteq> None \<or> \<not> is_map node then (m, Some (DoesNotExist nodeId))
        else case am_Get L (cm_doc m) (node_path nodeId) ''services'' of (service, err) \<Rightarrow>
          case err of
            Some e \<Rightarrow> (m, Some (LibError e))
          | None \<Rightarrow>
              if \<not> is_map service then (m, Some NoServices)
              else case am_Delete L (cm_doc m) (node_path nodeId @ [''services'']) key of (doc, err) \<Rightarrow>
                (m\<lparr>cm_doc := doc\<rparr>, if err \<noteq> None then Some (ServiceDoesNotExist key) else None))"

text \<open>The route that is already there is looked at only if it is missing and the read failed, and then
  using it as a map panics.\<close>

fun AM_addRoutes_loop ::
  "('d, 'h, 's) automerge \<Rightarrow> string \<Rightarrow> am_value \<Rightarrow> mesh_route list \<Rightarrow> 'd \<Rightarrow> 'd \<times> am_error option" where
  "AM_addRoutes_loop L nodeId routeMap [] doc = (doc, None)"
| "AM_addRoutes_loop L nodeId routeMap (route # routes) doc =
     (if \<not> is_map routeMap then (doc, Some AmPanic)
      else case am_Get L doc (node_path nodeId @ [''routes'']) (route_key route) of (prevRoute, err) \<Rightarrow>
        if prevRoute = KindVoid \<and> err \<noteq> None then (doc, Some AmPanic)
        else case am_Set L doc (node_path nodeId @ [''routes'']) (route_key route)
               (encode_route \<lparr>rt_Destination = route_key route, rt_Path = GetPath route\<rparr>) of
            (doc, Some e) \<Rightarrow> (doc, Some (LibError e))
          | (doc, None) \<Rightarrow> AM_addRoutes_loop L nodeId routeMap routes doc)"

definition AM_AddRoutes ::
  "('d, 'h, 's) automerge \<Rightarrow> string \<Rightarrow> mesh_route list \<Rightarrow> ('d, 'h) CrdtMeshManager
    \<Rightarrow> ('d, 'h) CrdtMeshManager \<times> am_error option" where
  "AM_AddRoutes L nodeId routes m =
     (case am_Get L (cm_doc m) [''nodes''] nodeId of (nodeVal, err) \<Rightarrow>
        case err of
          Some e \<Rightarrow> (m, Some (LibError e))
        | None \<Rightarrow>
            if \<not> is_map nodeVal then (m, Some (DoesNotExist nodeId))
            else case am_Get L (cm_doc m) (node_path nodeId) ''routes'' of (routeMap, err) \<Rightarrow>
              case err of
                Some e \<Rightarrow> (m, Some (LibError e))
              | None \<Rightarrow>
                  (case AM_addRoutes_loop L nodeId routeMap routes (cm_doc m) of (doc, err) \<Rightarrow>
                     (m\<lparr>cm_doc := doc\<rparr>, err)))"

definition AM_getRoutes ::
  "('d, 'h, 's) automerge \<Rightarrow> string \<Rightarrow> ('d, 'h) CrdtMeshManager \<Rightarrow> am_error + Route list" where
  "AM_getRoutes L nodeId m =
     (case am_Get L (cm_doc m) [''nodes''] nodeId of (nodeVal, err) \<Rightarrow>
        case err of
          Some e \<Rightarrow> Inl (LibError e)
        | None \<Rightarrow>
            if \<not> is_map nodeVal then Inl (DoesNotExist nodeId)
            else case am_Get L (cm_doc m) (node_path nodeId) ''routes'' of (routeMap, err) \<Rightarrow>
              case err of
                Some e \<Rightarrow> Inl (LibError e)
              | None \<Rightarrow>
                  if \<not> is_map routeMap then Inl NotAMap
                  else case am_AsRoutes L routeMap of Inl e \<Rightarrow> Inl (LibError e) | Inr routes \<Rightarrow> Inr (MapValues routes))"

definition AN_GetRoutes :: "MeshNodeCrdt \<Rightarrow> Route list" where
  "AN_GetRoutes n = Map (MapValues (an_Routes n)) (\<lambda>r. \<lparr>rt_Destination = rt_Destination r, rt_Path = rt_Path r\<rparr>)"

text \<open>The inner loop of \<open>GetRoutes\<close>; the hop count it adjusts for other nodes is not used.\<close>

definition AM_better_route :: "string \<Rightarrow> Route \<Rightarrow> (string, Route) gomap \<Rightarrow> (string, Route) gomap" where
  "AM_better_route meshId route routes =
     (let key = route_key (StoreRoute route) in
      if (case map_of routes key of
            None \<Rightarrow> True
          | Some otherRoute \<Rightarrow> length (rt_Path route) + 1 < length (rt_Path otherRoute))
      then gm_put key \<lparr>rt_Destination = key, rt_Path = rt_Path route @ [meshId]\<rparr> routes
      else routes)"

fun AM_peer_routes ::
  "('d, 'h, 's) automerge \<Rightarrow> ('d, 'h) CrdtMeshManager \<Rightarrow> string list \<Rightarrow> (string, Route) gomap
    \<Rightarrow> am_error + (string, Route) gomap" where
  "AM_peer_routes L m [] routes = Inr routes"
| "AM_peer_routes L m (node # nodes) routes =
     (case AM_getRoutes L node m of
        Inl err \<Rightarrow> Inl err
      | Inr nodeRoutes \<Rightarrow> AM_peer_routes L m nodes (fold (AM_better_route (cm_MeshId m)) nodeRoutes routes))"

definition AM_GetRoutes ::
  "('d, 'h, 's) automerge \<Rightarrow> string \<Rightarrow> ('d, 'h) CrdtMeshManager \<Rightarrow> am_error + (string, Route) gomap" where
  "AM_GetRoutes L targetNode m =
     (case AM_GetNode L targetNode m of
        Inl err \<Rightarrow> Inl err
      | Inr node \<Rightarrow>
          AM_peer_routes L m (AM_GetPeers L m)
            (fold (\<lambda>route. gm_put (route_key (StoreRoute route)) route) (AN_GetRoutes node) []))"

definition AM_RemoveNode ::
  "('d, 'h, 's) automerge \<Rightarrow> string \<Rightarrow> ('d, 'h) CrdtMeshManager \<Rightarrow> ('d, 'h) CrdtMeshManager \<times> am_error option" where
  "AM_RemoveNode L nodeId m = am_write (am_Delete L (cm_doc m) [''nodes''] nodeId) m"

text \<open>Only the error of the last deletion is returned.\<close>

fun AM_removeRoutes_loop ::
  "('d, 'h, 's) automerge \<Rightarrow> string \<Rightarrow> am_value \<Rightarrow> mesh_route list \<Rightarrow> 'd \<Rightarrow> string option \<Rightarrow> 'd \<times> am_error option" where
  "AM_removeRoutes_loop L nodeId routeMap [] doc err = (doc, map_option LibError err)"
| "AM_removeRoutes_loop L nodeId routeMap (route # routes) doc err =
     (if \<not> is_map routeMap then (doc, Some AmPanic)
      else case am_Delete L doc (node_path nodeId @ [''routes'']) (route_key route) of (doc, err) \<Rightarrow>
        AM_removeRoutes_loop L nodeId routeMap routes doc err)"

definition AM_RemoveRoutes ::
  "('d, 'h, 's) automerge \<Rightarrow> string \<Rightarrow> mesh_route list \<Rightarrow> ('d, 'h) CrdtMeshManager
    \<Rightarrow> ('d, 'h) CrdtMeshManager \<times> am_error option" where
  "AM_RemoveRoutes L nodeId routes m =
     (case am_Get L (cm_doc m) [''nodes''] nodeId of (nodeVal, err) \<Rightarrow>
        case err of
          Some e \<Rightarrow> (m, Some (LibError e))
        | None \<Rightarrow>
            if \<not> is_map nodeVal then (m, Some NotAMap)
            else case am_Get L (cm_doc m) (node_path nodeId) ''routes'' of (routeMap, err) \<Rightarrow>
              case err of
                Some e \<Rightarrow> (m, Some (LibError e))
              | None \<Rightarrow>
                  (case AM_removeRoutes_loop L nodeId routeMap routes (cm_doc m) None of (doc, err) \<Rightarrow>
                     (m\<lparr>cm_doc := doc\<rparr>, err)))"

text \<open>A node and a snapshot.\<close>

definition AN_Compare :: "MeshNodeCrdt \<Rightarrow> MeshNodeCrdt \<Rightarrow> int" where
  "AN_Compare m1 m2 =
     (if an_PublicKey m1 = an_PublicKey m2 then 0 else if an_PublicKey m1 < an_PublicKey m2 then - 1 else 1)"

definition AN_GetWgHost :: "MeshNodeCrdt \<Rightarrow> IPNet option" where
  "AN_GetWgHost m = map_option snd (ParseCIDR (an_WgHost m))"

definition AN_GetIdentifier :: "MeshNodeCrdt \<Rightarrow> am_error + string" where
  "AN_GetIdentifier m =
     (if length (an_WgHost m) < 4 then Inl AmPanic
      else let ipv6 = take (length (an_WgHost m) - 4) (an_WgHost m);
               constituents = split_at (CHR '':'') ipv6
           in if length constituents < 4 then Inl AmPanic
              else Inr (join_with (CHR '':'') (drop 4 constituents)))"

definition AN_GetServices :: "MeshNodeCrdt \<Rightarrow> (string, string) gomap" where
  "AN_GetServices m = gm_build id (an_Services m)"

definition AM_GetNodes :: "MeshCrdt \<Rightarrow> (string, MeshNodeCrdt) gomap" where
  "AM_GetNodes mesh = fold (\<lambda>(_, node) nodes.
     gm_put (an_HostEndpoint node) (node\<lparr>an_Services := AN_GetServices node\<rparr>) nodes) (mc_Nodes mesh) []"

section \<open>Synchronisation and factories\<close>

text \<open>The state of the library refers to the document of the manager, which is passed along.\<close>

definition NewAutomergeSync :: "('d, 'h, 's) automerge \<Rightarrow> ('d, 'h) CrdtMeshManager \<Rightarrow> 's" where
  "NewAutomergeSync L manager = am_NewSyncState L (cm_doc manager)"

definition AMS_GenerateMessage ::
  "('d, 'h, 's) automerge \<Rightarrow> ('d, 'h) CrdtMeshManager \<Rightarrow> 's \<Rightarrow> 's \<times> string option \<times> bool" where
  "AMS_GenerateMessage L manager state =
     (case am_GenerateMessage L (cm_doc manager) state of (state, msg, valid) \<Rightarrow>
        if \<not> valid then (state, None, False) else (state, Some msg, True))"

definition AMS_RecvMessage ::
  "('d, 'h, 's) automerge \<Rightarrow> string \<Rightarrow> ('d, 'h) CrdtMeshManager \<Rightarrow> 's \<Rightarrow> ('d, 'h) CrdtMeshManager \<times> 's \<times> am_error option" where
  "AMS_RecvMessage L msg manager state =
     (case am_ReceiveMessage L msg (cm_doc manager) state of (doc, state, err) \<Rightarrow>
        (manager\<lparr>cm_doc := doc\<rparr>, state, map_option LibError err))"

definition AMS_Complete ::
  "('d, 'h, 's) automerge \<Rightarrow> ('d, 'h) CrdtMeshManager \<Rightarrow> ('d, 'h) CrdtMeshManager \<times> am_error option" where
  "AMS_Complete L manager = AM_SaveChanges L manager"

definition AM_CreateMesh ::
  "('d, 'h, 's) automerge \<Rightarrow> MeshProviderFactoryParams \<Rightarrow> ('d, 'h) CrdtMeshManager" where
  "AM_CreateMesh L params = NewCrdtNodeManager L (pp_MeshId params) (pp_DevName params) (pp_Conf params)"

text \<open>The pointers of the configuration are followed without a check.\<close>

definition AM_getAddress :: "ip option \<Rightarrow> ip option \<Rightarrow> MeshNodeFactoryParams \<Rightarrow> am_error + string" where
  "AM_getAddress publicIP outboundIP params =
     (if np_Endpoint params \<noteq> [] then Inr (np_Endpoint params)
      else case cfg_Endpoint (np_MeshConfig params) of
        None \<Rightarrow> Inl AmPanic
      | Some e \<Rightarrow>
          if length e \<noteq> 0 then Inr e
          else case cfg_IPDiscovery (np_MeshConfig params) of
            None \<Rightarrow> Inl AmPanic
          | Some discovery \<Rightarrow>
              (case (if discovery = OUTGOING_IP_DISCOVERY then outboundIP else publicIP) of
                 None \<Rightarrow> Inr [] | Some a \<Rightarrow> Inr (ip_string a)))"

definition AM_Build ::
  "DaemonConfiguration \<Rightarrow> ip option \<Rightarrow> ip option \<Rightarrow> MeshNodeFactoryParams \<Rightarrow> am_error + MeshNodeCrdt" where
  "AM_Build config publicIP outboundIP params =
     (case AM_getAddress publicIP outboundIP params of
        Inl e \<Rightarrow> Inl e
      | Inr hostName \<Rightarrow>
          (case cfg_Role (np_MeshConfig params) of
             None \<Rightarrow> Inl AmPanic
           | Some role \<Rightarrow>
               Inr \<lparr>an_HostEndpoint = (if role = CLIENT_ROLE then ''-'' else hostName @ '':'' @ int_string (dc_GrpcPort config)),
                 an_WgEndpoint = hostName @ '':'' @ int_string (np_WgPort params),
                 an_PublicKey = np_PublicKey params,
                 an_WgHost = ip_string (np_NodeIP params) @ ''/128'',
                 an_Timestamp = 0, an_Routes = [], an_Alias = [], an_Description = [], an_Services = [],
                 an_Type = role\<rparr>))"

text \<open>The snapshot files nodes under their endpoint, and the factory gives every client the same one: of any
  number of clients one is left.\<close>

lemma client_endpoint:
  "AM_Build config publicIP outboundIP params = Inr n \<Longrightarrow> cfg_Role (np_MeshConfig params) = Some CLIENT_ROLE
    \<Longrightarrow> an_HostEndpoint n = ''-''"
  by (auto simp: AM_Build_def split: sum.splits)

lemma snapshot_merges_clients:
  assumes "\<forall>node \<in> snd ` set (mc_Nodes mesh). an_HostEndpoint node = ''-''" and "mc_Nodes mesh \<noteq> []"
  shows "length (AM_GetNodes mesh) = 1"
proof -
  let ?step = "\<lambda>(_, node) nodes. gm_put (an_HostEndpoint node) (node\<lparr>an_Services := AN_GetServices node\<rparr>) nodes"
  have one: "length (fold ?step xs [(''-'', x)]) = 1" if "\<forall>node \<in> snd ` set xs. an_HostEndpoint node = ''-''" for xs x
    using that
  proof (induction xs arbitrary: x)
    case (Cons p xs)
    obtain k node where p: "p = (k, node)" by force
    have "an_HostEndpoint node = ''-''" using Cons.prems p by simp
    then have step: "?step p [(''-'', x)] = [(''-'', node\<lparr>an_Services := AN_GetServices node\<rparr>)]" by (simp add: p)
    have "\<forall>node \<in> snd ` set xs. an_HostEndpoint node = ''-''" using Cons.prems by simp
    from Cons.IH [OF this] show ?case unfolding fold_Cons comp_def step .
  qed simp
  obtain k node rest where mesh: "mc_Nodes mesh = (k, node) # rest" using assms(2) by (cases "mc_Nodes mesh") auto
  have "an_HostEndpoint node = ''-''" and rest: "\<forall>node \<in> snd ` set rest. an_HostEndpoint node = ''-''" using assms(1) mesh by simp_all
  then have "AM_GetNodes mesh = fold ?step rest [(''-'', node\<lparr>an_Services := AN_GetServices node\<rparr>)]"
    by (simp add: AM_GetNodes_def mesh)
  then show ?thesis using one [OF rest] by simp
qed

section \<open>What the package relies on\<close>

definition entries_of :: "am_value \<Rightarrow> string \<Rightarrow> am_value option" where
  "entries_of v = (case v of KindMap m \<Rightarrow> m | _ \<Rightarrow> Map.empty)"

fun value_at :: "string list \<Rightarrow> am_value \<Rightarrow> am_value" where
  "value_at [] v = v"
| "value_at (k # p) v = (case entries_of v k of None \<Rightarrow> KindVoid | Some w \<Rightarrow> value_at p w)"

text \<open>Writing (\<open>Some\<close>) or deleting (\<open>None\<close>) at the end of a path; maps on the way are created.\<close>

fun put_at :: "string list \<Rightarrow> am_value option \<Rightarrow> am_value \<Rightarrow> am_value" where
  "put_at [] e v = v"
| "put_at [k] e v = KindMap ((entries_of v)(k := e))"
| "put_at (k # l # p) e v = KindMap ((entries_of v)(k \<mapsto> put_at (l # p) e (value_at [k] v)))"

text \<open>A path at which a map is or can be created.\<close>

definition map_at :: "string list \<Rightarrow> am_value \<Rightarrow> bool" where
  "map_at p v \<longleftrightarrow> is_map (value_at p v) \<or> value_at p v = KindVoid"

text \<open>
  The library: a document starts empty; a read returns what is at the path; a write or a deletion
  changes the tree at one path, and succeeds, a deletion if there is something to delete; the keys of
  a map are listed once each; decoding is the inverse of the encoding the tags describe, up to the
  order of maps.
\<close>

definition automerge_law :: "('d, 'h, 's) automerge \<Rightarrow> bool" where
  "automerge_law L \<longleftrightarrow>
     am_Root L (am_New L) = KindMap Map.empty
     \<and> (\<forall>d p k. map_at p (am_Root L d) \<longrightarrow> am_Get L d p k = (value_at (p @ [k]) (am_Root L d), None))
     \<and> (\<forall>d p k v. map_at p (am_Root L d) \<longrightarrow>
          snd (am_Set L d p k v) = None \<and> am_Root L (fst (am_Set L d p k v)) = put_at (p @ [k]) (Some v) (am_Root L d))
     \<and> (\<forall>d p k. is_map (value_at p (am_Root L d)) \<longrightarrow>
          (value_at (p @ [k]) (am_Root L d) \<noteq> KindVoid \<longrightarrow> snd (am_Delete L d p k) = None)
          \<and> am_Root L (fst (am_Delete L d p k)) = put_at (p @ [k]) None (am_Root L d))
     \<and> (\<forall>d p. map_at p (am_Root L d) \<longrightarrow> finite (dom (entries_of (value_at p (am_Root L d)))) \<longrightarrow>
          distinct (am_Keys L d p) \<and> set (am_Keys L d p) = dom (entries_of (value_at p (am_Root L d))))
     \<and> (\<forall>n. \<exists>n'. am_AsNode L (encode_node n) = Inr n' \<and> encode_node n' = encode_node n)"

section \<open>The provider as a map of nodes\<close>

text \<open>The document holds exactly the nodes of the map.\<close>

definition tree_of :: "(string \<Rightarrow> MeshNodeCrdt option) \<Rightarrow> am_value \<Rightarrow> bool" where
  "tree_of N r \<longleftrightarrow> is_map r \<and> map_at [''nodes''] r
     \<and> entries_of (value_at [''nodes''] r) = (\<lambda>nodeId. map_option encode_node (N nodeId))"

definition stores ::
  "('d, 'h, 's) automerge \<Rightarrow> ('d, 'h) CrdtMeshManager \<Rightarrow> (string \<Rightarrow> MeshNodeCrdt option) \<Rightarrow> bool" where
  "stores L m N \<longleftrightarrow> tree_of N (am_Root L (cm_doc m))"

lemma entries_of_simps [simp]:
  "entries_of (KindMap f) = f" "entries_of KindVoid = Map.empty" "is_map (KindMap f)" "\<not> is_map KindVoid"
  by (simp_all add: entries_of_def is_map_def)

lemma encode_kinds [simp]:
  "is_map (encode_node n)" "is_map (encode_routes rs)" "is_map (encode_services s)"
  "encode_node n \<noteq> KindVoid" "encode_routes rs \<noteq> KindVoid" "encode_services s \<noteq> KindVoid"
  "encode_route r \<noteq> KindVoid"
  by (simp_all add: encode_node_def encode_routes_def encode_services_def encode_route_def)

lemma value_at_append: "value_at p v = w \<Longrightarrow> value_at (p @ q) v = value_at q w"
proof (induction p arbitrary: v)
  case (Cons k p)
  have "value_at q KindVoid = KindVoid" by (cases q) simp_all
  then show ?case using Cons by (auto split: option.splits)
qed simp

lemma tree_node:
  "tree_of N r \<Longrightarrow> value_at (''nodes'' # nodeId # p) r = (case N nodeId of None \<Rightarrow> KindVoid | Some n \<Rightarrow> value_at p (encode_node n))"
  using value_at_append [of "[''nodes'']" r _ "nodeId # p", OF refl]
  by (auto simp: tree_of_def simp del: value_at.simps(2) split: option.splits)
    (simp_all add: fun_eq_iff [where f = "entries_of _"])

lemma tree_put:
  assumes "tree_of N r" and "N nodeId = Some n" and "p \<noteq> []" and "put_at p e (encode_node n) = encode_node n'"
  shows "tree_of (N(nodeId \<mapsto> n')) (put_at (''nodes'' # nodeId # p) e r)"
proof -
  obtain k q where p: "p = k # q" using assms(3) by (cases p) auto
  have "entries_of (value_at [''nodes''] r) nodeId = Some (encode_node n)" using assms(1,2) by (simp add: tree_of_def)
  then have "value_at [nodeId] (value_at [''nodes''] r) = encode_node n" by simp
  then show ?thesis
    using assms(1,4) by (auto simp: tree_of_def p map_at_def)
qed

text \<open>How a write inside an encoded node changes the node.\<close>

named_theorems encode_puts \<open>writes inside an encoded node\<close>

lemma put_fields [encode_puts]:
  "put_at [''alias''] (Some (KindStr a)) (encode_node n) = encode_node (n\<lparr>an_Alias := a\<rparr>)"
  "put_at [''description''] (Some (KindStr a)) (encode_node n) = encode_node (n\<lparr>an_Description := a\<rparr>)"
  "put_at [''timestamp''] (Some (KindInt64 t)) (encode_node n) = encode_node (n\<lparr>an_Timestamp := t\<rparr>)"
  by (simp_all add: encode_node_def fun_eq_iff)

lemma put_services [encode_puts]:
  "put_at [''services'', k] (Some (KindStr v)) (encode_node n) = encode_node (n\<lparr>an_Services := gm_put k v (an_Services n)\<rparr>)"
  "put_at [''services'', k] None (encode_node n) = encode_node (n\<lparr>an_Services := gm_del k (an_Services n)\<rparr>)"
  by (simp_all add: encode_node_def encode_services_def fun_eq_iff)

lemma put_routes [encode_puts]:
  "put_at [''routes'', k] (Some (encode_route r)) (encode_node n) = encode_node (n\<lparr>an_Routes := gm_put k r (an_Routes n)\<rparr>)"
  "put_at [''routes'', k] None (encode_node n) = encode_node (n\<lparr>an_Routes := gm_del k (an_Routes n)\<rparr>)"
  by (simp_all add: encode_node_def encode_routes_def fun_eq_iff)

lemma encoded_fields:
  "value_at [''services''] (encode_node n) = encode_services (an_Services n)"
  "value_at [''routes''] (encode_node n) = encode_routes (an_Routes n)"
  "value_at [''type''] (encode_node n) = KindStr (an_Type n)"
  "value_at [''timestamp''] (encode_node n) = KindInt64 (an_Timestamp n)"
  by (simp_all add: encode_node_def)

text \<open>The calls of the library on a document that holds the nodes \<open>N\<close>.\<close>

lemma get_node:
  assumes "automerge_law L" and "tree_of N (am_Root L d)"
  shows "am_Get L d [''nodes''] nodeId = (case N nodeId of None \<Rightarrow> KindVoid | Some n \<Rightarrow> encode_node n, None)"
proof -
  have "am_Get L d [''nodes''] nodeId = (value_at [''nodes'', nodeId] (am_Root L d), None)"
    using assms by (simp add: automerge_law_def tree_of_def del: value_at.simps(2))
  then show ?thesis using tree_node [OF assms(2), of nodeId "[]"] by (simp del: value_at.simps(2) split: option.splits)
qed

lemma map_at_node: "tree_of N r \<Longrightarrow> N nodeId = Some n \<Longrightarrow> map_at (''nodes'' # nodeId # p) r = map_at p (encode_node n)"
  by (simp add: map_at_def tree_node del: value_at.simps(2))

lemma get_field:
  assumes "automerge_law L" and "tree_of N (am_Root L d)" and "N nodeId = Some n" and "map_at p (encode_node n)"
  shows "am_Get L d (''nodes'' # nodeId # p) f = (value_at (p @ [f]) (encode_node n), None)"
  using assms by (simp add: automerge_law_def map_at_node tree_node del: value_at.simps(2))

lemma set_field:
  assumes "automerge_law L" and "tree_of N (am_Root L d)" and "N nodeId = Some n" and "map_at p (encode_node n)"
    and "put_at (p @ [f]) (Some v) (encode_node n) = encode_node n'"
  shows "\<exists>d'. am_Set L d (''nodes'' # nodeId # p) f v = (d', None) \<and> tree_of (N(nodeId \<mapsto> n')) (am_Root L d')"
proof -
  let ?r = "am_Set L d (''nodes'' # nodeId # p) f v"
  have "snd ?r = None" "am_Root L (fst ?r) = put_at (''nodes'' # nodeId # p @ [f]) (Some v) (am_Root L d)"
    using assms(1-4) by (simp_all add: automerge_law_def map_at_node)
  then show ?thesis using tree_put [OF assms(2,3) _ assms(5)] by (cases ?r) auto
qed

lemma delete_field:
  assumes "automerge_law L" and "tree_of N (am_Root L d)" and "N nodeId = Some n" and "is_map (value_at p (encode_node n))"
    and "put_at (p @ [f]) None (encode_node n) = encode_node n'"
  shows "\<exists>d' e. am_Delete L d (''nodes'' # nodeId # p) f = (d', e) \<and> tree_of (N(nodeId \<mapsto> n')) (am_Root L d')
    \<and> (value_at (p @ [f]) (encode_node n) \<noteq> KindVoid \<longrightarrow> e = None)"
proof -
  let ?r = "am_Delete L d (''nodes'' # nodeId # p) f"
  have "value_at (p @ [f]) (encode_node n) \<noteq> KindVoid \<Longrightarrow> snd ?r = None"
    "am_Root L (fst ?r) = put_at (''nodes'' # nodeId # p @ [f]) None (am_Root L d)"
    using assms(1-4) by (simp_all add: automerge_law_def tree_node del: value_at.simps(2))
  then show ?thesis using tree_put [OF assms(2,3) _ assms(5)] by (cases ?r) auto
qed

section \<open>The operations and their specification\<close>

datatype am_op =
    Add_Node int MeshNodeCrdt
  | Update_Time_Stamp int string
  | Set_Description string string
  | Set_Alias string string
  | Add_Service string string string
  | Remove_Service string string
  | Add_Routes string "mesh_route list"
  | Remove_Routes string "mesh_route list"
  | Remove_Node string

fun am_run ::
  "('d, 'h, 's) automerge \<Rightarrow> am_op \<Rightarrow> ('d, 'h) CrdtMeshManager \<Rightarrow> ('d, 'h) CrdtMeshManager \<times> am_error option" where
  "am_run L (Add_Node now node) = AM_AddNode L now (Some node)"
| "am_run L (Update_Time_Stamp now nodeId) = AM_UpdateTimeStamp L now nodeId"
| "am_run L (Set_Description nodeId description) = AM_SetDescription L nodeId description"
| "am_run L (Set_Alias nodeId name) = AM_SetAlias L nodeId name"
| "am_run L (Add_Service nodeId key value) = AM_AddService L nodeId key value"
| "am_run L (Remove_Service nodeId key) = AM_RemoveService L nodeId key"
| "am_run L (Add_Routes nodeId routes) = AM_AddRoutes L nodeId routes"
| "am_run L (Remove_Routes nodeId routes) = AM_RemoveRoutes L nodeId routes"
| "am_run L (Remove_Node nodeId) = AM_RemoveNode L nodeId"

text \<open>The specification: an update of one node of a map. The node, and what happens to it.\<close>

fun op_node :: "am_op \<Rightarrow> string" where
  "op_node (Add_Node now node) = an_PublicKey node"
| "op_node (Update_Time_Stamp now nodeId) = nodeId"
| "op_node (Set_Description nodeId description) = nodeId"
| "op_node (Set_Alias nodeId name) = nodeId"
| "op_node (Add_Service nodeId key value) = nodeId"
| "op_node (Remove_Service nodeId key) = nodeId"
| "op_node (Add_Routes nodeId routes) = nodeId"
| "op_node (Remove_Routes nodeId routes) = nodeId"
| "op_node (Remove_Node nodeId) = nodeId"

abbreviation stored_route :: "mesh_route \<Rightarrow> Route" where
  "stored_route r \<equiv> \<lparr>rt_Destination = route_key r, rt_Path = GetPath r\<rparr>"

fun op_effect :: "am_op \<Rightarrow> MeshNodeCrdt option \<Rightarrow> MeshNodeCrdt option" where
  "op_effect (Add_Node now node) _ = Some (node\<lparr>an_Routes := [], an_Services := [], an_Timestamp := now\<rparr>)"
| "op_effect (Remove_Node nodeId) _ = None"
| "op_effect (Update_Time_Stamp now nodeId) n = map_option (\<lambda>x. x\<lparr>an_Timestamp := now\<rparr>) n"
| "op_effect (Set_Description nodeId description) n = map_option (\<lambda>x. x\<lparr>an_Description := description\<rparr>) n"
| "op_effect (Set_Alias nodeId name) n = map_option (\<lambda>x. x\<lparr>an_Alias := name\<rparr>) n"
| "op_effect (Add_Service nodeId key value) n = map_option (\<lambda>x. x\<lparr>an_Services := gm_put key value (an_Services x)\<rparr>) n"
| "op_effect (Remove_Service nodeId key) n = map_option (\<lambda>x. x\<lparr>an_Services := gm_del key (an_Services x)\<rparr>) n"
| "op_effect (Add_Routes nodeId routes) n =
     map_option (\<lambda>x. x\<lparr>an_Routes := fold (\<lambda>r. gm_put (route_key r) (stored_route r)) routes (an_Routes x)\<rparr>) n"
| "op_effect (Remove_Routes nodeId routes) n =
     map_option (\<lambda>x. x\<lparr>an_Routes := fold (\<lambda>r. gm_del (route_key r)) routes (an_Routes x)\<rparr>) n"

definition op_spec :: "am_op \<Rightarrow> (string \<Rightarrow> MeshNodeCrdt option) \<Rightarrow> string \<Rightarrow> MeshNodeCrdt option" where
  "op_spec op N = N(op_node op := op_effect op (N (op_node op)))"

text \<open>When the operation reports success: the node is there, and what is deleted is.\<close>

fun op_ok :: "am_op \<Rightarrow> MeshNodeCrdt option \<Rightarrow> bool" where
  "op_ok (Add_Node now node) _ \<longleftrightarrow> True"
| "op_ok (Remove_Service nodeId key) n \<longleftrightarrow> (\<exists>x. n = Some x \<and> map_of (an_Services x) key \<noteq> None)"
| "op_ok (Remove_Routes nodeId routes) n \<longleftrightarrow> (\<exists>x. n = Some x \<and> distinct (map route_key routes)
     \<and> (\<forall>r \<in> set routes. map_of (an_Routes x) (route_key r) \<noteq> None))"
| "op_ok _ n \<longleftrightarrow> n \<noteq> None"

text \<open>One setter: the node is read, checked and written at one path.\<close>

definition refines ::
  "('d, 'h, 's) automerge \<Rightarrow> am_op \<Rightarrow> (string \<Rightarrow> MeshNodeCrdt option) \<Rightarrow> ('d, 'h) CrdtMeshManager \<Rightarrow> bool" where
  "refines L op N m \<longleftrightarrow> (\<exists>m' e. am_run L op m = (m', e) \<and> stores L m' (op_spec op N)
     \<and> (op_ok op (N (op_node op)) \<longrightarrow> e = None) \<and> (N (op_node op) = None \<and> e = None \<longrightarrow> (\<exists>now n. op = Add_Node now n)))"

lemma map_at_simps [simp]: "map_at [] (encode_node n)" "map_at [''services''] (encode_node n)" "map_at [''routes''] (encode_node n)"
  by (simp_all add: map_at_def encoded_fields del: value_at.simps(2))

text \<open>Writes of one field.\<close>

lemma set_plain:
  assumes "automerge_law L" and "tree_of N (am_Root L d)" and "N nodeId = Some n"
  shows "\<exists>d'. am_Set L d [''nodes'', nodeId] ''timestamp'' (KindInt64 t) = (d', None)
      \<and> tree_of (N(nodeId \<mapsto> n\<lparr>an_Timestamp := t\<rparr>)) (am_Root L d')"
    and "\<exists>d'. am_Set L d [''nodes'', nodeId] ''description'' (KindStr s) = (d', None)
      \<and> tree_of (N(nodeId \<mapsto> n\<lparr>an_Description := s\<rparr>)) (am_Root L d')"
    and "\<exists>d'. am_Set L d [''nodes'', nodeId] ''alias'' (KindStr s) = (d', None)
      \<and> tree_of (N(nodeId \<mapsto> n\<lparr>an_Alias := s\<rparr>)) (am_Root L d')"
  using set_field [OF assms, of "[]" "''timestamp''" "KindInt64 t" "n\<lparr>an_Timestamp := t\<rparr>"]
    set_field [OF assms, of "[]" "''description''" "KindStr s" "n\<lparr>an_Description := s\<rparr>"]
    set_field [OF assms, of "[]" "''alias''" "KindStr s" "n\<lparr>an_Alias := s\<rparr>"]
  by (simp_all add: encode_puts del: put_at.simps)

lemma refines_setters:
  assumes "automerge_law L" and "stores L m N"
  shows "refines L (Update_Time_Stamp now nodeId) N m" "refines L (Set_Description nodeId s) N m" "refines L (Set_Alias nodeId s) N m"
proof -
  note t = assms(2) [unfolded stores_def] note g = get_node [OF assms(1) t, of nodeId]
  have "refines L (Update_Time_Stamp now nodeId) N m \<and> refines L (Set_Description nodeId s) N m \<and> refines L (Set_Alias nodeId s) N m"
  proof (cases "N nodeId")
    case None
    then have "N(nodeId := None) = N" by auto
    with None g assms(2) show ?thesis
      by (simp add: refines_def op_spec_def AM_UpdateTimeStamp_def AM_SetDescription_def AM_SetAlias_def)
  next
    case (Some n)
    show ?thesis
      using set_plain(1) [OF assms(1) t Some, of now] set_plain(2,3) [OF assms(1) t Some, of s] Some g
      by (elim exE conjE) (simp add: refines_def op_spec_def AM_UpdateTimeStamp_def AM_SetDescription_def AM_SetAlias_def
        am_write_def stores_def)
  qed
  then show "refines L (Update_Time_Stamp now nodeId) N m" "refines L (Set_Description nodeId s) N m" "refines L (Set_Alias nodeId s) N m"
    by blast+
qed

text \<open>Writes below the two maps of a node.\<close>

lemma set_inner:
  assumes "automerge_law L" and "tree_of N (am_Root L d)" and "N nodeId = Some n"
  shows "\<exists>d'. am_Set L d [''nodes'', nodeId, ''services''] k (KindStr v) = (d', None)
      \<and> tree_of (N(nodeId \<mapsto> n\<lparr>an_Services := gm_put k v (an_Services n)\<rparr>)) (am_Root L d')"
    and "\<exists>d'. am_Set L d [''nodes'', nodeId, ''routes''] k (encode_route r) = (d', None)
      \<and> tree_of (N(nodeId \<mapsto> n\<lparr>an_Routes := gm_put k r (an_Routes n)\<rparr>)) (am_Root L d')"
  using set_field [OF assms, of "[''services'']" k "KindStr v" "n\<lparr>an_Services := gm_put k v (an_Services n)\<rparr>"]
    set_field [OF assms, of "[''routes'']" k "encode_route r" "n\<lparr>an_Routes := gm_put k r (an_Routes n)\<rparr>"]
  by (simp_all add: encode_puts del: put_at.simps)

lemma delete_inner:
  assumes "automerge_law L" and "tree_of N (am_Root L d)" and "N nodeId = Some n"
  shows "\<exists>d' e. am_Delete L d [''nodes'', nodeId, ''services''] k = (d', e)
      \<and> tree_of (N(nodeId \<mapsto> n\<lparr>an_Services := gm_del k (an_Services n)\<rparr>)) (am_Root L d')
      \<and> (map_of (an_Services n) k \<noteq> None \<longrightarrow> e = None)"
    and "\<exists>d' e. am_Delete L d [''nodes'', nodeId, ''routes''] k = (d', e)
      \<and> tree_of (N(nodeId \<mapsto> n\<lparr>an_Routes := gm_del k (an_Routes n)\<rparr>)) (am_Root L d')
      \<and> (map_of (an_Routes n) k \<noteq> None \<longrightarrow> e = None)"
proof -
  have there: "map_of (an_Services n) k \<noteq> None \<Longrightarrow> value_at [''services'', k] (encode_node n) \<noteq> KindVoid"
    "map_of (an_Routes n) k \<noteq> None \<Longrightarrow> value_at [''routes'', k] (encode_node n) \<noteq> KindVoid"
    by (auto simp: encode_node_def encode_services_def encode_routes_def)
  have maps: "is_map (value_at [''services''] (encode_node n))" "is_map (value_at [''routes''] (encode_node n))"
    by (simp_all add: encoded_fields del: value_at.simps(2))
  show "\<exists>d' e. am_Delete L d [''nodes'', nodeId, ''services''] k = (d', e)
      \<and> tree_of (N(nodeId \<mapsto> n\<lparr>an_Services := gm_del k (an_Services n)\<rparr>)) (am_Root L d')
      \<and> (map_of (an_Services n) k \<noteq> None \<longrightarrow> e = None)"
    using delete_field [OF assms maps(1), of k "n\<lparr>an_Services := gm_del k (an_Services n)\<rparr>"] there(1)
    unfolding append_Cons append_Nil encode_puts by blast
  show "\<exists>d' e. am_Delete L d [''nodes'', nodeId, ''routes''] k = (d', e)
      \<and> tree_of (N(nodeId \<mapsto> n\<lparr>an_Routes := gm_del k (an_Routes n)\<rparr>)) (am_Root L d')
      \<and> (map_of (an_Routes n) k \<noteq> None \<longrightarrow> e = None)"
    using delete_field [OF assms maps(2), of k "n\<lparr>an_Routes := gm_del k (an_Routes n)\<rparr>"] there(2)
    unfolding append_Cons append_Nil encode_puts by blast
qed

lemma get_inner:
  assumes "automerge_law L" and "tree_of N (am_Root L d)" and "N nodeId = Some n"
  shows "am_Get L d [''nodes'', nodeId] ''services'' = (encode_services (an_Services n), None)"
    and "am_Get L d [''nodes'', nodeId] ''routes'' = (encode_routes (an_Routes n), None)"
    and "am_Get L d [''nodes'', nodeId] ''type'' = (KindStr (an_Type n), None)"
    and "am_Get L d [''nodes'', nodeId] ''timestamp'' = (KindInt64 (an_Timestamp n), None)"
    and "snd (am_Get L d [''nodes'', nodeId, ''routes''] k) = None"
  using get_field [OF assms, of "[]"] get_field [OF assms, of "[''routes'']" k]
  by (simp_all add: encoded_fields del: value_at.simps(2))

lemma refines_services:
  assumes "automerge_law L" and "stores L m N"
  shows "refines L (Add_Service nodeId key v) N m" and "refines L (Remove_Service nodeId key) N m"
proof -
  note t = assms(2) [unfolded stores_def] note g = get_node [OF assms(1) t, of nodeId]
  have "refines L (Add_Service nodeId key v) N m \<and> refines L (Remove_Service nodeId key) N m"
  proof (cases "N nodeId")
    case None
    then have "N(nodeId := None) = N" by auto
    with None g assms(2) show ?thesis
      by (simp add: refines_def op_spec_def AM_AddService_def AM_RemoveService_def)
  next
    case (Some n)
    obtain d1 d2 e where "am_Set L (cm_doc m) [''nodes'', nodeId, ''services''] key (KindStr v) = (d1, None)"
      "tree_of (N(nodeId \<mapsto> n\<lparr>an_Services := gm_put key v (an_Services n)\<rparr>)) (am_Root L d1)"
      "am_Delete L (cm_doc m) [''nodes'', nodeId, ''services''] key = (d2, e)"
      "tree_of (N(nodeId \<mapsto> n\<lparr>an_Services := gm_del key (an_Services n)\<rparr>)) (am_Root L d2)"
      "map_of (an_Services n) key \<noteq> None \<longrightarrow> e = None"
      using set_inner(1) [OF assms(1) t Some] delete_inner(1) [OF assms(1) t Some] by blast
    then show ?thesis using Some g get_inner(1) [OF assms(1) t Some]
      by (simp add: refines_def op_spec_def AM_AddService_def AM_RemoveService_def am_write_def stores_def)
  qed
  then show "refines L (Add_Service nodeId key v) N m" and "refines L (Remove_Service nodeId key) N m" by blast+
qed

text \<open>The loops over routes.\<close>

lemma addRoutes_loop:
  assumes "automerge_law L" and "tree_of N (am_Root L d)" and "N nodeId = Some n"
  shows "\<exists>d'. AM_addRoutes_loop L nodeId (encode_routes rs) routes d = (d', None)
    \<and> tree_of (N(nodeId \<mapsto> n\<lparr>an_Routes := fold (\<lambda>r. gm_put (route_key r) (stored_route r)) routes (an_Routes n)\<rparr>)) (am_Root L d')"
  using assms(2,3)
proof (induction routes arbitrary: d N n)
  case Nil
  then show ?case by (simp add: fun_upd_idem)
next
  case (Cons r routes)
  obtain d1 where set: "am_Set L d [''nodes'', nodeId, ''routes''] (route_key r) (encode_route (stored_route r)) = (d1, None)"
    "tree_of (N(nodeId \<mapsto> n\<lparr>an_Routes := gm_put (route_key r) (stored_route r) (an_Routes n)\<rparr>)) (am_Root L d1)"
    using set_inner(2) [OF assms(1) Cons.prems] by blast
  have "\<exists>w. am_Get L d [''nodes'', nodeId, ''routes''] (route_key r) = (w, None)"
    using get_inner(5) [OF assms(1) Cons.prems] by (metis prod.collapse)
  then show ?case using set(1) Cons.IH [OF set(2) fun_upd_same, unfolded fun_upd_upd] by (elim exE conjE) simp
qed

lemma removeRoutes_loop:
  assumes "automerge_law L" and "tree_of N (am_Root L d)" and "N nodeId = Some n"
  shows "\<exists>d' e. AM_removeRoutes_loop L nodeId (encode_routes rs) routes d err = (d', e)
    \<and> tree_of (N(nodeId \<mapsto> n\<lparr>an_Routes := fold (\<lambda>r. gm_del (route_key r)) routes (an_Routes n)\<rparr>)) (am_Root L d')
    \<and> (err = None \<and> distinct (map route_key routes) \<and> (\<forall>r \<in> set routes. map_of (an_Routes n) (route_key r) \<noteq> None) \<longrightarrow> e = None)"
  using assms(2,3)
proof (induction routes arbitrary: d N n err)
  case Nil
  then show ?case by (simp add: fun_upd_idem)
next
  case (Cons r routes)
  obtain d1 e where del: "am_Delete L d [''nodes'', nodeId, ''routes''] (route_key r) = (d1, e)"
    "tree_of (N(nodeId \<mapsto> n\<lparr>an_Routes := gm_del (route_key r) (an_Routes n)\<rparr>)) (am_Root L d1)"
    "map_of (an_Routes n) (route_key r) \<noteq> None \<longrightarrow> e = None"
    using delete_inner(2) [OF assms(1) Cons.prems] by blast
  have "\<forall>r' \<in> set routes. map_of (gm_del (route_key r) (an_Routes n)) (route_key r') \<noteq> None"
    if "distinct (map route_key (r # routes))" "\<forall>r \<in> set (r # routes). map_of (an_Routes n) (route_key r) \<noteq> None"
  proof
    fix r' assume r': "r' \<in> set routes"
    then have "route_key r' \<noteq> route_key r" using that(1) by (auto simp: image_iff)
    then show "map_of (gm_del (route_key r) (an_Routes n)) (route_key r') \<noteq> None" using that(2) r' by simp
  qed
  then have "distinct (map route_key (r # routes)) \<and> (\<forall>r \<in> set (r # routes). map_of (an_Routes n) (route_key r) \<noteq> None)
      \<longrightarrow> e = None \<and> distinct (map route_key routes)
        \<and> (\<forall>r' \<in> set routes. map_of (gm_del (route_key r) (an_Routes n)) (route_key r') \<noteq> None)"
    using del(3) by (auto simp del: map_of_gm_del)
  then show ?case using del(1) Cons.IH [OF del(2) fun_upd_same, unfolded fun_upd_upd, of e]
    by (elim exE conjE) (simp del: map_of_gm_del list.set)
qed

lemma refines_routes:
  assumes "automerge_law L" and "stores L m N"
  shows "refines L (Add_Routes nodeId routes) N m" and "refines L (Remove_Routes nodeId routes) N m"
proof -
  note t = assms(2) [unfolded stores_def] note g = get_node [OF assms(1) t, of nodeId]
  have "refines L (Add_Routes nodeId routes) N m \<and> refines L (Remove_Routes nodeId routes) N m"
  proof (cases "N nodeId")
    case None
    then have "N(nodeId := None) = N" by auto
    with None g assms(2) show ?thesis
      by (simp add: refines_def op_spec_def AM_AddRoutes_def AM_RemoveRoutes_def)
  next
    case (Some n)
    show ?thesis
      using addRoutes_loop [OF assms(1) t Some, of "an_Routes n" routes]
        removeRoutes_loop [OF assms(1) t Some, of "an_Routes n" routes None] Some g get_inner(2) [OF assms(1) t Some]
      by (elim exE conjE) (simp add: refines_def op_spec_def AM_AddRoutes_def AM_RemoveRoutes_def stores_def)
  qed
  then show "refines L (Add_Routes nodeId routes) N m" and "refines L (Remove_Routes nodeId routes) N m" by blast+
qed

lemma refines_nodes:
  assumes "automerge_law L" and "stores L m N"
  shows "refines L (Add_Node now n) N m" and "N nodeId \<noteq> None \<Longrightarrow> refines L (Remove_Node nodeId) N m"
proof -
  note t = assms(2) [unfolded stores_def tree_of_def]
  have put: "tree_of (N(k := e)) (put_at [''nodes'', k] (map_option encode_node e) (am_Root L (cm_doc m)))" for k e
    using t by (auto simp: tree_of_def map_at_def)
  let ?n = "n\<lparr>an_Routes := [], an_Services := [], an_Timestamp := now\<rparr>"
  have "am_Root L (fst (am_Set L (cm_doc m) [''nodes''] (an_PublicKey n) (encode_node ?n)))
    = put_at [''nodes'', an_PublicKey n] (map_option encode_node (Some ?n)) (am_Root L (cm_doc m))"
    using assms(1) t by (simp add: automerge_law_def)
  then show "refines L (Add_Node now n) N m"
    using put [of "an_PublicKey n" "Some ?n"]
    by (simp add: refines_def op_spec_def AM_AddNode_def stores_def Let_def del: put_at.simps)
  assume "N nodeId \<noteq> None"
  then obtain n where n: "N nodeId = Some n" by auto
  have "value_at [''nodes''] (am_Root L (cm_doc m)) \<noteq> KindVoid" using t n by (auto simp: fun_eq_iff)
  then have "is_map (value_at [''nodes''] (am_Root L (cm_doc m)))" using t by (auto simp: map_at_def)
  moreover have "value_at [''nodes'', nodeId] (am_Root L (cm_doc m)) \<noteq> KindVoid"
    using tree_node [OF assms(2) [unfolded stores_def], of nodeId "[]"] n by simp
  ultimately have "snd (am_Delete L (cm_doc m) [''nodes''] nodeId) = None"
    "am_Root L (fst (am_Delete L (cm_doc m) [''nodes''] nodeId)) = put_at [''nodes'', nodeId] (map_option encode_node None) (am_Root L (cm_doc m))"
    using assms(1) by (simp_all add: automerge_law_def del: value_at.simps(2))
  then show "refines L (Remove_Node nodeId) N m"
    using put [of nodeId None] n
    by (simp add: refines_def op_spec_def AM_RemoveNode_def am_write_def stores_def split_def del: put_at.simps)
qed

lemma run_refines:
  assumes "automerge_law L" and "stores L m N" and "\<forall>nodeId. op = Remove_Node nodeId \<longrightarrow> N nodeId \<noteq> None"
  shows "refines L op N m"
  using assms(3) refines_setters [OF assms(1,2)] refines_services [OF assms(1,2)] refines_routes [OF assms(1,2)]
    refines_nodes [OF assms(1,2)] by (cases op) simp_all

section \<open>Reading\<close>

text \<open>Equality of nodes up to the order of their maps.\<close>

definition same_node :: "MeshNodeCrdt \<Rightarrow> MeshNodeCrdt \<Rightarrow> bool" where
  "same_node n n' \<longleftrightarrow> n\<lparr>an_Routes := [], an_Services := []\<rparr> = n'\<lparr>an_Routes := [], an_Services := []\<rparr>
     \<and> map_of (an_Routes n) = map_of (an_Routes n') \<and> map_of (an_Services n) = map_of (an_Services n')"

lemma encode_route_inject: "encode_route r = encode_route r' \<longleftrightarrow> r = r'"
proof
  assume e: "encode_route r = encode_route r'"
  have "map KindStr xs = map KindStr ys \<Longrightarrow> xs = ys" for xs ys by (simp add: inj_map_eq_map inj_def)
  then show "r = r'"
    using arg_cong [OF e, of "\<lambda>v. value_at [''destination''] v"] arg_cong [OF e, of "\<lambda>v. value_at [''path''] v"]
    by (cases r; cases r') (auto simp: encode_route_def)
qed simp

lemma map_option_eq: "(\<lambda>k. map_option f (m k)) = (\<lambda>k. map_option f (m' k)) \<Longrightarrow> inj f \<Longrightarrow> m = m'"
  by (rule ext) (metis (no_types, lifting) injD option.inj_map)

lemma encode_node_eq: "encode_node n = encode_node n' \<Longrightarrow> same_node n n'"
proof -
  assume e: "encode_node n = encode_node n'"
  have f: "value_at [k] (encode_node n) = value_at [k] (encode_node n')" for k by (simp only: e)
  have "(\<lambda>k. map_option encode_route (map_of (an_Routes n) k)) = (\<lambda>k. map_option encode_route (map_of (an_Routes n') k))"
    using f [of "''routes''"] by (simp add: encoded_fields encode_routes_def del: value_at.simps(2))
  then have "map_of (an_Routes n) = map_of (an_Routes n')"
    by (rule map_option_eq) (simp add: inj_def encode_route_inject)
  moreover have "(\<lambda>k. map_option KindStr (map_of (an_Services n) k)) = (\<lambda>k. map_option KindStr (map_of (an_Services n') k))"
    using f [of "''services''"] by (simp add: encoded_fields encode_services_def del: value_at.simps(2))
  then have "map_of (an_Services n) = map_of (an_Services n')"
    by (rule map_option_eq) (simp add: inj_def)
  ultimately show ?thesis
    using f [of "''hostEndpoint''"] f [of "''wgEndpoint''"] f [of "''publicKey''"] f [of "''wgHost''"] f [of "''timestamp''"]
      f [of "''alias''"] f [of "''description''"] f [of "''type''"]
    by (cases n; cases n') (simp add: same_node_def encode_node_def)
qed

lemma read_node:
  assumes "automerge_law L" and "stores L m N"
  shows "AM_NodeExists L nodeId m \<longleftrightarrow> N nodeId \<noteq> None"
    and "case N nodeId of None \<Rightarrow> AM_GetNode L nodeId m = Inl NotAMap
      | Some n \<Rightarrow> \<exists>n'. AM_GetNode L nodeId m = Inr n' \<and> same_node n' n"
proof -
  note g = get_node [OF assms(1) assms(2) [unfolded stores_def], of nodeId]
  show "AM_NodeExists L nodeId m \<longleftrightarrow> N nodeId \<noteq> None"
    by (simp add: AM_NodeExists_def g split: option.splits)
  have "\<forall>n. \<exists>n'. am_AsNode L (encode_node n) = Inr n' \<and> same_node n' n"
    using assms(1) encode_node_eq unfolding automerge_law_def by blast
  then show "case N nodeId of None \<Rightarrow> AM_GetNode L nodeId m = Inl NotAMap
      | Some n \<Rightarrow> \<exists>n'. AM_GetNode L nodeId m = Inr n' \<and> same_node n' n"
    by (cases "N nodeId") (auto simp: AM_GetNode_def g dest!: spec [of _ "the (N nodeId)"] split: sum.splits)
qed

lemma read_peers:
  assumes "automerge_law L" and "stores L m N" and "finite (dom N)"
  shows "distinct (AM_GetPeers L m)" and "set (AM_GetPeers L m) = {nodeId. \<exists>n. N nodeId = Some n \<and> an_Type n = PEER_ROLE}"
proof -
  note t = assms(2) [unfolded stores_def]
  have "dom (entries_of (value_at [''nodes''] (am_Root L (cm_doc m)))) = dom N"
    using t by (auto simp: tree_of_def dom_def simp del: value_at.simps(2))
  then have keys: "distinct (am_Keys L (cm_doc m) [''nodes''])" "set (am_Keys L (cm_doc m) [''nodes'']) = dom N"
    using assms(1,3) t by (simp_all add: automerge_law_def tree_of_def del: value_at.simps(2))
  then show "distinct (AM_GetPeers L m)" by (simp add: AM_GetPeers_def)
  have "AM_isPeer L nodeId m \<and> AM_isAlive L nodeId m \<longleftrightarrow> an_Type n = PEER_ROLE" if "N nodeId = Some n" for nodeId n
    using get_inner [OF assms(1) t that] get_node [OF assms(1) t, of nodeId] that
    by (simp add: AM_isPeer_def AM_isAlive_def is_str_def is_int64_def)
  then show "set (AM_GetPeers L m) = {nodeId. \<exists>n. N nodeId = Some n \<and> an_Type n = PEER_ROLE}"
    by (auto simp: AM_GetPeers_def keys)
qed

section \<open>Every run\<close>

primrec am_runs :: "('d, 'h, 's) automerge \<Rightarrow> am_op list \<Rightarrow> ('d, 'h) CrdtMeshManager \<Rightarrow> ('d, 'h) CrdtMeshManager" where
  "am_runs L [] m = m"
| "am_runs L (op # ops) m = am_runs L ops (fst (am_run L op m))"

text \<open>Nodes are removed only while they are there.\<close>

fun removes_known :: "am_op list \<Rightarrow> (string \<Rightarrow> MeshNodeCrdt option) \<Rightarrow> bool" where
  "removes_known [] N = True"
| "removes_known (op # ops) N \<longleftrightarrow>
     (case op of Remove_Node nodeId \<Rightarrow> N nodeId \<noteq> None | _ \<Rightarrow> True) \<and> removes_known ops (op_spec op N)"

lemma runs_refine:
  "automerge_law L \<Longrightarrow> stores L m N \<Longrightarrow> finite (dom N) \<Longrightarrow> removes_known ops N
    \<Longrightarrow> stores L (am_runs L ops m) (fold op_spec ops N) \<and> finite (dom (fold op_spec ops N))"
proof (induction ops arbitrary: m N)
  case (Cons op ops)
  from Cons.prems(4) have "\<forall>nodeId. op = Remove_Node nodeId \<longrightarrow> N nodeId \<noteq> None" by auto
  from run_refines [OF Cons.prems(1,2) this] have "stores L (fst (am_run L op m)) (op_spec op N)"
    by (auto simp: refines_def)
  moreover have "finite (dom (op_spec op N))" using Cons.prems(3) by (simp add: op_spec_def)
  ultimately show ?case using Cons.IH Cons.prems(1,4) by simp
qed simp

lemma new_stores: "automerge_law L \<Longrightarrow> stores L (NewCrdtNodeManager L meshId devName config) Map.empty"
  by (simp add: stores_def tree_of_def NewCrdtNodeManager_def automerge_law_def map_at_def)

text \<open>C39: the provider on top of automerge refines a map from identifiers to nodes. After any operations on a new
  mesh (nodes added and removed, while they are there; time stamps, descriptions, aliases, services
  and routes changed) the document holds exactly the nodes that the operations describe, each applied
  to the one node it names. A node is then found if and only if the map has it, with the data of the
  map up to the order of its routes and services; the peers are the nodes of that type, each once; and
  the next operation succeeds if its node, and what it deletes of the node, is there.\<close>

theorem automerge_refines_node_map:
  assumes "automerge_law L" and "removes_known ops Map.empty"
    and "m = am_runs L ops (NewCrdtNodeManager L meshId devName config)" and "N = fold op_spec ops Map.empty"
  shows "(AM_NodeExists L nodeId m \<longleftrightarrow> N nodeId \<noteq> None)
    \<and> (case N nodeId of None \<Rightarrow> AM_GetNode L nodeId m = Inl NotAMap
       | Some n \<Rightarrow> \<exists>n'. AM_GetNode L nodeId m = Inr n' \<and> same_node n' n)
    \<and> distinct (AM_GetPeers L m) \<and> set (AM_GetPeers L m) = {nodeId. \<exists>n. N nodeId = Some n \<and> an_Type n = PEER_ROLE}
    \<and> (op_ok op (N (op_node op)) \<longrightarrow> snd (am_run L op m) = None)"
proof -
  have s: "stores L m N" "finite (dom N)"
    using runs_refine [OF assms(1) new_stores [OF assms(1)] _ assms(2)] by (simp_all add: assms(3,4))
  have "snd (am_run L op m) = None" if "op_ok op (N (op_node op))"
  proof -
    have "\<forall>nodeId. op = Remove_Node nodeId \<longrightarrow> N nodeId \<noteq> None" using that by auto
    from run_refines [OF assms(1) s(1) this] that show ?thesis by (auto simp: refines_def)
  qed
  then show ?thesis using read_node [OF assms(1) s(1)] read_peers [OF assms(1) s] by simp
qed

text \<open>A library that keeps the tree itself, for the example.\<close>

definition str_of :: "am_value \<Rightarrow> string" where
  "str_of v = (case v of KindStr s \<Rightarrow> s | _ \<Rightarrow> [])"

definition decode_route :: "am_value \<Rightarrow> Route" where
  "decode_route v = \<lparr>rt_Destination = str_of (value_at [''destination''] v),
     rt_Path = (case value_at [''path''] v of KindList vs \<Rightarrow> map str_of vs | _ \<Rightarrow> [])\<rparr>"

definition decode_map :: "(am_value \<Rightarrow> 'a) \<Rightarrow> am_value \<Rightarrow> (string, 'a) gomap" where
  "decode_map f v = map (\<lambda>k. (k, f (value_at [k] v))) (sorted_list_of_set (dom (entries_of v)))"

definition decode_node :: "am_value \<Rightarrow> MeshNodeCrdt" where
  "decode_node v = \<lparr>an_HostEndpoint = str_of (value_at [''hostEndpoint''] v), an_WgEndpoint = str_of (value_at [''wgEndpoint''] v),
     an_PublicKey = str_of (value_at [''publicKey''] v), an_WgHost = str_of (value_at [''wgHost''] v),
     an_Timestamp = (case value_at [''timestamp''] v of KindInt64 t \<Rightarrow> t | _ \<Rightarrow> 0),
     an_Routes = decode_map decode_route (value_at [''routes''] v), an_Alias = str_of (value_at [''alias''] v),
     an_Description = str_of (value_at [''description''] v),
     an_Services = decode_map str_of (value_at [''services''] v), an_Type = str_of (value_at [''type''] v)\<rparr>"

definition tree_library :: "(am_value, nat, unit) automerge" where
  "tree_library = \<lparr>am_New = KindMap Map.empty,
     am_Get = (\<lambda>d p k. (value_at (p @ [k]) d, None)),
     am_Set = (\<lambda>d p k v. (put_at (p @ [k]) (Some v) d, None)),
     am_Delete = (\<lambda>d p k. (put_at (p @ [k]) None d, None)),
     am_Keys = (\<lambda>d p. sorted_list_of_set (dom (entries_of (value_at p d)))),
     am_Len = (\<lambda>d p. card (dom (entries_of (value_at p d)))), am_Root = id, am_Save = (\<lambda>_. []),
     am_Load = (\<lambda>_. Inl []), am_Changes = (\<lambda>_ _. Inr []), am_Heads = (\<lambda>_. []), am_ZeroHash = 0,
     am_AsNode = (\<lambda>v. Inr (decode_node v)), am_AsRoutes = (\<lambda>v. Inr (decode_map decode_route v)),
     am_AsMesh = (\<lambda>v. Inr \<lparr>mc_Nodes = decode_map decode_node (value_at [''nodes''] v)\<rparr>), am_NewSyncState = (\<lambda>_. ()),
     am_GenerateMessage = (\<lambda>_ _. ((), [], False)), am_ReceiveMessage = (\<lambda>_ d _. (d, (), None))\<rparr>"

lemma decode_encoded_map:
  assumes "\<And>x. f (g x) = x"
  shows "map_of (decode_map f (KindMap (\<lambda>k. map_option g (map_of m k)))) = map_of m"
proof
  fix k
  let ?v = "KindMap (\<lambda>k. map_option g (map_of m k))"
  have "dom (entries_of ?v) = dom (map_of m)" by (auto simp: dom_def)
  then have "map_of (decode_map f ?v) k = (if k \<in> dom (map_of m) then Some (f (value_at [k] ?v)) else None)"
    by (simp add: decode_map_def map_of_map_restrict finite_dom_map_of del: value_at.simps(2))
  then show "map_of (decode_map f ?v) k = map_of m k"
    using assms by (cases "map_of m k") auto
qed

lemma decode_encoded_node: "encode_node (decode_node (encode_node n)) = encode_node n"
proof -
  have "decode_route (encode_route r) = r" for r
    by (cases r) (simp add: decode_route_def encode_route_def str_of_def comp_def)
  then have "map_of (decode_map decode_route (encode_routes rs)) = map_of rs" for rs
    by (simp add: encode_routes_def decode_encoded_map)
  moreover have "map_of (decode_map str_of (encode_services s)) = map_of s" for s
    by (simp add: encode_services_def decode_encoded_map str_of_def)
  ultimately show ?thesis
    by (simp add: encode_node_def decode_node_def str_of_def) (simp add: encode_routes_def encode_services_def)
qed

lemma tree_library_law: "automerge_law tree_library"
  unfolding automerge_law_def using decode_encoded_node by (simp add: tree_library_def)

theorem automerge_refines_node_map_witness:
  "\<exists>n'. AM_GetNode tree_library ''k'' (am_runs tree_library
      [Add_Node 5 (decode_node KindVoid\<lparr>an_PublicKey := ''k''\<rparr>), Set_Alias ''k'' ''bob'', Add_Service ''k'' ''ssh'' ''22'',
       Add_Node 6 (decode_node KindVoid\<lparr>an_PublicKey := ''l''\<rparr>), Remove_Node ''l'']
      (NewCrdtNodeManager tree_library ''mesh'' ''wg0'' zeroConfiguration)) = Inr n'
    \<and> an_Alias n' = ''bob'' \<and> an_Timestamp n' = 5 \<and> map_of (an_Services n') = [''ssh'' \<mapsto> ''22'']"
proof -
  let ?ops = "[Add_Node 5 (decode_node KindVoid\<lparr>an_PublicKey := ''k''\<rparr>), Set_Alias ''k'' ''bob'', Add_Service ''k'' ''ssh'' ''22'',
       Add_Node 6 (decode_node KindVoid\<lparr>an_PublicKey := ''l''\<rparr>), Remove_Node ''l'']"
  let ?n = "decode_node KindVoid\<lparr>an_PublicKey := ''k'', an_Timestamp := 5, an_Routes := [], an_Alias := ''bob'',
    an_Services := [(''ssh'', ''22'')]\<rparr>"
  have spec: "fold op_spec ?ops Map.empty ''k'' = Some ?n" and known: "removes_known ?ops Map.empty"
    by (simp_all add: op_spec_def)
  obtain n' where "AM_GetNode tree_library ''k'' (am_runs tree_library ?ops
      (NewCrdtNodeManager tree_library ''mesh'' ''wg0'' zeroConfiguration)) = Inr n'" and same: "same_node n' ?n"
    using automerge_refines_node_map [OF tree_library_law known refl refl, of "''k''" "''mesh''" "''wg0''" zeroConfiguration]
    unfolding spec option.case by blast
  moreover have "an_Alias n' = ''bob'' \<and> an_Timestamp n' = 5 \<and> map_of (an_Services n') = [''ssh'' \<mapsto> ''22'']"
    using same by (cases n') (simp add: same_node_def decode_node_def)
  ultimately show ?thesis by blast
qed

end
