(* ===== verification/Ip.thy ===== *)
theory Ip
  imports Net
begin

text \<open>
  \<open>src/pkg/ip\<close>: the unique local address prefix of a mesh (\<open>ula.go\<close>) and the address of a node in it
  (\<open>cga.go\<close>), with SHA-1 as Go's \<open>crypto/sha1\<close> computes it. A key of the WireGuard library is its 32
  bytes. The random modifier is an argument, \<open>None\<close> when the source of randomness fails.

  The network of a mesh is built by printing the prefix and parsing the text again. The lemmas show
  that this returns the prefix, for every mesh identifier, so an address that is generated for a
  mesh lies in the network of that mesh.
\<close>

unbundle bit_operations_syntax

section \<open>SHA-1\<close>

definition be32 :: "u8 list \<Rightarrow> u32" where
  "be32 bs = fold (\<lambda>b w. push_bit 8 w OR ucast b) bs 0"

fun chunks :: "nat \<Rightarrow> 'a list \<Rightarrow> 'a list list" where
  "chunks n xs = (if n = 0 \<or> xs = [] then [] else take n xs # chunks n (drop n xs))"

declare chunks.simps [simp del]

definition be_bytes :: "nat \<Rightarrow> 'w::len word \<Rightarrow> u8 list" where
  "be_bytes n w = map (\<lambda>i. ucast (drop_bit (8 * (n - 1 - i)) w)) [0..<n]"

definition sha1_pad :: "u8 list \<Rightarrow> u8 list" where
  "sha1_pad msg =
     (let zeros = (119 - length msg mod 64) mod 64
      in msg @ [0x80] @ replicate zeros 0 @ be_bytes 8 (of_nat (8 * length msg) :: u64))"

definition sha1_schedule :: "u8 list \<Rightarrow> u32 list" where
  "sha1_schedule block = fold (\<lambda>i w.
     w @ [word_rotl 1 (w ! (i - 3) XOR w ! (i - 8) XOR w ! (i - 14) XOR w ! (i - 16))]) [16..<80]
     (map be32 (chunks 4 block))"

definition sha1_f :: "nat \<Rightarrow> u32 \<Rightarrow> u32 \<Rightarrow> u32 \<Rightarrow> u32 \<times> u32" where
  "sha1_f i b c d =
     (if i < 20 then ((b AND c) OR (NOT b AND d), 0x5A827999)
      else if i < 40 then (b XOR c XOR d, 0x6ED9EBA1)
      else if i < 60 then ((b AND c) OR (b AND d) OR (c AND d), 0x8F1BBCDC)
      else (b XOR c XOR d, 0xCA62C1D6))"

type_synonym sha1_state = "u32 \<times> u32 \<times> u32 \<times> u32 \<times> u32"

definition sha1_round :: "nat \<times> u32 \<Rightarrow> sha1_state \<Rightarrow> sha1_state" where
  "sha1_round = (\<lambda>(i, w) (a, b, c, d, e).
     case sha1_f i b c d of (f, k) \<Rightarrow> (word_rotl 5 a + f + e + k + w, a, word_rotl 30 b, c, d))"

definition sha1_block :: "u8 list \<Rightarrow> sha1_state \<Rightarrow> sha1_state" where
  "sha1_block block = (\<lambda>(h0, h1, h2, h3, h4).
     case fold sha1_round (zip [0..<80] (sha1_schedule block)) (h0, h1, h2, h3, h4) of
       (a, b, c, d, e) \<Rightarrow> (h0 + a, h1 + b, h2 + c, h3 + d, h4 + e))"

definition sha1_Sum :: "u8 list \<Rightarrow> u8 list" where
  "sha1_Sum msg =
     (case fold sha1_block (chunks 64 (sha1_pad msg)) (0x67452301, 0xEFCDAB89, 0x98BADCFE, 0x10325476, 0xC3D2E1F0) of
        (a, b, c, d, e) \<Rightarrow> be_bytes 4 a @ be_bytes 4 b @ be_bytes 4 c @ be_bytes 4 d @ be_bytes 4 e)"

lemma length_sha1_Sum [simp]: "length (sha1_Sum msg) = 20"
  by (simp add: sha1_Sum_def be_bytes_def split: prod.splits)

section \<open>The prefix of a mesh\<close>

definition getMeshPrefix :: "string \<Rightarrow> ip" where
  "getMeshPrefix meshId =
     (let s = sha1_Sum (map byte_of meshId)
      in [0xfd] @ map (\<lambda>i. s ! (i - 1)) [1..<7] @ [1] @ replicate 8 0)"

definition GetIPNet :: "string \<Rightarrow> IPNet option" where
  "GetIPNet meshId =
     (let ip = ip_string (getMeshPrefix meshId) @ ''/'' @ itoa 64
      in map_option snd (ParseCIDR ip))"

section \<open>The address of a node\<close>

record CgaParameters =
  cga_Modifier :: "u8 list"
  cga_SubnetPrefix :: "u8 list"
  cga_CollisionCount :: u8
  cga_PublicKey :: "u8 list"
  cga_interfaceId :: "u8 list"
  cga_flag :: u8

definition NewCga :: "u8 list option \<Rightarrow> u8 list \<Rightarrow> u8 \<Rightarrow> u8 list \<Rightarrow> CgaParameters option" where
  "NewCga random key collisionCount subnetPrefix =
     map_option (\<lambda>modifier. \<lparr>cga_Modifier = modifier, cga_SubnetPrefix = subnetPrefix,
       cga_CollisionCount = collisionCount, cga_PublicKey = key,
       cga_interfaceId = replicate 16 0, cga_flag = 0\<rparr>) random"

text \<open>The 58 bytes: modifier, nine zeros, key, collision count.\<close>

definition generateHash1 :: "CgaParameters \<Rightarrow> u8 list" where
  "generateHash1 c =
     take 8 (sha1_Sum (cga_Modifier c @ replicate 9 0 @ cga_PublicKey c @ [cga_CollisionCount c]))"

definition clearBit :: "int \<Rightarrow> nat \<Rightarrow> u8" where
  "clearBit num pos = (let mask = NOT (push_bit pos 1) in word_of_int (num AND mask))"

definition generateInterface :: "CgaParameters \<Rightarrow> u8 list" where
  "generateInterface c =
     (let interfaceId = generateHash1 c;
          interfaceId = interfaceId[0 := clearBit (uint (interfaceId ! 0)) 6];
          interfaceId = interfaceId[0 := clearBit (uint (interfaceId ! 1)) 7]
      in interfaceId)"

definition Cga_GetIP :: "CgaParameters \<Rightarrow> CgaParameters \<times> ip" where
  "Cga_GetIP c =
     (if cga_flag c = 1 then (c, cga_interfaceId c)
      else let bytes = generateInterface c;
               c = c\<lparr>cga_interfaceId := take 8 (cga_SubnetPrefix c) @ bytes, cga_flag := 1\<rparr>
           in (c, cga_interfaceId c))"

definition ULA_GetIP :: "u8 list option \<Rightarrow> u8 list \<Rightarrow> string \<Rightarrow> u8 \<Rightarrow> ip option" where
  "ULA_GetIP random key meshId collisionCount =
     map_option (snd \<circ> Cga_GetIP) (NewCga random key collisionCount (getMeshPrefix meshId))"

section \<open>Printing and parsing a prefix\<close>

lemma code_of_digit: "d < 16 \<Longrightarrow> code_of (digit_char d) = (if d < 10 then 48 + d else 87 + d)"
  by (simp add: digit_char_def)

lemma hex_val_digit: "d < 16 \<Longrightarrow> hex_val (digit_char d) = Some d"
  by (simp add: hex_val_def code_of_digit Let_def)

lemma hex_value_snoc: "hex_value (s @ [c]) = 16 * hex_value s + the (hex_val c)"
  by (simp add: hex_value_def)

lemma hex_value_in_base: "hex_value (in_base 16 n) = n"
proof (induction n rule: less_induct)
  case (less n)
  show ?case
    using less.IH [of "n div 16"]
    by (subst in_base.simps) (auto simp: hex_value_snoc hex_val_digit hex_value_def [of "[_]"])
qed

lemma hex_digits_in_base: "\<forall>c \<in> set (in_base 16 n). hex_val c \<noteq> None"
proof (induction n rule: less_induct)
  case (less n)
  show ?case
    using less.IH [of "n div 16"]
    by (subst in_base.simps) (auto simp: hex_val_digit)
qed

lemma in_base_not_Nil [simp]: "in_base b n \<noteq> []"
  by (subst in_base.simps) simp

lemma length_in_base: "n < 16 ^ Suc k \<Longrightarrow> length (in_base 16 n) \<le> Suc k"
proof (induction k arbitrary: n)
  case (Suc k)
  then have "n div 16 < 16 ^ Suc k" by (simp add: less_mult_imp_div_less)
  from Suc.IH [OF this] show ?case by (subst in_base.simps) auto
qed (subst in_base.simps, simp)

text \<open>Reading one printed group, followed by a separator.\<close>

lemma takeWhile_group:
  "hex_val c = None \<Longrightarrow> takeWhile (\<lambda>c. hex_val c \<noteq> None) (in_base 16 n @ c # rest) = in_base 16 n"
  using hex_digits_in_base [of n] by (subst takeWhile_append2) auto

lemma hex_val_colon: "hex_val (CHR '':'') = None" "hex_val (CHR ''.'') = None"
  by (simp_all add: hex_val_def)

lemma group_bytes:
  "of_nat ((256 * unat h + unat l) div 256) = (h :: u8)"
  "of_nat ((256 * unat h + unat l) mod 256) = (l :: u8)"
  "256 * unat h + unat l < 16 ^ Suc 3"
proof -
  have "unat h < 256" "unat l < 256"
    using unsigned_less [where ?'a = nat, of h] unsigned_less [where ?'a = nat, of l] by simp_all
  then show "of_nat ((256 * unat h + unat l) div 256) = h" "of_nat ((256 * unat h + unat l) mod 256) = l"
    "256 * unat h + unat l < 16 ^ Suc 3" by simp_all
qed

text \<open>One round of the loop on a group that a colon ends.\<close>

lemma parse_round:
  assumes "\<forall>c \<in> set g. hex_val c \<noteq> None" and "g \<noteq> []" and "length g \<le> 4" and "length bs < 16"
    and "bs' = bs @ [of_nat (hex_value g div 256), of_nat (hex_value g mod 256)]"
  shows "parseIPv6_loop (g @ CHR '':'' # s) bs e =
    (if s = [] then None
     else if hd s \<noteq> CHR '':'' then parseIPv6_loop s bs' e
     else if e \<noteq> None then None
     else if tl s = [] then Some ([], bs', Some (length bs'))
     else parseIPv6_loop (tl s) bs' (Some (length bs')))"
proof -
  have tw: "takeWhile (\<lambda>c. hex_val c \<noteq> None) (g @ CHR '':'' # s) = g"
    using assms(1) hex_val_colon by (subst takeWhile_append2) auto
  show ?thesis
    unfolding parseIPv6_loop.simps [of "g @ CHR '':'' # s"] tw Let_def
    using assms by simp
qed

lemma parse_group_round:
  assumes "length bs < 16"
  shows "parseIPv6_loop (in_base 16 (256 * unat (h :: u8) + unat (l :: u8)) @ CHR '':'' # s) bs e =
    (if s = [] then None
     else if hd s \<noteq> CHR '':'' then parseIPv6_loop s (bs @ [h, l]) e
     else if e \<noteq> None then None
     else if tl s = [] then Some ([], bs @ [h, l], Some (length (bs @ [h, l])))
     else parseIPv6_loop (tl s) (bs @ [h, l]) (Some (length (bs @ [h, l]))))"
proof -
  let ?g = "in_base 16 (256 * unat h + unat l)"
  have "bs @ [h, l] = bs @ [of_nat (hex_value ?g div 256), of_nat (hex_value ?g mod 256)]"
    by (simp only: hex_value_in_base group_bytes)
  moreover have "length ?g \<le> 4" using length_in_base [OF group_bytes(3), of h l] by simp
  ultimately show ?thesis
    using assms by (intro parse_round hex_digits_in_base in_base_not_Nil)
qed

lemma parse_group:
  "length bs < 16 \<Longrightarrow> s \<noteq> [] \<Longrightarrow> hd s \<noteq> CHR '':''
    \<Longrightarrow> parseIPv6_loop (in_base 16 (256 * unat (h :: u8) + unat (l :: u8)) @ CHR '':'' # s) bs e
      = parseIPv6_loop s (bs @ [h, l]) e"
  by (simp add: parse_group_round)

lemma parse_last_group:
  "length bs < 16 \<Longrightarrow> parseIPv6_loop (in_base 16 (256 * unat (h :: u8) + unat (l :: u8)) @ ''::'') bs None
    = Some ([], bs @ [h, l], Some (length bs + 2))"
  using parse_group_round [of bs h l "'':''" None] by simp

lemma hd_in_base: "hd (in_base 16 n) \<noteq> CHR '':''"
proof -
  have "hex_val (hd (in_base 16 n)) \<noteq> None" using hex_digits_in_base [of n] by simp
  then show ?thesis using hex_val_colon(1) by auto
qed

lemma colon_notin_in_base: "c \<in> set (in_base 16 n) \<Longrightarrow> c \<noteq> CHR '':'' \<and> c \<noteq> CHR ''.'' \<and> c \<noteq> CHR ''%'' \<and> c \<noteq> CHR ''/''"
  using hex_digits_in_base [of n] by (auto simp: hex_val_def)

abbreviation grp :: "u8 \<Rightarrow> u8 \<Rightarrow> nat" where
  "grp h l \<equiv> 256 * unat h + unat l"

definition prefix_text :: "u8 \<Rightarrow> u8 \<Rightarrow> u8 \<Rightarrow> u8 \<Rightarrow> u8 \<Rightarrow> u8 \<Rightarrow> u8 \<Rightarrow> u8 \<Rightarrow> string" where
  "prefix_text a b c d e f g h = in_base 16 (grp a b) @ CHR '':'' # in_base 16 (grp c d)
     @ CHR '':'' # in_base 16 (grp e f) @ CHR '':'' # in_base 16 (grp g h) @ ''::''"

lemma prefix_text_chars: "c' \<in> set (prefix_text a b c d e f g h) \<Longrightarrow> c' \<noteq> CHR ''%'' \<and> c' \<noteq> CHR ''/''"
  unfolding prefix_text_def using colon_notin_in_base by (auto simp: disj_imp)

lemma parse_prefix_text:
  "ParseAddr (prefix_text a b c d e f g h) = Some ([a, b, c, d, e, f, g, h] @ replicate 8 0)"
proof -
  let ?s = "prefix_text a b c d e f g h"
  have loop: "parseIPv6_loop ?s [] None = Some ([], [a, b, c, d, e, f, g, h], Some 8)"
    by (simp add: prefix_text_def parse_group parse_last_group hd_in_base)
  have "CHR ''%'' \<notin> set ?s" using prefix_text_chars by blast
  moreover have "take 2 ?s \<noteq> ''::''"
    using hd_in_base [of "grp a b"]
    by (cases "in_base 16 (grp a b)") (auto simp: prefix_text_def)
  ultimately have six: "parseIPv6 ?s = Some ([a, b, c, d, e, f, g, h] @ replicate 8 0)"
    using loop by (simp add: parseIPv6_def Let_def)
  have "dropWhile (\<lambda>c. c \<notin> set ''.:%'') (in_base 16 (grp a b) @ CHR '':'' # r) = CHR '':'' # r" for r
    using colon_notin_in_base [of _ "grp a b"] by (subst dropWhile_append2) auto
  then have "\<exists>r. dropWhile (\<lambda>c. c \<notin> set ''.:%'') ?s = CHR '':'' # r"
    by (auto simp: prefix_text_def)
  with six show ?thesis by (auto simp: ParseAddr_def)
qed

lemma prefix_string:
  assumes "unat a \<noteq> 0" and "unat h \<noteq> 0"
  shows "ip_string ([a, b, c, d, e, f, g, h] @ replicate 8 0) = prefix_text a b c d e f g h"
proof -
  let ?p = "[a, b, c, d, e, f, g, h] @ replicate 8 (0 :: u8)"
  have gs: "groups ?p = [grp a b, grp c d, grp e f, grp g h, 0, 0, 0, 0]"
    by (simp add: numeral_eq_Suc)
  have ends: "grp a b \<noteq> 0" "grp g h \<noteq> 0" using assms by simp_all
  have run: "zero_run [x, y, z, w, 0, 0, 0, 0] = (4, 8)" if "x \<noteq> 0" "w \<noteq> 0" for x y z w :: nat
    using that by (cases "y = 0"; cases "z = 0") (simp_all add: zero_run_def upt_rec Let_def)
  have "To4 ?p = []" using assms(1) by (auto simp: To4_def v4InV6Prefix_def numeral_eq_Suc)
  then have "ip_string ?p = print_groups 4 8 0 [grp a b, grp c d, grp e f, grp g h, 0, 0, 0, 0]"
    unfolding ip_string_def gs run [OF ends] by simp
  also have "\<dots> = prefix_text a b c d e f g h" by (simp add: prefix_text_def)
  finally show ?thesis .
qed

lemma mask64: "CIDRMask 64 128 = replicate 8 255 @ replicate 8 0"
  by code_simp

lemma itoa_64: "itoa 64 = ''64''"
  by code_simp

lemma and_255 [simp]: "x AND 255 = (x :: u8)"
proof -
  have "(255 :: u8) = - 1" by simp
  then show ?thesis by (metis and.right_neutral)
qed

lemma ParseCIDR_prefix:
  assumes "p = [a, b, c, d, e, f, g, h]" and "unat a \<noteq> 0" and "unat h \<noteq> 0"
  shows "ParseCIDR (ip_string (p @ replicate 8 0) @ ''/'' @ itoa 64) =
    Some (p @ replicate 8 0, \<lparr>net_IP = p @ replicate 8 0, net_Mask = replicate 8 255 @ replicate 8 0\<rparr>)"
proof -
  let ?t = "prefix_text a b c d e f g h" let ?p = "p @ replicate 8 (0 :: u8)"
  have str: "ip_string ?p = ?t" using prefix_string [OF assms(2,3)] assms(1) by simp
  have split: "takeWhile (\<lambda>c. c \<noteq> CHR ''/'') (?t @ CHR ''/'' # r) = ?t"
    "dropWhile (\<lambda>c. c \<noteq> CHR ''/'') (?t @ CHR ''/'' # r) = CHR ''/'' # r" for r
    using prefix_text_chars [of _ a b c d e f g h]
    by (subst takeWhile_append2 dropWhile_append2; auto)+
  have addr: "ParseAddr ?t = Some ?p" using parse_prefix_text assms(1) by simp
  have num: "dec_value ''64'' = 64" "is_dec (CHR ''6'')" "is_dec (CHR ''4'')"
    by (simp_all add: dec_value_def is_dec_def)
  have len: "length p = 8" using assms(1) by simp
  have "ip_mask ?p (replicate 8 255 @ replicate 8 0) = ?p"
    using assms(1) by (simp add: ip_mask_def numeral_eq_Suc)
  then show ?thesis
    unfolding str itoa_64 ParseCIDR_def by (simp add: split addr num len mask64 Let_def)
qed

section \<open>Addresses and networks\<close>

abbreviation mesh_net :: "string \<Rightarrow> IPNet" where
  "mesh_net meshId \<equiv> \<lparr>net_IP = getMeshPrefix meshId, net_Mask = replicate 8 255 @ replicate 8 0\<rparr>"

lemma mesh_prefix_bytes:
  "\<exists>b c d e f g. getMeshPrefix meshId = [0xfd, b, c, d, e, f, g, 1] @ replicate 8 0"
  by (simp add: getMeshPrefix_def Let_def upt_rec)

lemma GetIPNet_eq: "GetIPNet meshId = Some (mesh_net meshId)"
proof -
  obtain b c d e f g where p: "getMeshPrefix meshId = [0xfd, b, c, d, e, f, g, 1] @ replicate 8 0"
    using mesh_prefix_bytes by blast
  have "unat (0xfd :: u8) \<noteq> 0" "unat (1 :: u8) \<noteq> 0" by simp_all
  from ParseCIDR_prefix [OF refl this, of b c d e f g] show ?thesis
    by (simp only: GetIPNet_def p Let_def option.map snd_conv)
qed

lemma zip_mask:
  "length x = 8 \<Longrightarrow> length y = 8 \<Longrightarrow>
    list_all (\<lambda>(p, q, r). and p r = and q r) (zip x (zip y (replicate 8 (255 :: u8)))) \<longleftrightarrow> x = y"
  by (simp add: list_all_length list_eq_iff_nth_eq)

lemma zip_mask0:
  "list_all (\<lambda>(p, q, r). and p r = and q r) (zip x (zip y (replicate 8 (0 :: u8))))"
  by (auto simp: list_all_iff dest!: set_zip_rightD)

lemma mesh_net_contains:
  assumes "length a = 16" and "To4 a = []"
  shows "ipnet_contains (mesh_net meshId) a \<longleftrightarrow> take 8 a = take 8 (getMeshPrefix meshId)"
proof -
  obtain b c d e f g where p: "getMeshPrefix meshId = [0xfd, b, c, d, e, f, g, 1] @ replicate 8 0"
    using mesh_prefix_bytes by blast
  have len: "length (getMeshPrefix meshId) = 16" using p by simp
  have "To4 (getMeshPrefix meshId) = []" by (simp add: p To4_def v4InV6Prefix_def numeral_eq_Suc)
  then have "ipnet_contains (mesh_net meshId) a \<longleftrightarrow>
    list_all (\<lambda>(p, q, r). and p r = and q r)
      (zip (take 8 (getMeshPrefix meshId) @ drop 8 (getMeshPrefix meshId))
        (zip (take 8 a @ drop 8 a) (replicate 8 255 @ replicate 8 0)))"
    using assms len by (simp add: ipnet_contains_def networkNumberAndMask_def Let_def)
  also have "\<dots> \<longleftrightarrow> take 8 (getMeshPrefix meshId) = take 8 a"
    using assms len by (simp add: zip_append zip_mask zip_mask0 del: append_take_drop_id)
  finally show ?thesis by auto
qed

lemma clearBit_7: "clearBit (uint (x :: u8)) 7 = x AND 0x7f"
proof (rule bit_word_eqI)
  fix n assume "n < LENGTH(8)"
  then have "n = 0 \<or> n = 1 \<or> n = 2 \<or> n = 3 \<or> n = 4 \<or> n = 5 \<or> n = 6 \<or> n = 7" by auto
  then show "bit (clearBit (uint x) 7) n = bit (x AND 0x7f) n"
    by (elim disjE) (simp_all add: clearBit_def bit_simps Let_def)
qed

text \<open>Printing the prefix of a mesh and parsing it back gives the network with that prefix and a
  64-bit mask, for every mesh identifier. The address generated for a node of the mesh, for every
  key, collision count and random modifier, has 16 bytes and lies in that network, and a network
  contains an IPv6 address exactly when the first eight bytes agree. (The first byte of the
  interface identifier is a copy of the second one without its top bit.)\<close>

lemma node_address_lies_in_mesh_network:
  "\<exists>net a. GetIPNet meshId = Some net \<and> net_IP net = getMeshPrefix meshId
    \<and> ULA_GetIP (Some modifier) key meshId collisionCount = Some a
    \<and> length a = 16 \<and> ipnet_contains net a
    \<and> (length b = 16 \<and> To4 b = [] \<longrightarrow> ipnet_contains net b = (take 8 b = take 8 (getMeshPrefix meshId)))
    \<and> a ! 8 = a ! 9 AND 0x7f"
proof -
  define c where "c = \<lparr>cga_Modifier = modifier, cga_SubnetPrefix = getMeshPrefix meshId,
       cga_CollisionCount = collisionCount, cga_PublicKey = key, cga_interfaceId = replicate 16 0, cga_flag = 0\<rparr>"
  define a where "a = take 8 (getMeshPrefix meshId) @ generateInterface c"
  have h: "length (generateHash1 c) = 8" by (simp add: generateHash1_def)
  have gen: "length (generateInterface c) = 8" by (simp add: generateInterface_def Let_def h)
  have get: "ULA_GetIP (Some modifier) key meshId collisionCount = Some a"
    by (simp add: ULA_GetIP_def NewCga_def Cga_GetIP_def Let_def a_def c_def)
  obtain b' c' d e f g where p: "getMeshPrefix meshId = [0xfd, b', c', d, e, f, g, 1] @ replicate 8 0"
    using mesh_prefix_bytes by blast
  have len: "length a = 16" by (simp add: a_def p gen)
  have to4: "To4 a = []"
    by (simp add: a_def p To4_def v4InV6Prefix_def numeral_eq_Suc)
  have "ipnet_contains (mesh_net meshId) a"
    by (subst mesh_net_contains [OF len to4]) (simp add: a_def p)
  moreover have "a ! 8 = a ! 9 AND 0x7f"
    by (simp add: a_def p nth_append generateInterface_def Let_def h clearBit_7)
  ultimately show ?thesis
    using get len GetIPNet_eq [of meshId] mesh_net_contains [of b meshId] by auto
qed


end
