(* ===== verification/Ip_Text.thy ===== *)
theory Ip_Text
  imports Ip Datastore
begin

text \<open>
  The text of an IPv6 address, as nodes exchange and store it: \<open>IP.String\<close> of any sixteen bytes that
  are not an IPv4 address parses back to those bytes, whatever run of zero groups is shortened. The
  address \<open>src/pkg/crdt/factory.go\<close> writes into a node is therefore the one the routes, the interface
  and the resolver read out of it.
\<close>

section \<open>Groups and bytes\<close>

definition bytes_of :: "nat list \<Rightarrow> u8 list" where
  "bytes_of gs = concat (map (\<lambda>g. [of_nat (g div 256), of_nat (g mod 256)]) gs)"

abbreviation group_text :: "nat list \<Rightarrow> string" where
  "group_text gs \<equiv> join_with (CHR '':'') (map (in_base 16) gs)"

lemma bytes_of_simps [simp]:
  "bytes_of [] = []"
  "bytes_of (g # gs) = of_nat (g div 256) # of_nat (g mod 256) # bytes_of gs"
  "bytes_of (gs @ hs) = bytes_of gs @ bytes_of hs"
  by (simp_all add: bytes_of_def)

lemma length_bytes_of [simp]: "length (bytes_of gs) = 2 * length gs"
  by (induction gs) auto

lemma bytes_of_zeros [simp]: "bytes_of (replicate n 0) = replicate (2 * n) 0"
  by (induction n) auto

lemma groups_roundtrip: "even (length a) \<Longrightarrow> bytes_of (groups a) = a"
proof (induction a rule: groups.induct)
  case (1 h l rest)
  then show ?case by (simp only: groups.simps bytes_of_simps group_bytes length_Cons even_Suc_Suc_iff)
qed auto

lemma length_groups: "length (groups a) = length a div 2"
  by (induction a rule: groups.induct) auto

lemma groups_bound: "g \<in> set (groups a) \<Longrightarrow> g < 16 ^ Suc 3"
proof (induction a rule: groups.induct)
  case (1 h l rest)
  then show ?case using group_bytes(3) [of h l] by auto
qed auto

section \<open>The shortened run\<close>

definition is_run :: "nat list \<Rightarrow> nat \<times> nat \<Rightarrow> bool" where
  "is_run gs r \<longleftrightarrow> (case r of (start, stop) \<Rightarrow>
     start = 255 \<and> stop = 255 \<or> start < stop \<and> stop \<le> length gs \<and> (\<forall>i. start \<le> i \<and> i < stop \<longrightarrow> gs ! i = 0))"

lemma zeros_from:
  assumes "j < length (takeWhile (\<lambda>g. g = 0) (drop i gs))"
  shows "gs ! (i + j) = (0 :: nat)" and "i + length (takeWhile (\<lambda>g. g = 0) (drop i gs)) \<le> length gs"
proof -
  have le: "length (takeWhile (\<lambda>g. g = 0) (drop i gs)) \<le> length (drop i gs)" by (rule length_takeWhile_le)
  then show "i + length (takeWhile (\<lambda>g. g = 0) (drop i gs)) \<le> length gs" using assms by simp
  have "takeWhile (\<lambda>g. g = 0) (drop i gs) ! j = 0" using assms nth_mem set_takeWhileD by fastforce
  then show "gs ! (i + j) = 0" using assms le by (simp add: takeWhile_nth)
qed

lemma zero_run_is_run: "is_run gs (zero_run gs)"
proof -
  have "is_run gs (fold (\<lambda>i (start, stop).
     let l = length (takeWhile (\<lambda>g. g = 0) (drop i gs))
     in if 2 \<le> l \<and> stop - start < l then (i, i + l) else (start, stop)) is r)" if "is_run gs r" for "is" r
    using that
  proof (induction "is" arbitrary: r)
    case (Cons i "is")
    let ?l = "length (takeWhile (\<lambda>g. g = 0) (drop i gs))"
    have "is_run gs (i, i + ?l)" if "2 \<le> ?l"
    proof -
      have "gs ! k = 0" if "i \<le> k" "k < i + ?l" for k
        using zeros_from(1) [of "k - i" i gs] that by simp
      moreover have "i + ?l \<le> length gs" using zeros_from(2) [of 0 i gs] that by (cases "takeWhile (\<lambda>g. g = 0) (drop i gs)") auto
      ultimately show ?thesis using that by (force simp: is_run_def)
    qed
    then show ?case using Cons by (auto simp: Let_def split: prod.splits)
  qed simp
  then show ?thesis unfolding zero_run_def by (simp add: is_run_def)
qed

text \<open>Where the run lies, the groups are zeros.\<close>

lemma is_run_split:
  assumes "is_run gs (start, stop)" and "start \<noteq> 255"
  shows "gs = take start gs @ replicate (stop - start) 0 @ drop stop gs" and "start < stop" and "stop \<le> length gs"
proof -
  from assms show le: "start < stop" "stop \<le> length gs" by (auto simp: is_run_def)
  have "take (stop - start) (drop start gs) = replicate (stop - start) 0"
    using assms le by (intro nth_equalityI) (auto simp: is_run_def)
  then have "drop start gs = replicate (stop - start) 0 @ drop stop gs"
    using le append_take_drop_id [of "stop - start" "drop start gs"] by simp
  then show "gs = take start gs @ replicate (stop - start) 0 @ drop stop gs"
    by (metis append_take_drop_id)
qed

section \<open>Printing\<close>

definition colon_groups :: "nat list \<Rightarrow> string" where
  "colon_groups gs = concat (map (\<lambda>g. CHR '':'' # in_base 16 g) gs)"

lemma colon_groups_simps [simp]:
  "colon_groups [] = []" "colon_groups (g # gs) = CHR '':'' # in_base 16 g @ colon_groups gs"
  by (simp_all add: colon_groups_def)

lemma group_text_Nil: "group_text [] = []"
  by simp

lemma group_text_Cons: "group_text (g # gs) = in_base 16 g @ colon_groups gs"
  by (induction gs arbitrary: g) simp_all

lemma print_after:
  "0 < i \<Longrightarrow> start < i \<or> i + length gs \<le> start \<Longrightarrow> print_groups start stop i gs = colon_groups gs"
  by (induction gs arbitrary: i) auto

lemma print_rest:
  "start < stop \<Longrightarrow> (case xs of [] \<Rightarrow> [] | g # gs \<Rightarrow> in_base 16 g @ print_groups start stop (Suc stop) gs)
    = group_text xs"
  by (cases xs) (simp_all add: print_after group_text_Nil group_text_Cons del: join_with.simps list.map)

lemma print_to_run:
  "0 < i \<Longrightarrow> i \<le> start \<Longrightarrow> start < stop \<Longrightarrow> stop \<le> i + length gs
    \<Longrightarrow> print_groups start stop i gs = colon_groups (take (start - i) gs) @ ''::'' @ group_text (drop (stop - i) gs)"
proof (induction gs arbitrary: i)
  case (Cons g gs)
  show ?case
  proof (cases "i = start")
    case True
    then show ?thesis using Cons.prems by (simp add: print_rest del: drop_Cons_numeral)
  next
    case False
    then have "start - i = Suc (start - Suc i)" "stop - i = Suc (stop - Suc i)" using Cons.prems by simp_all
    then show ?thesis using Cons False by simp
  qed
qed simp

lemma print_groups_eq:
  assumes "is_run gs (start, stop)" and "length gs \<le> 8"
  shows "print_groups start stop 0 gs =
    (if start = 255 then group_text gs else group_text (take start gs) @ ''::'' @ group_text (drop stop gs))"
proof (cases gs)
  case Nil
  then show ?thesis using assms by (auto simp: is_run_def)
next
  case (Cons g gs')
  show ?thesis
  proof (cases "start = 255")
    case True
    then show ?thesis using assms Cons by (simp add: print_after group_text_Cons del: join_with.simps list.map)
  next
    case False
    note run = is_run_split(2,3) [OF assms(1) False]
    show ?thesis
    proof (cases start)
      case 0
      then show ?thesis using Cons run by (simp add: print_rest)
    next
      case (Suc n)
      then obtain m where "stop = Suc m" "n < m" using run(1) by (cases stop) auto
      then show ?thesis using Cons Suc run False
        by (simp add: print_to_run group_text_Cons del: join_with.simps list.map)
    qed
  qed
qed

section \<open>Parsing\<close>

text \<open>The groups of an address are small enough for four digits.\<close>

abbreviation small :: "nat list \<Rightarrow> bool" where
  "small gs \<equiv> \<forall>g \<in> set gs. g < 16 ^ Suc 3"

lemma group_last:
  assumes "g < 16 ^ Suc 3" and "length bs < 16"
  shows "parseIPv6_loop (in_base 16 g) bs e = Some ([], bs @ bytes_of [g], e)"
proof -
  have tw: "takeWhile (\<lambda>c. hex_val c \<noteq> None) (in_base 16 g) = in_base 16 g"
    using hex_digits_in_base [of g] takeWhile_eq_all_conv by blast
  have "length (in_base 16 g) \<le> 4" using length_in_base [OF assms(1)] by simp
  then show ?thesis
    unfolding parseIPv6_loop.simps [of "in_base 16 g"] tw Let_def
    using assms(2) by (simp add: hex_value_in_base)
qed

lemma group_round:
  assumes "g < 16 ^ Suc 3" and "length bs < 16"
  shows "parseIPv6_loop (in_base 16 g @ CHR '':'' # s) bs e =
    (if s = [] then None
     else if hd s \<noteq> CHR '':'' then parseIPv6_loop s (bs @ bytes_of [g]) e
     else if e \<noteq> None then None
     else if tl s = [] then Some ([], bs @ bytes_of [g], Some (length bs + 2))
     else parseIPv6_loop (tl s) (bs @ bytes_of [g]) (Some (length bs + 2)))"
proof -
  have "length (in_base 16 g) \<le> 4" using length_in_base [OF assms(1)] by simp
  then show ?thesis
    using assms(2) parse_round [OF hex_digits_in_base in_base_not_Nil _ assms(2) refl, of g s e]
    by (simp add: hex_value_in_base)
qed

lemma group_text_hd: "gs \<noteq> [] \<Longrightarrow> group_text gs @ r \<noteq> [] \<and> hd (group_text gs @ r) \<noteq> CHR '':''"
  by (cases gs) (simp_all add: group_text_Cons hd_in_base del: join_with.simps list.map)

text \<open>Groups up to the end of the text.\<close>

lemma parse_groups:
  "small gs \<Longrightarrow> gs \<noteq> [] \<Longrightarrow> length bs + 2 * length gs \<le> 16
    \<Longrightarrow> parseIPv6_loop (group_text gs) bs e = Some ([], bs @ bytes_of gs, e)"
proof (induction gs arbitrary: bs)
  case (Cons g gs)
  show ?case
  proof (cases gs)
    case Nil
    then show ?thesis using Cons.prems group_last [of g bs e] by simp
  next
    case (Cons g' gs')
    then have "group_text (g # gs) = in_base 16 g @ CHR '':'' # group_text gs" by simp
    then show ?thesis
      using Cons.IH [of "bs @ bytes_of [g]"] Cons.prems Cons group_text_hd [of gs "[]"]
      by (simp add: group_round del: join_with.simps list.map)
  qed
qed simp

text \<open>Groups up to the double colon.\<close>

lemma parse_groups_run:
  "small gs \<Longrightarrow> gs \<noteq> [] \<Longrightarrow> length bs + 2 * length gs \<le> 16
    \<Longrightarrow> parseIPv6_loop (group_text gs @ ''::'' @ t) bs None =
      (if t = [] then Some ([], bs @ bytes_of gs, Some (length bs + 2 * length gs))
       else parseIPv6_loop t (bs @ bytes_of gs) (Some (length bs + 2 * length gs)))"
proof (induction gs arbitrary: bs)
  case (Cons g gs)
  show ?case
  proof (cases gs)
    case Nil
    then show ?thesis using Cons.prems group_round [of g bs "CHR '':'' # t" None] by simp
  next
    case (Cons g' gs')
    then have "group_text (g # gs) @ ''::'' @ t = in_base 16 g @ CHR '':'' # (group_text gs @ ''::'' @ t)" by simp
    then show ?thesis
      using Cons.IH [of "bs @ bytes_of [g]"] Cons.prems Cons group_text_hd [of gs "''::'' @ t"]
      by (simp add: group_round del: join_with.simps list.map)
  qed
qed simp

text \<open>Only digits and colons occur, and a colon does.\<close>

lemma group_text_chars: "c \<in> set (group_text gs) \<Longrightarrow> c \<noteq> CHR ''.'' \<and> c \<noteq> CHR ''%'' \<and> c \<noteq> CHR ''/''"
proof (induction gs rule: induct_list012)
  case (3 g g' gs)
  then show ?case using colon_notin_in_base [of c g] by auto
qed (auto dest: colon_notin_in_base)

lemma no_leading_run: "gs \<noteq> [] \<Longrightarrow> take 2 (group_text gs @ r) \<noteq> ''::''"
  using group_text_hd [of gs r] by (cases "group_text gs @ r") auto

lemma ParseAddr_colon:
  assumes "CHR '':'' \<in> set s" and "CHR ''.'' \<notin> set s" and "CHR ''%'' \<notin> set s"
  shows "ParseAddr s = parseIPv6 s"
proof -
  from assms(1) obtain c r where d: "dropWhile (\<lambda>c. c \<notin> set ''.:%'') s = c # r"
    by (cases "dropWhile (\<lambda>c. c \<notin> set ''.:%'') s") (auto simp: dropWhile_eq_Nil_conv)
  then have "c \<in> set s" by (metis list.set_intros(1) set_dropWhileD)
  moreover have "c \<in> set ''.:%''" using d hd_dropWhile [of "\<lambda>c. c \<notin> set ''.:%''" s] by simp
  ultimately have "c = CHR '':''" using assms by auto
  with d show ?thesis by (simp add: ParseAddr_def)
qed

lemma parse_full:
  assumes "small gs" and "length gs = 8"
  shows "parseIPv6 (group_text gs) = Some (bytes_of gs)"
proof -
  have "gs \<noteq> []" using assms by auto
  moreover have "CHR ''%'' \<notin> set (group_text gs)" using group_text_chars by blast
  ultimately show ?thesis
    using assms parse_groups [of gs "[]" None] no_leading_run [of gs "[]"]
    by (simp add: parseIPv6_def Let_def del: join_with.simps)
qed

lemma parse_shortened:
  assumes "small (xs @ ys)" and "length xs + length ys < 8"
  shows "parseIPv6 (group_text xs @ ''::'' @ group_text ys)
    = Some (bytes_of xs @ replicate (16 - 2 * (length xs + length ys)) 0 @ bytes_of ys)"
proof -
  have chars: "CHR ''%'' \<notin> set (group_text xs)" "CHR ''%'' \<notin> set (group_text ys)"
    using group_text_chars by blast+
  have ys: "parseIPv6_loop (group_text ys) (bytes_of xs) e = Some ([], bytes_of xs @ bytes_of ys, e)" if "ys \<noteq> []" for e
    using that assms by (intro parse_groups) auto
  have nil: "group_text ys = [] \<longleftrightarrow> ys = []"
    by (cases ys) (simp_all add: group_text_Nil group_text_Cons del: join_with.simps list.map)
  show ?thesis
  proof (cases "xs = []")
    case True
    then show ?thesis
      using chars ys assms nil by (cases "ys = []") (simp_all add: parseIPv6_def Let_def del: join_with.simps(2,3))
  next
    case False
    have "parseIPv6_loop (group_text xs @ ''::'' @ group_text ys) [] None
      = Some ([], bytes_of xs @ bytes_of ys, Some (2 * length xs))"
      using False assms ys nil parse_groups_run [of xs "[]" "group_text ys"] by (cases "ys = []") simp_all
    then show ?thesis
      using chars assms no_leading_run [OF False, of "''::'' @ group_text ys"]
      by (simp add: parseIPv6_def Let_def del: join_with.simps)
  qed
qed

lemma address_text_roundtrip:
  assumes "length a = 16" and "To4 a = []"
  shows "ParseAddr (ip_string a) = Some a"
proof -
  let ?gs = "groups a"
  have sm: "small ?gs" and len: "length ?gs = 8" and bytes: "bytes_of ?gs = a"
    using groups_bound groups_roundtrip assms(1) by (auto simp: length_groups)
  obtain start stop where r: "zero_run ?gs = (start, stop)" by force
  then have run: "is_run ?gs (start, stop)" using zero_run_is_run [of ?gs] by simp
  have str: "ip_string a = print_groups start stop 0 ?gs"
    using assms r by (auto simp: ip_string_def)
  show ?thesis
  proof (cases "start = 255")
    case True
    have "?gs = hd ?gs # hd (tl ?gs) # tl (tl ?gs)" using len by (cases ?gs; cases "tl ?gs") auto
    then have "CHR '':'' \<in> set (group_text ?gs)"
      by (metis group_text_Cons colon_groups_simps(2) in_set_conv_decomp append_Cons)
    then have "ParseAddr (group_text ?gs) = parseIPv6 (group_text ?gs)"
      using group_text_chars by (intro ParseAddr_colon) blast+
    then show ?thesis using True print_groups_eq [OF run] len sm bytes by (simp add: str parse_full del: join_with.simps)
  next
    case False
    note split = is_run_split [OF run False]
    let ?xs = "take start ?gs" and ?ys = "drop stop ?gs"
    have "small (?xs @ ?ys)" using sm in_set_takeD in_set_dropD by (metis Un_iff set_append)
    moreover have "length ?xs + length ?ys < 8" and rep: "16 - 2 * (length ?xs + length ?ys) = 2 * (stop - start)"
      using split(2,3) len by auto
    ultimately have "parseIPv6 (group_text ?xs @ ''::'' @ group_text ?ys)
      = Some (bytes_of ?xs @ replicate (2 * (stop - start)) 0 @ bytes_of ?ys)"
      using parse_shortened by metis
    also have "bytes_of ?xs @ replicate (2 * (stop - start)) 0 @ bytes_of ?ys = bytes_of ?gs"
      by (metis split(1) bytes_of_simps(3) bytes_of_zeros)
    finally have "parseIPv6 (ip_string a) = Some a"
      using print_groups_eq [OF run] len False by (simp add: str bytes del: join_with.simps)
    moreover have "ip_string a = group_text ?xs @ ''::'' @ group_text ?ys"
      using print_groups_eq [OF run] len False by (simp add: str del: join_with.simps)
    then have "CHR '':'' \<in> set (ip_string a)" "CHR ''.'' \<notin> set (ip_string a)" "CHR ''%'' \<notin> set (ip_string a)"
      using group_text_chars by auto
    ultimately show ?thesis by (simp add: ParseAddr_colon)
  qed
qed

section \<open>Networks of one address\<close>

lemma address_text_chars:
  assumes "length a = 16" and "To4 a = []"
  shows "CHR ''/'' \<notin> set (ip_string a)"
proof -
  let ?gs = "groups a"
  obtain start stop where r: "zero_run ?gs = (start, stop)" by force
  then have run: "is_run ?gs (start, stop)" using zero_run_is_run [of ?gs] by simp
  have "ip_string a = print_groups start stop 0 ?gs" using assms r by (auto simp: ip_string_def)
  then show ?thesis
    using print_groups_eq [OF run] assms(1) group_text_chars [of "CHR ''/''"]
    by (auto simp: length_groups simp del: join_with.simps split: if_splits)
qed

lemma mask128: "CIDRMask 128 128 = replicate 16 255"
  by code_simp

lemma simpleMaskLength_128: "simpleMaskLength (replicate 16 255) = Some 128"
  by code_simp

lemma itoa_128: "itoa 128 = ''128''"
  by code_simp

lemma mask_all: "length a = n \<Longrightarrow> map2 (\<lambda>x y. and x y) a (replicate n 255) = (a :: u8 list)"
  by (intro nth_equalityI) auto

abbreviation host_net :: "ip \<Rightarrow> IPNet" where
  "host_net a \<equiv> \<lparr>net_IP = a, net_Mask = replicate 16 255\<rparr>"

lemma host_text_roundtrip:
  assumes "length a = 16" and "To4 a = []"
  shows "ParseCIDR (ip_string a @ ''/128'') = Some (a, host_net a)"
proof -
  have split: "takeWhile (\<lambda>c. c \<noteq> CHR ''/'') (ip_string a @ CHR ''/'' # r) = ip_string a"
    "dropWhile (\<lambda>c. c \<noteq> CHR ''/'') (ip_string a @ CHR ''/'' # r) = CHR ''/'' # r" for r
    using address_text_chars [OF assms] by (subst takeWhile_append2 dropWhile_append2; auto)+
  have num: "dec_value ''128'' = 128" "list_all is_dec ''128''" by (simp_all add: dec_value_def is_dec_def)
  have "ip_mask a (replicate 16 255) = a" using assms(1) by (simp add: ip_mask_def mask_all)
  then show ?thesis
    using assms(1) num address_text_roundtrip [OF assms] by (simp add: ParseCIDR_def split mask128 Let_def)
qed

text \<open>Printing the network gives the text again, so it is its own key.\<close>

lemma host_net_text:
  assumes "length a = 16" and "To4 a = []"
  shows "ipnet_string (Some (host_net a)) = ip_string a @ ''/128''"
  using assms by (simp add: ipnet_string_def networkNumberAndMask_def simpleMaskLength_128 itoa_128 Let_def)

lemma zip_host_mask:
  "length x = n \<Longrightarrow> length y = n \<Longrightarrow>
    list_all (\<lambda>(p, q, r). and p r = and q r) (zip x (zip y (replicate n (255 :: u8)))) \<longleftrightarrow> x = y"
  by (simp add: list_all_length list_eq_iff_nth_eq)

lemma host_net_contains:
  assumes "length a = 16" and "To4 a = []" and "length b = 16" and "To4 b = []"
  shows "ipnet_contains (host_net a) b \<longleftrightarrow> b = a"
  using assms zip_host_mask [of a 16 b] by (auto simp: ipnet_contains_def networkNumberAndMask_def Let_def)

section \<open>The public address of the host\<close>

text \<open>\<open>net.ParseIP\<close>: the sixteen bytes of an address, nil for a text that is none.\<close>

definition ParseIP :: "string \<Rightarrow> ip" where
  "ParseIP s = (case ParseAddr s of None \<Rightarrow> [] | Some a \<Rightarrow> if length a = 4 then v4InV6Prefix @ a else a)"

record IpResponse =
  ipr_Ip :: string

definition IpResponse_GetIP :: "IpResponse \<Rightarrow> ip" where
  "IpResponse_GetIP i = ParseIP (ipr_Ip i)"

text \<open>The request, the answer of the web service, its body and the decoder are arguments.\<close>

definition GetPublicIP ::
  "'e + 'q \<Rightarrow> ('q \<Rightarrow> 'e + 'r) \<Rightarrow> ('r \<Rightarrow> 'e + string) \<Rightarrow> (string \<Rightarrow> 'e + IpResponse) \<Rightarrow> 'e + ip" where
  "GetPublicIP newRequest send readBody unmarshal =
     (case newRequest of
        Inl err \<Rightarrow> Inl err
      | Inr req \<Rightarrow>
          (case send req of
             Inl err \<Rightarrow> Inl err
           | Inr res \<Rightarrow>
               (case readBody res of
                  Inl err \<Rightarrow> Inl err
                | Inr resBody \<Rightarrow>
                    (case unmarshal resBody of Inl err \<Rightarrow> Inl err | Inr jsonResponse \<Rightarrow> Inr (IpResponse_GetIP jsonResponse)))))"

text \<open>\<open>None\<close> ends the program.\<close>

definition GetOutboundIP :: "'e + ip \<Rightarrow> ip option" where
  "GetOutboundIP dial = (case dial of Inl err \<Rightarrow> None | Inr localAddr \<Rightarrow> Some localAddr)"

text \<open>The answer is an address if the service sends one; any other text is accepted as the nil address, and the
  node then advertises the text of that.\<close>

lemma public_address:
  assumes "newRequest = Inr req" and "send req = Inr res" and "readBody res = Inr body" and "unmarshal body = Inr \<lparr>ipr_Ip = t\<rparr>"
  shows "length a = 16 \<Longrightarrow> To4 a = [] \<Longrightarrow> t = ip_string a \<Longrightarrow> GetPublicIP newRequest send readBody unmarshal = Inr a"
    and "ParseAddr t = None \<Longrightarrow> GetPublicIP newRequest send readBody unmarshal = Inr []"
  using assms by (simp_all add: GetPublicIP_def IpResponse_GetIP_def ParseIP_def address_text_roundtrip)

lemma nil_address_is_advertised:
  assumes "np_Endpoint params = []" and "cfg_Endpoint (np_MeshConfig params) = None"
    and "cfg_IPDiscovery (np_MeshConfig params) = Some discovery" and "discovery \<noteq> OUTGOING_IP_DISCOVERY"
  shows "getAddress (Some []) outboundIP params = Inr ''<nil>''"
  using assms by (simp add: getAddress_def Let_def ip_string_def)

section \<open>The address of a node\<close>

lemma ULA_address:
  assumes "ULA_GetIP random key meshId collisionCount = Some a"
  shows "length a = 16" and "To4 a = []" and "take 8 a = take 8 (getMeshPrefix meshId)" and "a ! 8 = a ! 9 AND 0x7f"
proof -
  obtain modifier where m: "random = Some modifier" using assms by (cases random) (auto simp: ULA_GetIP_def NewCga_def)
  note spec = node_address_lies_in_mesh_network [of meshId modifier key collisionCount a]
  then show len: "length a = 16" and "a ! 8 = a ! 9 AND 0x7f" using assms m by auto
  obtain b c d e f g where p: "getMeshPrefix meshId = [0xfd, b, c, d, e, f, g, 1] @ replicate 8 0"
    using mesh_prefix_bytes by blast
  have "\<exists>i. a = take 8 (getMeshPrefix meshId) @ i"
    using assms m by (auto simp: ULA_GetIP_def NewCga_def Cga_GetIP_def Let_def)
  then show "To4 a = []" and "take 8 a = take 8 (getMeshPrefix meshId)"
    by (auto simp: p To4_def v4InV6Prefix_def numeral_eq_Suc)
qed

text \<open>C27: the address generated for a node of a mesh lies in the network of that mesh, which is the 64-bit prefix
  computed from the identifier of the mesh, and survives its way through text: the node that the
  factory builds from it carries a text that parses back to exactly that address, with a mask that
  no other address matches, and that is printed again as the same text, for every key, modifier and
  collision count. (The first byte of the interface identifier is a copy of the second one without its
  top bit.)\<close>

theorem node_address_survives_text:
  assumes "ULA_GetIP random key meshId collisionCount = Some a"
    and "np_NodeIP params = a" and "Factory_Build config publicIP outboundIP params = Inr n"
  shows "ParseCIDR (WgHost n) = Some (a, host_net a) \<and> GetWgHost n = Some (host_net a)
    \<and> ipnet_string (GetWgHost n) = WgHost n
    \<and> (\<forall>b. length b = 16 \<and> To4 b = [] \<longrightarrow> ipnet_contains (host_net a) b = (b = a))
    \<and> (\<exists>net. GetIPNet meshId = Some net \<and> net_IP net = getMeshPrefix meshId \<and> ipnet_contains net a
        \<and> (\<forall>b. length b = 16 \<and> To4 b = [] \<longrightarrow> ipnet_contains net b = (take 8 b = take 8 (getMeshPrefix meshId))))
    \<and> a ! 8 = a ! 9 AND 0x7f"
proof -
  note a = ULA_address [OF assms(1)]
  have host: "WgHost n = ip_string a @ ''/128''"
    using assms(2,3) by (auto simp: Factory_Build_def Let_def split: sum.splits option.splits)
  note cidr = host_text_roundtrip [OF a(1,2)]
  then have "GetWgHost n = Some (host_net a)" by (simp add: GetWgHost_def host)
  then show ?thesis
    using cidr host_net_text [OF a(1,2)] host_net_contains [OF a(1,2)] GetIPNet_eq [of meshId]
      mesh_net_contains [of _ meshId] a by (simp add: host)
qed

theorem node_address_survives_text_witness:
  "\<exists>a n. ULA_GetIP (Some (replicate 16 0)) (replicate 32 7) ''mesh'' 0 = Some a
    \<and> Factory_Build demo_daemon None None \<lparr>np_PublicKey = ''k'', np_NodeIP = a, np_WgPort = 51820, np_Endpoint = ''h'',
        np_MeshConfig = zeroConfiguration\<lparr>cfg_Role := Some CLIENT_ROLE\<rparr>\<rparr> = Inr n
    \<and> GetWgHost n = Some (host_net a)"
proof -
  let ?params = "\<lambda>a. \<lparr>np_PublicKey = ''k'', np_NodeIP = a, np_WgPort = 51820, np_Endpoint = ''h'',
        np_MeshConfig = zeroConfiguration\<lparr>cfg_Role := Some CLIENT_ROLE\<rparr>\<rparr>"
  obtain a where a: "ULA_GetIP (Some (replicate 16 0)) (replicate 32 7) ''mesh'' 0 = Some a"
    by (simp add: ULA_GetIP_def NewCga_def)
  moreover obtain n where "Factory_Build demo_daemon None None (?params a) = Inr n"
    by (simp add: Factory_Build_def getAddress_def)
  ultimately show ?thesis
    using node_address_survives_text [of "Some (replicate 16 0)" "replicate 32 7" "''mesh''" 0 a "?params a"
      demo_daemon None None n] by auto
qed

end
