(* ===== verification/Rt_Netlink.thy ===== *)
theory Rt_Netlink
  imports Net
begin

text \<open>
  \<open>src/pkg/lib/rtnetlink.go\<close>, \<open>src/pkg/route/route.go\<close> and \<open>src/pkg/wg/wg.go\<close>: links, addresses and routes of
  the WireGuard interfaces in the kernel.

  The kernel and the netlink package are the record \<open>netlink\<close> over a state \<open>'k\<close>: what a request answers
  and the state it leaves. An operation returns the state it leaves and its error. What the code
  relies on is stated by \<open>delete_law\<close> and \<open>replace_law\<close>: a route that was deleted is no longer listed,
  and a route that was put in place is listed and displaces routes to the same destination only.
  The constants of \<open>unix\<close> are numbers.
\<close>

section \<open>Messages\<close>

text \<open>\<open>lib.Route\<close>, a route to put into the routing table.\<close>

record RibRoute =
  rib_Gateway :: ip
  rib_Destination :: IPNet

record LinkMessage =
  lm_Name :: string
  lm_Kind :: string
  lm_MTU :: u32

record AddressMessage =
  am_Family :: u8
  am_PrefixLength :: u8
  am_Index :: u32
  am_Address :: ip
  am_Broadcast :: ip

text \<open>A nil address is \<open>[]\<close>. The table, protocol, scope and type are the same in every message that is sent.\<close>

record RouteMessage =
  rm_Family :: u8
  rm_DstLength :: u8
  rm_Dst :: ip
  rm_Gateway :: ip
  rm_OutIface :: u32

record 'k netlink =
  nl_dial :: bool
  nl_interface :: "'k \<Rightarrow> string \<Rightarrow> u32 option"
  nl_newLink :: "LinkMessage \<Rightarrow> 'k \<Rightarrow> 'k \<times> bool"
  nl_deleteLink :: "u32 \<Rightarrow> 'k \<Rightarrow> 'k \<times> bool"
  nl_newAddress :: "AddressMessage \<Rightarrow> 'k \<Rightarrow> 'k \<times> bool"
  nl_routes :: "'k \<Rightarrow> RouteMessage list option"
  nl_replace :: "RouteMessage \<Rightarrow> 'k \<Rightarrow> 'k \<times> bool"
  nl_delete :: "RouteMessage \<Rightarrow> 'k \<Rightarrow> 'k \<times> bool"
  nl_configure :: "string \<Rightarrow> int \<Rightarrow> 'k \<Rightarrow> 'k \<times> bool"

datatype nl_error =
    DialFailed
  | NoInterface string
  | LinkExists string
  | LinkFailed
  | CannotParse
  | AddressFailed
  | ListFailed
  | RouteFailed
  | RandomFailed
  | ConfigureFailed
  | NetlinkPanic

definition AF_INET :: u8 where "AF_INET = 2"
definition AF_INET6 :: u8 where "AF_INET6 = 10"
definition WIREGUARD_MTU :: u32 where "WIREGUARD_MTU = 1420"

text \<open>\<open>IPMask.Size\<close> and \<open>net.CIDRMask\<close> with the cases they reject.\<close>

definition mask_ones :: "u8 list \<Rightarrow> nat" where
  "mask_ones m = (case simpleMaskLength m of None \<Rightarrow> 0 | Some n \<Rightarrow> n)"

definition cidr_mask :: "nat \<Rightarrow> nat \<Rightarrow> u8 list" where
  "cidr_mask ones bits = (if ones > bits then [] else CIDRMask ones bits)"

definition family_of :: "ip \<Rightarrow> u8" where
  "family_of a = (if To4 a \<noteq> [] then AF_INET else AF_INET6)"

section \<open>Links and addresses\<close>

definition CreateLink :: "'k netlink \<Rightarrow> string \<Rightarrow> 'k \<Rightarrow> 'k \<times> nl_error option" where
  "CreateLink N ifName k =
     (case nl_interface N k ifName of
        Some _ \<Rightarrow> (k, Some (LinkExists ifName))
      | None \<Rightarrow>
          (case nl_newLink N \<lparr>lm_Name = ifName, lm_Kind = ''wireguard'', lm_MTU = WIREGUARD_MTU\<rparr> k of
             (k1, ok) \<Rightarrow> (k1, if ok then None else Some LinkFailed)))"

definition DeleteLink :: "'k netlink \<Rightarrow> string \<Rightarrow> 'k \<Rightarrow> 'k \<times> nl_error option" where
  "DeleteLink N ifName k =
     (case nl_interface N k ifName of
        None \<Rightarrow> (k, Some (NoInterface ifName))
      | Some index \<Rightarrow>
          (case nl_deleteLink N index k of (k1, ok) \<Rightarrow> (k1, if ok then None else Some LinkFailed)))"

text \<open>The broadcast address of an IPv4 network: the bits of the host part are set.\<close>

definition broadcast :: "IPNet \<Rightarrow> ip" where
  "broadcast cidr =
     (let ipv4 = To4 (net_IP cidr) in
      if ipv4 = [] then [] else map2 (\<lambda>a m. or a (not m)) ipv4 (To4 (net_Mask cidr)))"

definition AddAddress :: "'k netlink \<Rightarrow> string \<Rightarrow> string \<Rightarrow> 'k \<Rightarrow> 'k \<times> nl_error option" where
  "AddAddress N ifName address k =
     (case nl_interface N k ifName of
        None \<Rightarrow> (k, Some (NoInterface ifName))
      | Some index \<Rightarrow>
          (case ParseCIDR address of
             None \<Rightarrow> (k, Some CannotParse)
           | Some (addr, cidr) \<Rightarrow>
               if To4 (net_IP cidr) \<noteq> [] \<and> To4 (net_Mask cidr) = [] then (k, Some NetlinkPanic)
               else (case nl_newAddress N \<lparr>am_Family = family_of (net_IP cidr),
                       am_PrefixLength = of_nat (mask_ones (net_Mask cidr)), am_Index = index,
                       am_Address = addr, am_Broadcast = broadcast cidr\<rparr> k of
                  (k1, ok) \<Rightarrow> (k1, if ok then None else Some AddressFailed))))"

section \<open>Routes\<close>

definition listRoutes :: "'k netlink \<Rightarrow> string \<Rightarrow> 'k \<Rightarrow> nl_error + RouteMessage list" where
  "listRoutes N ifName k =
     (case nl_interface N k ifName of
        None \<Rightarrow> Inl (NoInterface ifName)
      | Some index \<Rightarrow>
          (case nl_routes N k of
             None \<Rightarrow> Inl ListFailed
           | Some routes \<Rightarrow> Inr (Filter routes (\<lambda>r. rm_Gateway r \<noteq> [] \<and> rm_OutIface r = index))))"

definition route_message :: "u32 \<Rightarrow> RibRoute \<Rightarrow> RouteMessage" where
  "route_message index route =
     \<lparr>rm_Family = family_of (net_IP (rib_Destination route)),
      rm_DstLength = of_nat (mask_ones (net_Mask (rib_Destination route))),
      rm_Dst = net_IP (rib_Destination route), rm_Gateway = rib_Gateway route, rm_OutIface = index\<rparr>"

definition AddRoute :: "'k netlink \<Rightarrow> string \<Rightarrow> RibRoute \<Rightarrow> 'k \<Rightarrow> 'k \<times> nl_error option" where
  "AddRoute N ifName route k =
     (case nl_interface N k ifName of
        None \<Rightarrow> (k, Some (NoInterface ifName))
      | Some index \<Rightarrow>
          (case listRoutes N ifName k of
             Inl err \<Rightarrow> (k, Some err)
           | Inr routes \<Rightarrow>
               if \<not> Contains routes (\<lambda>prevRoute. ip_equal (rm_Dst prevRoute) (net_IP (rib_Destination route))
                       \<and> ip_equal (rm_Gateway prevRoute) (rib_Gateway route))
               then (case nl_replace N (route_message index route) k of
                       (k1, ok) \<Rightarrow> (k1, if ok then None else Some RouteFailed))
               else (k, None)))"

definition DeleteRoute :: "'k netlink \<Rightarrow> string \<Rightarrow> RibRoute \<Rightarrow> 'k \<Rightarrow> 'k \<times> nl_error option" where
  "DeleteRoute N ifName route k =
     (case nl_interface N k ifName of
        None \<Rightarrow> (k, Some (NoInterface ifName))
      | Some index \<Rightarrow>
          (case nl_delete N (route_message index route) k of
             (k1, ok) \<Rightarrow> (k1, if ok then None else Some RouteFailed)))"

text \<open>\<open>Route.equal\<close>\<close>

definition rib_equal :: "RibRoute \<Rightarrow> RibRoute \<Rightarrow> bool" where
  "rib_equal r1 r2 \<longleftrightarrow>
     ip_string (rib_Gateway r1) = ip_string (rib_Gateway r2)
     \<and> (mask_ones (net_Mask (rib_Destination r1)) = 0 \<and> mask_ones (net_Mask (rib_Destination r2)) = 0
        \<or> ip_equal (net_IP (rib_Destination r1)) (net_IP (rib_Destination r2)))"

definition rib_of :: "u8 \<Rightarrow> RouteMessage \<Rightarrow> RibRoute" where
  "rib_of family rtRoute =
     (let maskSize = (if family = AF_INET then 32 else 128) in
      \<lparr>rib_Gateway = rm_Gateway rtRoute,
       rib_Destination = \<lparr>net_IP = rm_Dst rtRoute, net_Mask = cidr_mask (unat (rm_DstLength rtRoute)) maskSize\<rparr>\<rparr>)"

text \<open>A loop that stops at the first error.\<close>

fun until_error :: "('x \<Rightarrow> 'k \<Rightarrow> 'k \<times> 'e option) \<Rightarrow> 'x list \<Rightarrow> 'k \<Rightarrow> 'k \<times> 'e option" where
  "until_error f [] k = (k, None)"
| "until_error f (x # xs) k = (case f x k of (k1, Some e) \<Rightarrow> (k1, Some e) | (k1, None) \<Rightarrow> until_error f xs k1)"

definition DeleteRoutes :: "'k netlink \<Rightarrow> string \<Rightarrow> u8 \<Rightarrow> RibRoute list \<Rightarrow> 'k \<Rightarrow> 'k \<times> nl_error option" where
  "DeleteRoutes N ifName family exclude k =
     (case listRoutes N ifName k of
        Inl err \<Rightarrow> (k, Some err)
      | Inr routes \<Rightarrow>
          let ifRoutes = map (rib_of family) routes;
              toDelete = Filter ifRoutes (\<lambda>r. \<not> list_ex (rib_equal r) exclude)
          in until_error (DeleteRoute N ifName) toDelete k)"

definition InstallRoutes :: "'k netlink \<Rightarrow> string \<Rightarrow> RibRoute list \<Rightarrow> 'k \<Rightarrow> 'k \<times> nl_error option" where
  "InstallRoutes N devName routes k =
     (if \<not> nl_dial N then (k, Some DialFailed)
      else case DeleteRoutes N devName AF_INET6 routes k of
        (k1, Some err) \<Rightarrow> (k1, Some err)
      | (k1, None) \<Rightarrow> until_error (AddRoute N devName) routes k1)"

section \<open>Interfaces\<close>

definition RemoveInterface :: "'k netlink \<Rightarrow> string \<Rightarrow> 'k \<Rightarrow> 'k \<times> nl_error option" where
  "RemoveInterface N ifName k = (if \<not> nl_dial N then (k, Some DialFailed) else DeleteLink N ifName k)"

definition If_AddAddress :: "'k netlink \<Rightarrow> string \<Rightarrow> string \<Rightarrow> 'k \<Rightarrow> 'k \<times> nl_error option" where
  "If_AddAddress N ifName addr k = (if \<not> nl_dial N then (k, Some DialFailed) else AddAddress N ifName addr k)"

text \<open>\<open>Sum\<close> appends the digest of what was written, which is nothing, to its argument.\<close>

definition md5_of_nothing :: "u8 list" where
  "md5_of_nothing = [0xd4, 0x1d, 0x8c, 0xd9, 0x8f, 0x00, 0xb2, 0x04, 0xe9, 0x80, 0x09, 0x98, 0xec, 0xf8, 0x42, 0x7e]"

definition interface_name :: "u8 list \<Rightarrow> string" where
  "interface_name randomBuf = take 6 (''wg'' @ hex_string (randomBuf @ md5_of_nothing))"

definition CreateInterface ::
  "'k netlink \<Rightarrow> u8 list option \<Rightarrow> int \<Rightarrow> 'k \<Rightarrow> 'k \<times> (nl_error + string)" where
  "CreateInterface N random port k =
     (if \<not> nl_dial N then (k, Inl DialFailed)
      else case random of
        None \<Rightarrow> (k, Inl RandomFailed)
      | Some randomBuf \<Rightarrow>
          let md5Str = interface_name randomBuf in
          (case CreateLink N md5Str k of
             (k1, Some err) \<Rightarrow> (k1, Inl err)
           | (k1, None) \<Rightarrow>
               (case nl_configure N md5Str port k1 of
                  (k2, True) \<Rightarrow> (k2, Inr md5Str)
                | (k2, False) \<Rightarrow> (fst (RemoveInterface N md5Str k2), Inl ConfigureFailed))))"

section \<open>Masks\<close>

lemma concat_blocks: "concat (map (\<lambda>i. map (\<lambda>j. f (8 * i + j)) [0..<8]) [0..<m]) = map f [0..<8 * m]"
proof (induction m)
  case (Suc m)
  have "[0..<8 * Suc m] = [0..<8 * m] @ map (\<lambda>j. 8 * m + j) [0..<8]"
    using upt_add_eq_append [of 0 "8 * m" 8] by (simp add: map_add_upt add.commute)
  with Suc show ?case by simp
qed simp

lemma bit_mask_byte: "j < 8 \<Longrightarrow> bit (NOT (drop_bit (min 8 k) (255 :: u8))) (7 - j) \<longleftrightarrow> j < k"
proof -
  have b: "bit (255 :: u8) i \<longleftrightarrow> i < 8" for i
  proof -
    have "(255 :: u8) = mask 8" by (simp add: mask_eq_exp_minus_1)
    then show ?thesis by (simp only: bit_mask_iff) simp
  qed
  assume "j < 8"
  then show ?thesis unfolding bit_not_iff bit_drop_bit_eq comp_def b by (auto simp: min_def)
qed

lemma mask_bits_CIDRMask: "mask_bits (CIDRMask n (8 * m)) = map (\<lambda>p. p < n) [0..<8 * m]"
proof -
  have "map (\<lambda>j. bit (NOT (drop_bit (min 8 (n - 8 * i)) (255 :: u8))) (7 - j)) [0..<8]
      = map (\<lambda>j. 8 * i + j < n) [0..<8]" for i
    by (rule map_cong) (auto simp: bit_mask_byte)
  then have "mask_bits (CIDRMask n (8 * m)) = concat (map (\<lambda>i. map (\<lambda>j. 8 * i + j < n) [0..<8]) [0..<m])"
    unfolding mask_bits_def CIDRMask_def map_map comp_def by (simp del: upt_Suc map_eq_conv)
  then show ?thesis using concat_blocks [of "\<lambda>p. p < n" m] by simp
qed

lemma mask_ones_cidr_mask: "n \<le> 8 * m \<Longrightarrow> mask_ones (cidr_mask n (8 * m)) = n"
proof -
  assume n: "n \<le> 8 * m"
  have "map (\<lambda>p. p < n) [0..<8 * m] = replicate n True @ replicate (8 * m - n) False"
    using n by (intro nth_equalityI) (auto simp: nth_append)
  then have bits: "mask_bits (CIDRMask n (8 * m)) = replicate n True @ replicate (8 * m - n) False"
    by (simp add: mask_bits_CIDRMask)
  have "takeWhile id (replicate n True @ replicate (8 * m - n) False) = replicate n True"
    by (cases "8 * m - n") (simp_all add: takeWhile_append)
  then show ?thesis using n
    by (simp add: mask_ones_def cidr_mask_def simpleMaskLength_def bits list_all_iff)
qed

text \<open>An address followed by a full prefix length.\<close>

lemma ParseCIDR_host:
  assumes "ParseAddr s = Some a" and "CHR ''/'' \<notin> set s" and "length a = 16"
  shows "\<exists>n. ParseCIDR (s @ ''/128'') = Some (a, n) \<and> mask_ones (net_Mask n) = 128"
proof -
  have "dec_value ''128'' = 128" "list_all is_dec ''128''" by code_simp+
  moreover have "\<And>c. c \<in> set s \<Longrightarrow> c \<noteq> CHR ''/''" using assms(2) by auto
  hence "dropWhile (\<lambda>c. c \<noteq> CHR ''/'') (s @ ''/128'') = ''/128''"
    "takeWhile (\<lambda>c. c \<noteq> CHR ''/'') (s @ ''/128'') = s"
    by (simp_all add: dropWhile_append2 takeWhile_append2)
  ultimately show ?thesis
    using assms(1,3) mask_ones_cidr_mask [of 128 16] by (simp add: ParseCIDR_def Let_def cidr_mask_def)
qed

section \<open>What the kernel promises\<close>

text \<open>A listed route has a prefix length of at most 128, and no destination when the length is 0.\<close>

definition listing_law :: "'k netlink \<Rightarrow> bool" where
  "listing_law N \<longleftrightarrow> (\<forall>k rs. nl_routes N k = Some rs \<longrightarrow>
     (\<forall>r \<in> set rs. unat (rm_DstLength r) \<le> 128 \<and> (rm_DstLength r = 0 \<longrightarrow> rm_Dst r = [])))"

definition same_route :: "RouteMessage \<Rightarrow> RouteMessage \<Rightarrow> bool" where
  "same_route msg r \<longleftrightarrow> rm_Dst r = rm_Dst msg \<and> rm_DstLength r = rm_DstLength msg
     \<and> rm_Gateway r = rm_Gateway msg \<and> rm_OutIface r = rm_OutIface msg"

text \<open>The route is gone after it was deleted, and deleting adds none.\<close>

definition delete_law :: "'k netlink \<Rightarrow> bool" where
  "delete_law N \<longleftrightarrow> (\<forall>msg k k' rs. nl_delete N msg k = (k', True) \<longrightarrow> nl_routes N k = Some rs \<longrightarrow>
     nl_interface N k' = nl_interface N k
     \<and> (\<exists>rs'. nl_routes N k' = Some rs' \<and> set rs' \<subseteq> set rs \<and> (\<forall>r \<in> set rs'. \<not> same_route msg r)))"

definition placed :: "RouteMessage \<Rightarrow> RouteMessage \<Rightarrow> bool" where
  "placed msg r \<longleftrightarrow> rm_Dst r = (if rm_DstLength msg = 0 then [] else rm_Dst msg)
     \<and> rm_DstLength r = rm_DstLength msg \<and> rm_Gateway r = rm_Gateway msg \<and> rm_OutIface r = rm_OutIface msg"

text \<open>The route is listed after it was put in place; it displaces routes to the same destination at most.\<close>

definition replace_law :: "'k netlink \<Rightarrow> bool" where
  "replace_law N \<longleftrightarrow> (\<forall>msg k k' rs. nl_replace N msg k = (k', True) \<longrightarrow> nl_routes N k = Some rs \<longrightarrow>
     nl_interface N k' = nl_interface N k
     \<and> (\<exists>rs'. nl_routes N k' = Some rs' \<and> (\<exists>r \<in> set rs'. placed msg r)
          \<and> (\<forall>r \<in> set rs'. r \<in> set rs \<or> placed msg r)
          \<and> (\<forall>r \<in> set rs. rm_DstLength r = rm_DstLength msg
                \<and> rm_Dst r = (if rm_DstLength msg = 0 then [] else rm_Dst msg) \<or> r \<in> set rs')))"

section \<open>Installing routes\<close>

text \<open>A route that can be installed: it has a gateway and a destination, and a prefix of an address.\<close>

definition rib_valid :: "RibRoute \<Rightarrow> bool" where
  "rib_valid r \<longleftrightarrow> rib_Gateway r \<noteq> [] \<and> net_IP (rib_Destination r) \<noteq> []
     \<and> mask_ones (net_Mask (rib_Destination r)) \<le> 128"

definition same_target :: "RibRoute \<Rightarrow> RibRoute \<Rightarrow> bool" where
  "same_target r1 r2 \<longleftrightarrow>
     mask_ones (net_Mask (rib_Destination r1)) = 0 \<and> mask_ones (net_Mask (rib_Destination r2)) = 0
     \<or> ip_equal (net_IP (rib_Destination r1)) (net_IP (rib_Destination r2))"

text \<open>A listed route that serves a given one.\<close>

definition covers :: "u32 \<Rightarrow> RibRoute \<Rightarrow> RouteMessage \<Rightarrow> bool" where
  "covers index route r \<longleftrightarrow> rm_OutIface r = index \<and> ip_equal (rm_Gateway r) (rib_Gateway route)
     \<and> (rm_DstLength r = 0 \<and> mask_ones (net_Mask (rib_Destination route)) = 0
        \<or> ip_equal (rm_Dst r) (net_IP (rib_Destination route)))"

lemma ip_equal_refl [simp]: "ip_equal a a"
  by (simp add: ip_equal_def)

lemma ip_equal_sym: "ip_equal a b \<longleftrightarrow> ip_equal b a"
  by (auto simp: ip_equal_def)

lemma ip_equal_nil [simp]: "ip_equal [] b \<longleftrightarrow> b = []" "ip_equal a [] \<longleftrightarrow> a = []"
  by (auto simp: ip_equal_def)

lemma message_length:
  assumes "rib_valid route"
  shows "rm_DstLength (route_message index route) = 0 \<longleftrightarrow> mask_ones (net_Mask (rib_Destination route)) = 0"
  using assms by (simp add: route_message_def rib_valid_def word_of_nat_eq_0_iff) (auto dest: dvd_imp_le)

lemma message_of_listed:
  assumes "unat (rm_DstLength r) \<le> 128" and "rm_OutIface r = index"
  shows "same_route (route_message index (rib_of AF_INET6 r)) r"
  using assms mask_ones_cidr_mask [of "unat (rm_DstLength r)" 16]
  by (simp add: same_route_def route_message_def rib_of_def Let_def AF_INET6_def AF_INET_def)

lemma listRoutes_eq:
  "nl_interface N k dev = Some index \<Longrightarrow> nl_routes N k = Some rs
    \<Longrightarrow> listRoutes N dev k = Inr (filter (\<lambda>r. rm_Gateway r \<noteq> [] \<and> rm_OutIface r = index) rs)"
  by (simp add: listRoutes_def)

lemma delete_loop:
  assumes "delete_law N" and "nl_interface N k dev = Some index" and "nl_routes N k = Some rs"
    and "until_error (DeleteRoute N dev) xs k = (k', None)"
  shows "nl_interface N k' = nl_interface N k
    \<and> (\<exists>rs'. nl_routes N k' = Some rs' \<and> set rs' \<subseteq> set rs
        \<and> (\<forall>x \<in> set xs. \<forall>r \<in> set rs'. \<not> same_route (route_message index x) r))"
  using assms(2-4)
proof (induction xs arbitrary: k rs)
  case (Cons x xs)
  obtain k1 where del: "nl_delete N (route_message index x) k = (k1, True)"
    and rest: "until_error (DeleteRoute N dev) xs k1 = (k', None)"
    using Cons.prems by (auto simp: DeleteRoute_def [of N dev x] split: prod.splits if_splits option.splits)
  obtain rs1 where k1: "nl_interface N k1 = nl_interface N k" "nl_routes N k1 = Some rs1"
    "set rs1 \<subseteq> set rs" "\<forall>r \<in> set rs1. \<not> same_route (route_message index x) r"
    using assms(1) del Cons.prems(2) unfolding delete_law_def by blast
  with Cons.IH [OF _ k1(2) rest] Cons.prems(1) show ?case by fastforce
qed simp

lemma DeleteRoutes_result:
  assumes "delete_law N" and "listing_law N" and "nl_interface N k dev = Some index"
    and "DeleteRoutes N dev AF_INET6 exclude k = (k', None)"
  shows "nl_interface N k' = nl_interface N k
    \<and> (\<exists>rs. nl_routes N k' = Some rs
        \<and> (\<forall>r \<in> set rs. rm_Gateway r \<noteq> [] \<and> rm_OutIface r = index \<longrightarrow> list_ex (rib_equal (rib_of AF_INET6 r)) exclude))"
proof -
  obtain rs where rs: "nl_routes N k = Some rs"
    using assms(3,4) by (auto simp: DeleteRoutes_def listRoutes_def split: option.splits)
  let ?on = "\<lambda>r. rm_Gateway r \<noteq> [] \<and> rm_OutIface r = index"
  let ?del = "filter (\<lambda>r. \<not> list_ex (rib_equal r) exclude) (map (rib_of AF_INET6) (filter ?on rs))"
  have loop: "until_error (DeleteRoute N dev) ?del k = (k', None)"
    using assms(4) by (simp add: DeleteRoutes_def listRoutes_eq [OF assms(3) rs] Let_def)
  obtain rs' where rs': "nl_routes N k' = Some rs'" "set rs' \<subseteq> set rs"
    "\<forall>x \<in> set ?del. \<forall>r \<in> set rs'. \<not> same_route (route_message index x) r"
    and "nl_interface N k' = nl_interface N k"
    using delete_loop [OF assms(1,3) rs loop] by blast
  moreover have "list_ex (rib_equal (rib_of AF_INET6 r)) exclude" if "r \<in> set rs'" "?on r" for r
  proof (rule ccontr)
    assume "\<not> ?thesis"
    with that rs'(2) have "rib_of AF_INET6 r \<in> set ?del" by auto
    moreover have "unat (rm_DstLength r) \<le> 128" using assms(2) rs rs'(2) that(1) by (auto simp: listing_law_def)
    ultimately show False using rs'(3) that message_of_listed by blast
  qed
  ultimately show ?thesis by blast
qed

lemma placed_covers:
  assumes "rib_valid route" and "placed (route_message index route) r"
  shows "covers index route r" and "rib_equal (rib_of AF_INET6 r) route" and "rm_Gateway r \<noteq> []"
  using assms message_length [OF assms(1), of index] mask_ones_cidr_mask [of 0 16]
  by (auto simp: placed_def covers_def rib_equal_def rib_of_def Let_def rib_valid_def AF_INET_def AF_INET6_def
      split: if_splits) (auto simp: route_message_def)

lemma covers_survives:
  assumes "rib_valid route" and "rib_valid route'" and "\<not> same_target route' route" and "covers index route' r"
    and "rm_DstLength r = 0 \<longrightarrow> rm_Dst r = []"
  shows "\<not> (rm_DstLength r = rm_DstLength (route_message index' route)
    \<and> rm_Dst r = (if rm_DstLength (route_message index' route) = 0 then [] else rm_Dst (route_message index' route)))"
  using assms message_length [OF assms(1), of index']
    ip_equal_sym [of "net_IP (rib_Destination route)" "net_IP (rib_Destination route')"]
  by (auto simp: covers_def same_target_def rib_valid_def split: if_splits) (auto simp: route_message_def)

lemma AddRoute_step:
  assumes "replace_law N" and "listing_law N" and "nl_interface N k dev = Some index" and "nl_routes N k = Some rs"
    and "AddRoute N dev route k = (k', None)" and "rib_valid route"
  shows "nl_interface N k' = nl_interface N k
    \<and> (\<exists>rs'. nl_routes N k' = Some rs' \<and> (\<exists>r \<in> set rs'. covers index route r)
        \<and> (\<forall>r \<in> set rs'. r \<in> set rs \<or> rib_equal (rib_of AF_INET6 r) route)
        \<and> (\<forall>route'. rib_valid route' \<longrightarrow> \<not> same_target route' route \<longrightarrow> (\<exists>r \<in> set rs. covers index route' r)
             \<longrightarrow> (\<exists>r \<in> set rs'. covers index route' r)))"
proof (cases "\<exists>r \<in> set rs. rm_Gateway r \<noteq> [] \<and> rm_OutIface r = index \<and>
    ip_equal (rm_Dst r) (net_IP (rib_Destination route)) \<and> ip_equal (rm_Gateway r) (rib_Gateway route)")
  case True
  then have "k' = k"
    using assms(5) by (auto simp: AddRoute_def assms(3) listRoutes_eq [OF assms(3,4)] split: if_splits prod.splits)
  moreover have "\<exists>r \<in> set rs. covers index route r" using True by (auto simp: covers_def)
  ultimately show ?thesis using assms(4) by blast
next
  case False
  then have rep: "nl_replace N (route_message index route) k = (k', True)"
    using assms(5) by (auto simp: AddRoute_def assms(3) listRoutes_eq [OF assms(3,4)] split: if_splits prod.splits)
  let ?m = "route_message index route"
  obtain rs' where k': "nl_interface N k' = nl_interface N k" "nl_routes N k' = Some rs'"
    "\<exists>r \<in> set rs'. placed ?m r" "\<forall>r \<in> set rs'. r \<in> set rs \<or> placed ?m r"
    "\<forall>r \<in> set rs. rm_DstLength r = rm_DstLength ?m \<and> rm_Dst r = (if rm_DstLength ?m = 0 then [] else rm_Dst ?m)
      \<or> r \<in> set rs'"
    using assms(1) rep assms(4) unfolding replace_law_def by blast
  have "\<exists>r \<in> set rs'. covers index route' r"
    if "rib_valid route'" "\<not> same_target route' route" "r \<in> set rs" "covers index route' r" for route' r
  proof -
    have "rm_DstLength r = 0 \<longrightarrow> rm_Dst r = []" using assms(2,4) that(3) by (auto simp: listing_law_def)
    with covers_survives [OF assms(6) that(1,2,4), of index] k'(5) that(3,4) show ?thesis by blast
  qed
  moreover have "\<exists>r \<in> set rs'. covers index route r" using k'(3) placed_covers(1) [OF assms(6)] by blast
  moreover have "\<forall>r \<in> set rs'. r \<in> set rs \<or> rib_equal (rib_of AF_INET6 r) route"
    using k'(4) placed_covers(2) [OF assms(6)] by blast
  ultimately show ?thesis using k'(1,2) by blast
qed

lemma add_loop:
  assumes "replace_law N" and "listing_law N" and "nl_interface N k dev = Some index" and "nl_routes N k = Some rs"
    and "until_error (AddRoute N dev) routes k = (k', None)" and "\<forall>route \<in> set routes. rib_valid route"
    and "sorted_wrt (\<lambda>r1 r2. \<not> same_target r1 r2) routes"
  shows "nl_interface N k' = nl_interface N k
    \<and> (\<exists>rs'. nl_routes N k' = Some rs' \<and> (\<forall>route \<in> set routes. \<exists>r \<in> set rs'. covers index route r)
        \<and> (\<forall>r \<in> set rs'. r \<in> set rs \<or> list_ex (rib_equal (rib_of AF_INET6 r)) routes)
        \<and> (\<forall>route'. rib_valid route' \<longrightarrow> (\<forall>route \<in> set routes. \<not> same_target route' route)
             \<longrightarrow> (\<exists>r \<in> set rs. covers index route' r) \<longrightarrow> (\<exists>r \<in> set rs'. covers index route' r)))"
  using assms(3-7)
proof (induction routes arbitrary: k rs)
  case (Cons route routes)
  obtain k1 where add: "AddRoute N dev route k = (k1, None)"
    and rest: "until_error (AddRoute N dev) routes k1 = (k', None)"
    using Cons.prems(3) by (auto split: prod.splits option.splits)
  have valid: "rib_valid route" using Cons.prems(4) by simp
  obtain rs1 where k1: "nl_interface N k1 = nl_interface N k" "nl_routes N k1 = Some rs1"
    "\<exists>r \<in> set rs1. covers index route r" "\<forall>r \<in> set rs1. r \<in> set rs \<or> rib_equal (rib_of AF_INET6 r) route"
    "\<forall>route'. rib_valid route' \<longrightarrow> \<not> same_target route' route \<longrightarrow> (\<exists>r \<in> set rs. covers index route' r)
       \<longrightarrow> (\<exists>r \<in> set rs1. covers index route' r)"
    using AddRoute_step [OF assms(1,2) Cons.prems(1,2) add valid] by blast
  obtain rs' where k': "nl_interface N k' = nl_interface N k1" "nl_routes N k' = Some rs'"
    "\<forall>route \<in> set routes. \<exists>r \<in> set rs'. covers index route r"
    "\<forall>r \<in> set rs'. r \<in> set rs1 \<or> list_ex (rib_equal (rib_of AF_INET6 r)) routes"
    "\<forall>route'. rib_valid route' \<longrightarrow> (\<forall>route \<in> set routes. \<not> same_target route' route)
       \<longrightarrow> (\<exists>r \<in> set rs1. covers index route' r) \<longrightarrow> (\<exists>r \<in> set rs'. covers index route' r)"
    using Cons.IH [OF _ k1(2) rest] Cons.prems k1(1) by auto
  have "\<exists>r \<in> set rs'. covers index route r" using k'(5) k1(3) valid Cons.prems(5) by simp
  then show ?case using k' k1 by (intro conjI exI [of _ rs']) auto
qed simp

text \<open>C17: what the kernel's table holds after the routes of a device are installed without an error. Every
  route with a gateway on the device is one of the given routes, so routes that are no longer
  wanted are gone, and every given route is served, provided no two of them have the same target.
  (Routes are compared by gateway and network address; the prefix length counts for default routes
  only, so an installed route with another prefix length is taken for the wanted one.)\<close>

theorem installed_routes_are_the_given_ones:
  assumes "delete_law N" and "replace_law N" and "listing_law N" and "nl_interface N k dev = Some index"
    and "InstallRoutes N dev routes k = (k', None)" and "\<forall>route \<in> set routes. rib_valid route"
    and "sorted_wrt (\<lambda>r1 r2. \<not> same_target r1 r2) routes"
  shows "\<exists>listed. listRoutes N dev k' = Inr listed
    \<and> (\<forall>r \<in> set listed. list_ex (rib_equal (rib_of AF_INET6 r)) routes)
    \<and> (\<forall>route \<in> set routes. \<exists>r \<in> set listed. covers index route r)"
proof -
  obtain k1 where del: "DeleteRoutes N dev AF_INET6 routes k = (k1, None)"
    and add: "until_error (AddRoute N dev) routes k1 = (k', None)"
    using assms(5) by (auto simp: InstallRoutes_def split: if_splits prod.splits option.splits)
  obtain rs1 where k1: "nl_interface N k1 = nl_interface N k" "nl_routes N k1 = Some rs1"
    "\<forall>r \<in> set rs1. rm_Gateway r \<noteq> [] \<and> rm_OutIface r = index \<longrightarrow> list_ex (rib_equal (rib_of AF_INET6 r)) routes"
    using DeleteRoutes_result [OF assms(1,3,4) del] by blast
  obtain rs where k': "nl_interface N k' = nl_interface N k1" "nl_routes N k' = Some rs"
    "\<forall>route \<in> set routes. \<exists>r \<in> set rs. covers index route r"
    "\<forall>r \<in> set rs. r \<in> set rs1 \<or> list_ex (rib_equal (rib_of AF_INET6 r)) routes"
    using add_loop [OF assms(2,3) _ k1(2) add assms(6,7), of index] k1(1) assms(4) by auto
  let ?on = "\<lambda>r. rm_Gateway r \<noteq> [] \<and> rm_OutIface r = index"
  have "?on r" if "rib_valid route" "covers index route r" for route r
    using that by (auto simp: covers_def rib_valid_def)
  then have "\<forall>route \<in> set routes. \<exists>r \<in> set (filter ?on rs). covers index route r"
    using k'(3) assms(6) by fastforce
  moreover have "listRoutes N dev k' = Inr (filter ?on rs)"
    using k'(1,2) k1(1) assms(4) by (intro listRoutes_eq) simp_all
  ultimately show ?thesis using k'(4) k1(3) by (intro exI [of _ "filter ?on rs"]) auto
qed

text \<open>A kernel that keeps the routes in a list, for the example.\<close>

definition listable :: "RouteMessage \<Rightarrow> bool" where
  "listable r \<longleftrightarrow> unat (rm_DstLength r) \<le> 128 \<and> (rm_DstLength r = 0 \<longrightarrow> rm_Dst r = [])"

definition normal :: "RouteMessage \<Rightarrow> RouteMessage" where
  "normal msg = (if rm_DstLength msg = 0 then msg\<lparr>rm_Dst := []\<rparr> else msg)"

definition demo_kernel :: "RouteMessage list netlink" where
  "demo_kernel = \<lparr>nl_dial = True, nl_interface = (\<lambda>_ ifName. if ifName = ''wg0'' then Some 7 else None),
     nl_newLink = (\<lambda>_ k. (k, True)), nl_deleteLink = (\<lambda>_ k. (k, True)), nl_newAddress = (\<lambda>_ k. (k, True)),
     nl_routes = (\<lambda>k. Some (filter listable k)),
     nl_replace = (\<lambda>msg k. (normal msg # filter (\<lambda>r. \<not> (rm_DstLength r = rm_DstLength msg
        \<and> rm_Dst r = (if rm_DstLength msg = 0 then [] else rm_Dst msg))) k, unat (rm_DstLength msg) \<le> 128)),
     nl_delete = (\<lambda>msg k. (filter (\<lambda>r. \<not> same_route msg r) k, True)), nl_configure = (\<lambda>_ _ k. (k, True))\<rparr>"

lemma demo_kernel_laws: "delete_law demo_kernel" "replace_law demo_kernel" "listing_law demo_kernel"
  by (auto simp: delete_law_def replace_law_def listing_law_def demo_kernel_def listable_def normal_def placed_def
      split: if_splits)

definition demo_rib :: RibRoute where
  "demo_rib = \<lparr>rib_Gateway = replicate 15 0xfd @ [1],
     rib_Destination = \<lparr>net_IP = 0xfd # replicate 15 0, net_Mask = cidr_mask 64 128\<rparr>\<rparr>"

definition demo_stale :: RouteMessage where
  "demo_stale = \<lparr>rm_Family = AF_INET6, rm_DstLength = 64, rm_Dst = 0xfe # replicate 15 0,
     rm_Gateway = replicate 15 0xfd @ [2], rm_OutIface = 7\<rparr>"

lemma until_error_None: "(\<And>x k. x \<in> set xs \<Longrightarrow> snd (f x k) = None) \<Longrightarrow> snd (until_error f xs k) = None"
proof (induction xs arbitrary: k)
  case (Cons x xs)
  have "snd (f x k) = None" by (rule Cons.prems) simp
  moreover have "snd (until_error f xs k) = None" for k by (rule Cons.IH) (simp add: Cons.prems)
  ultimately show ?case by (auto split: prod.splits option.splits)
qed simp

lemma demo_rib_ones: "mask_ones (net_Mask (rib_Destination demo_rib)) = 64"
  using mask_ones_cidr_mask [of 64 16] by (simp add: demo_rib_def)

lemma demo_install: "snd (InstallRoutes demo_kernel ''wg0'' [demo_rib] k) = None"
proof -
  have "snd (DeleteRoute demo_kernel ''wg0'' x k) = None" for x k by (simp add: DeleteRoute_def demo_kernel_def)
  then have "snd (DeleteRoutes demo_kernel ''wg0'' AF_INET6 [demo_rib] k) = None"
    by (simp add: DeleteRoutes_def listRoutes_def demo_kernel_def Let_def until_error_None)
  moreover have "snd (AddRoute demo_kernel ''wg0'' demo_rib k) = None" for k
    by (simp add: AddRoute_def listRoutes_def demo_kernel_def route_message_def demo_rib_ones)
  then have "snd (until_error (AddRoute demo_kernel ''wg0'') [demo_rib] k) = None" for k
    by (intro until_error_None) simp
  moreover have "nl_dial demo_kernel" by (simp add: demo_kernel_def)
  ultimately show ?thesis by (auto simp: InstallRoutes_def simp del: until_error.simps split: prod.splits option.splits)
qed

theorem installed_routes_are_the_given_ones_witness:
  "\<exists>k' listed. InstallRoutes demo_kernel ''wg0'' [demo_rib] [demo_stale] = (k', None)
    \<and> listRoutes demo_kernel ''wg0'' k' = Inr listed
    \<and> (\<forall>r \<in> set listed. rib_equal (rib_of AF_INET6 r) demo_rib) \<and> (\<exists>r \<in> set listed. covers 7 demo_rib r)"
proof -
  from demo_install [of "[demo_stale]"] obtain k' where run: "InstallRoutes demo_kernel ''wg0'' [demo_rib] [demo_stale] = (k', None)"
    by (metis prod.collapse)
  have "rib_valid demo_rib" by (simp add: rib_valid_def demo_rib_ones) (simp add: demo_rib_def)
  with installed_routes_are_the_given_ones [OF demo_kernel_laws(1,2,3) _ run, of 7] run show ?thesis
    by (simp add: demo_kernel_def)
qed

end
