(* ===== verification/What8words.thy ===== *)
theory What8words
  imports Rt_Netlink
begin

text \<open>
  \<open>src/pkg/what8words/what8words.go\<close>: an address as words, two bytes to a pair of words. Reading the word
  file and the conversions; an index out of range is the error \<open>WordPanic\<close>. The lines of the file are
  those of Go's line scanner, which drops a carriage return and gives up at a line that fills its
  buffer of 65536 bytes.

  For a list of 256 different words without separators the identifier of an address determines its
  last eight bytes, the interface identifier of a node.
\<close>

section \<open>Operations\<close>

datatype w8_error = W8Parse | W8NotIPv6 | W8Read | WordPanic

text \<open>Lines end at a newline; what follows the last newline is a line if it is not empty.\<close>

function raw_lines :: "string \<Rightarrow> string list" where
  "raw_lines s =
     (if s = [] then []
      else takeWhile (\<lambda>c. c \<noteq> CHR 0x0A) s # raw_lines (drop 1 (dropWhile (\<lambda>c. c \<noteq> CHR 0x0A) s)))"
  by auto
termination
proof (relation "measure length")
  fix s :: string assume "s \<noteq> []"
  moreover have "length (dropWhile (\<lambda>c. c \<noteq> CHR 0x0A) s) \<le> length s" by (rule length_dropWhile_le)
  ultimately show "(drop 1 (dropWhile (\<lambda>c. c \<noteq> CHR 0x0A) s), s) \<in> measure length"
    by (cases s) auto
qed simp

declare raw_lines.simps [simp del]

definition drop_cr :: "string \<Rightarrow> string" where
  "drop_cr l = (if l \<noteq> [] \<and> last l = CHR 0x0D then butlast l else l)"

definition scan_lines :: "string \<Rightarrow> string list" where
  "scan_lines file = map drop_cr (takeWhile (\<lambda>l. length l < 65536) (raw_lines file))"

text \<open>The loop over the lines; the bound lets the counter reach the length of the slice.\<close>

fun read_loop :: "string list \<Rightarrow> nat \<Rightarrow> string list \<Rightarrow> w8_error + string list" where
  "read_loop [] counter words = Inr words"
| "read_loop (text # rest) counter words =
     (if \<not> counter \<le> length words then Inr words
      else if counter = length words then Inl WordPanic
      else read_loop rest (Suc counter) (words[counter := text]))"

definition ReadWords :: "string option \<Rightarrow> w8_error + string list" where
  "ReadWords file =
     (case file of
        None \<Rightarrow> Inl W8Read
      | Some f \<Rightarrow> read_loop (scan_lines f) 0 (replicate 257 []))"

definition To16 :: "ip \<Rightarrow> ip" where
  "To16 a = (if length a = 4 then v4InV6Prefix @ a else if length a = 16 then a else [])"

text \<open>The pair of words for the bytes \<open>i\<close> and \<open>i + 1\<close>.\<close>

definition word_pair :: "string list \<Rightarrow> ip \<Rightarrow> nat \<Rightarrow> string option" where
  "word_pair words ip16 i =
     (if unat (ip16 ! i) < length words \<and> unat (ip16 ! (i + 1)) < length words
      then Some (words ! unat (ip16 ! i) @ ''-'' @ words ! unat (ip16 ! (i + 1))) else None)"

definition Convert :: "string list \<Rightarrow> string \<Rightarrow> w8_error + string" where
  "Convert words ipStr =
     (case ParseCIDR ipStr of
        None \<Rightarrow> Inl W8Parse
      | Some (a, ipNet) \<Rightarrow>
          let ip16 = To16 a in
          if ip16 = [] then Inl W8NotIPv6
          else let pairs = map (\<lambda>g. word_pair words ip16 (2 + 2 * g)) [0..<7];
                   prefixSize = mask_ones (net_Mask ipNet) in
            if None \<in> set pairs then Inl WordPanic
            else if prefixSize div 16 < 1 then Inl WordPanic
            else Inr (join_with (CHR ''.'') (take (prefixSize div 16 - 1) (map the pairs))))"

definition ConvertIdentifier :: "string list \<Rightarrow> string \<Rightarrow> w8_error + string" where
  "ConvertIdentifier words ipStr =
     (case Convert words ipStr of
        Inl err \<Rightarrow> Inl err
      | Inr t \<Rightarrow>
          let constituents = split_at (CHR ''.'') t in
          if length constituents < 3 then Inl WordPanic
          else Inr (join_with (CHR ''.'') (drop 3 constituents)))"

section \<open>Reading the words\<close>

lemma read_loop_length: "read_loop ls i words = Inr words' \<Longrightarrow> length words' = length words"
  by (induction ls i words rule: read_loop.induct) (auto split: if_splits)

lemma read_loop_panics: "i \<le> length words \<Longrightarrow> read_loop ls i words = Inl WordPanic \<longleftrightarrow> length words < i + length ls"
  by (induction ls i words rule: read_loop.induct) auto

lemma read_words_panics:
  "ReadWords (Some f) = Inl WordPanic \<longleftrightarrow> 257 < length (scan_lines f)"
  by (simp add: ReadWords_def read_loop_panics)

section \<open>Identifiers\<close>

definition word_list :: "string list \<Rightarrow> bool" where
  "word_list words \<longleftrightarrow> 256 \<le> length words \<and> distinct (take 256 words)
     \<and> (\<forall>w \<in> set words. CHR ''.'' \<notin> set w \<and> CHR ''-'' \<notin> set w)"

lemma split_at_plain: "sep \<notin> set w \<Longrightarrow> split_at sep w = [w]"
  by (induction w) auto

lemma split_at_append: "sep \<notin> set w \<Longrightarrow> split_at sep (w @ sep # s) = w # split_at sep s"
  by (induction w) auto

lemma split_join:
  "ws \<noteq> [] \<Longrightarrow> \<forall>w \<in> set ws. sep \<notin> set w \<Longrightarrow> split_at sep (join_with sep ws) = ws"
  by (induction sep ws rule: join_with.induct) (auto simp: split_at_plain split_at_append)

lemma join_with_inj:
  assumes "length xs = length ys" and "\<forall>w \<in> set xs \<union> set ys. sep \<notin> set w" and "join_with sep xs = join_with sep ys"
  shows "xs = ys"
proof (cases "xs = []")
  case False
  then have "ys \<noteq> []" using assms(1) by auto
  with False assms show ?thesis by (metis Un_iff split_join)
qed (use assms(1) in simp)

lemma byte_index [simp]: "unat (z :: u8) < 256"
  using unsigned_less [of z, where 'a = nat] by simp

lemma word_index:
  assumes "word_list words"
  shows "words ! unat (x :: u8) = words ! unat (y :: u8) \<longleftrightarrow> x = y"
proof
  assume eq: "words ! unat x = words ! unat y"
  have "take 256 words ! unat x = take 256 words ! unat y" using eq by simp
  moreover have "length (take 256 words) = 256" using assms by (simp add: word_list_def)
  ultimately have "unat x = unat y"
    using assms by (auto simp: word_list_def nth_eq_iff_index_eq simp del: nth_take)
  then show "x = y" by (simp only: word_unat_eq_iff)
qed simp

definition pair_text :: "string list \<Rightarrow> ip \<Rightarrow> nat \<Rightarrow> string" where
  "pair_text words a g = words ! unat (a ! (2 + 2 * g)) @ CHR ''-'' # words ! unat (a ! (3 + 2 * g))"

lemma word_free:
  assumes "word_list words"
  shows "CHR ''.'' \<notin> set (words ! unat (x :: u8))" "CHR ''-'' \<notin> set (words ! unat x)"
proof -
  have "unat x < length words" using assms byte_index [of x] unfolding word_list_def by linarith
  then show "CHR ''.'' \<notin> set (words ! unat x)" "CHR ''-'' \<notin> set (words ! unat x)"
    using assms by (auto simp: word_list_def)
qed

lemma pair_text_free: "word_list words \<Longrightarrow> CHR ''.'' \<notin> set (pair_text words a g)"
  by (simp add: pair_text_def word_free)

lemma pair_text_inj:
  assumes "word_list words"
  shows "pair_text words a g = pair_text words b h \<longleftrightarrow> a ! (2 + 2 * g) = b ! (2 + 2 * h) \<and> a ! (3 + 2 * g) = b ! (3 + 2 * h)"
proof -
  have "split_at (CHR ''-'') (pair_text words c i) = [words ! unat (c ! (2 + 2 * i)), words ! unat (c ! (3 + 2 * i))]" for c i
    by (simp add: pair_text_def split_at_append split_at_plain word_free [OF assms])
  then show ?thesis by (metis list.inject pair_text_def word_index [OF assms])
qed

lemma word_pair_eq: "word_list words \<Longrightarrow> word_pair words a (2 + 2 * g) = Some (pair_text words a g)"
  by (auto simp: word_pair_def pair_text_def word_list_def less_le_trans [OF byte_index] numeral_3_eq_3 add.commute)

lemma ParseCIDR_16: "ParseCIDR s = Some (a, n) \<Longrightarrow> length a = 16"
  by (auto simp: ParseCIDR_def Let_def v4InV6Prefix_def dest: ParseAddr_length split: list.splits option.splits if_splits)

lemma Convert_host:
  assumes "word_list words" and "ParseCIDR s = Some (a, n)" and "mask_ones (net_Mask n) = 128"
  shows "Convert words s = Inr (join_with (CHR ''.'') (map (pair_text words a) [0..<7]))"
proof -
  have "To16 a = a" "a \<noteq> []" using ParseCIDR_16 [OF assms(2)] by (auto simp: To16_def)
  moreover have "map (\<lambda>g. word_pair words a (2 + 2 * g)) [0..<7] = map (Some \<circ> pair_text words a) [0..<7]"
    by (rule map_cong) (simp_all only: word_pair_eq [OF assms(1)] comp_def)
  ultimately show ?thesis
    using assms(2,3) by (simp only: Convert_def Let_def option.case prod.case) (auto simp: comp_def)
qed

text \<open>The words that name a node: those of the last eight bytes of its address.\<close>

definition identifier_text :: "string list \<Rightarrow> ip \<Rightarrow> string" where
  "identifier_text words a = join_with (CHR ''.'') (map (pair_text words a) [3..<7])"

lemma ConvertIdentifier_host:
  assumes "word_list words" and "ParseCIDR s = Some (a, n)" and "mask_ones (net_Mask n) = 128"
  shows "ConvertIdentifier words s = Inr (identifier_text words a)"
proof -
  have "split_at (CHR ''.'') (join_with (CHR ''.'') (map (pair_text words a) [0..<7])) = map (pair_text words a) [0..<7]"
    by (rule split_join) (simp_all add: pair_text_free [OF assms(1)])
  then show ?thesis
    by (simp add: ConvertIdentifier_def Convert_host [OF assms] Let_def identifier_text_def drop_map)
qed

lemma identifier_text_inj:
  assumes "word_list words" and "length a = 16" and "length b = 16"
  shows "identifier_text words a = identifier_text words b \<longleftrightarrow> drop 8 a = drop 8 b"
proof
  assume "identifier_text words a = identifier_text words b"
  then have "map (pair_text words a) [3..<7] = map (pair_text words b) [3..<7]"
    unfolding identifier_text_def by (rule join_with_inj [rotated 2]) (auto simp: pair_text_free [OF assms(1)])
  then have "\<forall>i \<in> {8..<16}. a ! i = b ! i"
    by (simp add: pair_text_inj [OF assms(1)] atLeastLessThan_nat_numeral)
  then show "drop 8 a = drop 8 b" using assms(2,3) by (intro nth_equalityI) auto
next
  assume eq: "drop 8 a = drop 8 b"
  have "a ! i = b ! i" if "8 \<le> i" "i < 16" for i
    using arg_cong [OF eq, of "\<lambda>l. l ! (i - 8)"] that assms(2,3) by simp
  then have "pair_text words a g = pair_text words b g" if "3 \<le> g" "g < 7" for g
    using that by (simp add: pair_text_inj [OF assms(1)])
  then have "map (pair_text words a) [3..<7] = map (pair_text words b) [3..<7]" by (intro map_cong) auto
  then show "identifier_text words a = identifier_text words b" by (simp add: identifier_text_def)
qed

text \<open>C38: with a word file of 256 different words that contain no separator, the identifier of a node address
  (a prefix of 128 bits) can always be computed, and two addresses have the same identifier exactly
  when their last eight bytes, the interface identifiers, are the same.\<close>

theorem identifier_names_the_interface:
  assumes "word_list words" and "ParseCIDR s = Some (a, n)" and "mask_ones (net_Mask n) = 128"
    and "ParseCIDR t = Some (b, m)" and "mask_ones (net_Mask m) = 128"
  shows "\<exists>x y. ConvertIdentifier words s = Inr x \<and> ConvertIdentifier words t = Inr y
    \<and> (x = y \<longleftrightarrow> drop 8 a = drop 8 b)"
  using identifier_text_inj [OF assms(1) ParseCIDR_16 [OF assms(2)] ParseCIDR_16 [OF assms(4)]]
  by (simp add: ConvertIdentifier_host [OF assms(1,2,3)] ConvertIdentifier_host [OF assms(1,4,5)])

definition demo_words :: "string list" where
  "demo_words = map (\<lambda>i. replicate i (CHR ''a'')) [0..<256]"

lemma demo_words: "word_list demo_words"
proof -
  have "inj_on (\<lambda>i. replicate i (CHR ''a'')) {0..<256}" by (rule inj_onI) (metis length_replicate)
  then show ?thesis by (auto simp: word_list_def demo_words_def distinct_map simp del: upt_rec_numeral)
qed

theorem identifier_names_the_interface_witness:
  "\<exists>x y. ConvertIdentifier demo_words ''::/128'' = Inr x \<and> ConvertIdentifier demo_words ''::7/128'' = Inr y \<and> x \<noteq> y"
proof -
  have "ParseAddr ''::'' = Some (replicate 16 0)" "ParseAddr ''::7'' = Some (replicate 15 0 @ [7])" by code_simp+
  from ParseCIDR_host [OF this(1)] ParseCIDR_host [OF this(2)] obtain n m where
    "ParseCIDR ''::/128'' = Some (replicate 16 0, n)" "mask_ones (net_Mask n) = 128"
    "ParseCIDR ''::7/128'' = Some (replicate 15 0 @ [7], m)" "mask_ones (net_Mask m) = 128" by auto
  from identifier_names_the_interface [OF demo_words this] 
  obtain x y where "ConvertIdentifier demo_words ''::/128'' = Inr x" "ConvertIdentifier demo_words ''::7/128'' = Inr y"
    "x = y \<longleftrightarrow> (replicate 8 0 :: u8 list) = replicate 7 0 @ [7]" by auto
  moreover have "last (replicate 8 0 :: u8 list) \<noteq> last (replicate 7 0 @ [7])" by simp
  ultimately show ?thesis by metis
qed

end
