(* ===== verification/Mesh_Manager.thy ===== *)
theory Mesh_Manager
  imports Datastore Ip
begin

text \<open>
  \<open>src/pkg/mesh/manager.go\<close> with \<open>src/pkg/cmd/cmd.go\<close>: the meshes a node takes part in and the
  operations of the daemon on them. What the operating system, the random source, the validator and
  the address look-ups answer is the record \<open>env\<close>; what the manager makes them do is a list of
  effects. An operation returns the new state, its effects in order and its outcome, since many
  operations change the state before they fail.

  The mesh providers are those of \<open>Datastore\<close>. The public key is held as text and as bytes.
\<close>

section \<open>Environment and effects\<close>

datatype effect =
    Ran "string list"
  | CreatedInterface int
  | AddedAddress string string
  | RemovedInterface string
  | OnDelete string

datatype mm_error =
    MeshMissing string
  | NodeNotInMesh string
  | ProviderError ds_error
  | InvalidConfiguration
  | CannotCreateAsClient
  | IdError
  | InterfaceError
  | DeviceError
  | AddressError
  | LoadError
  | RandomError
  | ManagerPanic

record Device =
  dev_Name :: string
  dev_ListenPort :: int

record env =
  env_now :: u64
  env_id :: "string option"
  env_createInterface :: "int \<Rightarrow> string option"
  env_device :: "string \<Rightarrow> Device option"
  env_addAddress :: "string \<Rightarrow> string \<Rightarrow> bool"
  env_removeInterface :: "string \<Rightarrow> bool"
  env_exec :: "string list \<Rightarrow> bool"
  env_random :: "nat \<Rightarrow> u8 list option"
  env_publicIP :: "ip option"
  env_outboundIP :: "ip option"
  env_valid :: "WgConfiguration \<Rightarrow> bool"
  env_readLate :: bool

record MeshManagerImpl =
  mm_meshes :: "(string, TwoPhaseStoreMeshManager) gomap"
  mm_PublicKey :: string
  mm_KeyBytes :: "u8 list"
  mm_conf :: DaemonConfiguration
  mm_hasCmdRunner :: bool
  mm_hasOnDelete :: bool

type_synonym 'a outcome = "MeshManagerImpl \<times> effect list \<times> (mm_error + 'a)"

section \<open>Running commands\<close>

definition is_space :: "char \<Rightarrow> bool" where
  "is_space c \<longleftrightarrow> c \<in> set [CHR '' '', CHR 0x09, CHR 0x0A, CHR 0x0B, CHR 0x0C, CHR 0x0D]"

function words :: "string \<Rightarrow> string list" where
  "words s = (case dropWhile is_space s of
     [] \<Rightarrow> []
   | c # r \<Rightarrow> takeWhile (\<lambda>c. \<not> is_space c) (c # r) # words (dropWhile (\<lambda>c. \<not> is_space c) (c # r)))"
  by auto
termination
proof (relation "measure length")
  fix s c r assume "dropWhile is_space s = c # r"
  moreover from this have "\<not> is_space c" by (simp add: dropWhile_eq_Cons_conv)
  ultimately have "length (dropWhile (\<lambda>c. \<not> is_space c) (c # r)) < length (c # r)"
    "length (c # r) \<le> length s"
    using length_dropWhile_le [of "\<lambda>c. \<not> is_space c" r] length_dropWhile_le [of is_space s]
    by (auto simp: le_imp_less_Suc)
  then show "(dropWhile (\<lambda>c. \<not> is_space c) (c # r), s) \<in> measure length" by simp
qed simp

declare words.simps [simp del]

text \<open>Stops at the first command that fails; a blank command has no first word, which panics.\<close>

fun RunCommands :: "(string list \<Rightarrow> bool) \<Rightarrow> string list \<Rightarrow> effect list \<times> bool option" where
  "RunCommands exec [] = ([], Some True)"
| "RunCommands exec (cmd # cmds) =
     (let args = words cmd in
      if args = [] then ([], None)
      else if \<not> exec args then ([Ran args], Some False)
      else case RunCommands exec cmds of (lg, r) \<Rightarrow> (Ran args # lg, r))"

text \<open>The manager ignores the error; without a runner the call panics.\<close>

definition run_hook :: "env \<Rightarrow> MeshManagerImpl \<Rightarrow> string list option \<Rightarrow> effect list \<times> bool" where
  "run_hook E m cmds =
     (if \<not> mm_hasCmdRunner m then ([], False)
      else case RunCommands (env_exec E) (commands cmds) of
        (lg, r) \<Rightarrow> (lg, case r of None \<Rightarrow> False | Some _ \<Rightarrow> True))"

section \<open>Reading the manager\<close>

definition MM_GetMesh :: "string \<Rightarrow> MeshManagerImpl \<Rightarrow> TwoPhaseStoreMeshManager option" where
  "MM_GetMesh meshId m = map_of (mm_meshes m) meshId"

definition set_mesh :: "string \<Rightarrow> TwoPhaseStoreMeshManager \<Rightarrow> MeshManagerImpl \<Rightarrow> MeshManagerImpl" where
  "set_mesh meshId mesh m = m\<lparr>mm_meshes := gm_put meshId mesh (mm_meshes m)\<rparr>"

definition GetMeshes :: "MeshManagerImpl \<Rightarrow> (string, TwoPhaseStoreMeshManager) gomap" where
  "GetMeshes m = fold (\<lambda>(id, mesh) meshes. gm_put id mesh meshes) (mm_meshes m) []"

definition MM_GetNode :: "string \<Rightarrow> string \<Rightarrow> MeshManagerImpl \<Rightarrow> MeshNode option" where
  "MM_GetNode meshid nodeId m =
     (case map_of (mm_meshes m) meshid of
        None \<Rightarrow> None
      | Some mesh \<Rightarrow> (case DS_GetNode nodeId mesh of Inl _ \<Rightarrow> None | Inr node \<Rightarrow> Some node))"

definition GetSelf :: "string \<Rightarrow> MeshManagerImpl \<Rightarrow> mm_error + MeshNode" where
  "GetSelf meshId m =
     (case map_of (mm_meshes m) meshId of
        None \<Rightarrow> Inl (MeshMissing meshId)
      | Some mesh \<Rightarrow>
          (case DS_GetNode (mm_PublicKey m) mesh of Inl _ \<Rightarrow> Inl (NodeNotInMesh meshId) | Inr node \<Rightarrow> Inr node))"

definition MM_HasChanges :: "string \<Rightarrow> MeshManagerImpl \<Rightarrow> mm_error + bool" where
  "MM_HasChanges meshId m =
     (case map_of (mm_meshes m) meshId of None \<Rightarrow> Inl ManagerPanic | Some mesh \<Rightarrow> Inr (DS_HasChanges mesh))"

definition getConf :: "env \<Rightarrow> WgConfiguration option \<Rightarrow> MeshManagerImpl \<Rightarrow> mm_error + WgConfiguration" where
  "getConf E ovr m =
     (let meshConfiguration = dc_BaseConfiguration (mm_conf m) in
      case ovr of
        None \<Rightarrow> Inr meshConfiguration
      | Some cfg \<Rightarrow>
          (case MergeMeshConfiguration (env_readLate E)
                  (\<lambda>c. if env_valid E c then None else Some InvalidConfiguration) [meshConfiguration, cfg] of
             (_, Some err) \<Rightarrow> Inl err
           | (newConf, None) \<Rightarrow> Inr newConf))"

section \<open>Creating, joining and leaving\<close>

definition provider_params :: "string \<Rightarrow> string \<Rightarrow> WgConfiguration \<Rightarrow> MeshManagerImpl \<Rightarrow> MeshProviderFactoryParams" where
  "provider_params ifName meshId cfg m =
     \<lparr>pp_DevName = ifName, pp_MeshId = meshId, pp_Conf = cfg, pp_DaemonConf = mm_conf m,
      pp_NodeID = mm_PublicKey m\<rparr>"

text \<open>The interface is created unless WireGuard is stubbed.\<close>

definition create_interface :: "env \<Rightarrow> int \<Rightarrow> MeshManagerImpl \<Rightarrow> effect list \<times> string option" where
  "create_interface E port m =
     (if dc_StubWg (mm_conf m) then ([], Some [])
      else ([CreatedInterface port], env_createInterface E port))"

definition MM_CreateMesh :: "env \<Rightarrow> int \<Rightarrow> WgConfiguration option \<Rightarrow> MeshManagerImpl \<Rightarrow> string outcome" where
  "MM_CreateMesh E port ovr m =
     (case getConf E ovr m of
        Inl err \<Rightarrow> (m, [], Inl err)
      | Inr cfg \<Rightarrow>
          (case cfg_Role cfg of
             None \<Rightarrow> (m, [], Inl ManagerPanic)
           | Some role \<Rightarrow>
               if role = CLIENT_ROLE then (m, [], Inl CannotCreateAsClient)
               else case env_id E of
                 None \<Rightarrow> (m, [], Inl IdError)
               | Some meshId \<Rightarrow>
                   (case run_hook E m (cfg_PreUp (dc_BaseConfiguration (mm_conf m))) of (log1, ok1) \<Rightarrow>
                    if \<not> ok1 then (m, log1, Inl ManagerPanic)
                    else case create_interface E port m of (log2, ifName) \<Rightarrow>
                      (case ifName of
                         None \<Rightarrow> (m, log1 @ log2, Inl InterfaceError)
                       | Some ifName \<Rightarrow>
                           let nodeManager = Factory_CreateMesh (mm_conf m) (provider_params ifName meshId cfg m);
                               m1 = set_mesh meshId nodeManager m
                           in case run_hook E m (cfg_PostUp (dc_BaseConfiguration (mm_conf m))) of (log3, ok3) \<Rightarrow>
                             (m1, log1 @ log2 @ log3, if ok3 then Inr meshId else Inl ManagerPanic)))))"

definition MM_AddMesh ::
  "env \<Rightarrow> string \<Rightarrow> int \<Rightarrow> MeshNode TwoPhaseMapSnapshot \<times> mm_error option \<Rightarrow> WgConfiguration option
    \<Rightarrow> MeshManagerImpl \<Rightarrow> unit outcome" where
  "MM_AddMesh E meshId port meshBytes ovr m =
     (case getConf E ovr m of
        Inl err \<Rightarrow> (m, [], Inl err)
      | Inr cfg \<Rightarrow>
          (case run_hook E m (cfg_PreUp cfg) of (log1, ok1) \<Rightarrow>
           if \<not> ok1 then (m, log1, Inl ManagerPanic)
           else case create_interface E port m of (log2, ifName) \<Rightarrow>
             (case ifName of
                None \<Rightarrow> (m, log1 @ log2, Inl InterfaceError)
              | Some ifName \<Rightarrow>
                  let meshProvider = Factory_CreateMesh (mm_conf m) (provider_params ifName meshId cfg m)
                  in case run_hook E m (cfg_PostUp cfg) of (log3, ok3) \<Rightarrow>
                    if \<not> ok3 then (m, log1 @ log2 @ log3, Inl ManagerPanic)
                    else (case DS_Load (env_now E) meshBytes meshProvider of
                      (_, Some err) \<Rightarrow> (m, log1 @ log2 @ log3, Inl err)
                    | (loaded, None) \<Rightarrow> (set_mesh meshId loaded m, log1 @ log2 @ log3, Inr ())))))"

text \<open>\<open>node.GetWgHost().IP.Equal(nodeIP)\<close> for some node; an address that does not parse panics.\<close>

fun address_taken :: "ip \<Rightarrow> MeshNode list \<Rightarrow> bool option" where
  "address_taken nodeIP [] = Some False"
| "address_taken nodeIP (node # nodes) =
     (case GetWgHost node of
        None \<Rightarrow> None
      | Some ipNet \<Rightarrow> if ip_equal (net_IP ipNet) nodeIP then Some True else address_taken nodeIP nodes)"

text \<open>
  The loop of duplicate address detection, for at most \<open>fuel\<close> rounds (\<open>None\<close>: it goes on). The address
  compared is the variable \<open>nodeIP\<close>, which is still nil inside the loop.
\<close>

fun detect_duplicates :: "env \<Rightarrow> u8 list \<Rightarrow> string \<Rightarrow> MeshNode list \<Rightarrow> nat \<Rightarrow> u8 \<Rightarrow> (mm_error + ip) option" where
  "detect_duplicates E key meshId nodes 0 collisionCount = None"
| "detect_duplicates E key meshId nodes (Suc fuel) collisionCount =
     (case ULA_GetIP (env_random E fuel) key meshId collisionCount of
        None \<Rightarrow> Some (Inl RandomError)
      | Some generatedIP \<Rightarrow>
          (case address_taken [] nodes of
             None \<Rightarrow> Some (Inl ManagerPanic)
           | Some True \<Rightarrow> detect_duplicates E key meshId nodes fuel (collisionCount + 1)
           | Some False \<Rightarrow> Some (Inr generatedIP)))"

definition mesh_nodes :: "TwoPhaseStoreMeshManager \<Rightarrow> MeshNode list" where
  "mesh_nodes mesh = MapValues (GetNodes (DS_GetMesh mesh))"

definition MM_AddSelf :: "env \<Rightarrow> string \<Rightarrow> int \<Rightarrow> string \<Rightarrow> MeshManagerImpl \<Rightarrow> unit outcome option" where
  "MM_AddSelf E meshId wgPort endpoint m =
     (case MM_GetMesh meshId m of
        None \<Rightarrow> Some (m, [], Inl (MeshMissing meshId))
      | Some mesh \<Rightarrow>
          let stub = dc_StubWg (mm_conf m); device = env_device E (IfName mesh) in
          if wgPort = 0 \<and> \<not> stub \<and> device = None then Some (m, [], Inl DeviceError)
          else let port = (if wgPort = 0 \<and> \<not> stub then dev_ListenPort (the device) else wgPort) in
          case detect_duplicates E (mm_KeyBytes m) meshId (mesh_nodes mesh) 256 0 of
            None \<Rightarrow> None
          | Some (Inl err) \<Rightarrow> Some (m, [], Inl err)
          | Some (Inr nodeIP) \<Rightarrow>
              (case Factory_Build (mm_conf m) (env_publicIP E) (env_outboundIP E)
                      \<lparr>np_PublicKey = mm_PublicKey m, np_NodeIP = nodeIP, np_WgPort = port,
                       np_Endpoint = endpoint, np_MeshConfig = MConf mesh\<rparr> of
                 Inl err \<Rightarrow> Some (m, [], Inl (ProviderError err))
               | Inr node \<Rightarrow>
                   if \<not> stub \<and> device = None then Some (m, [], Inl DeviceError)
                   else let addr = ip_string nodeIP @ ''/64'';
                            lg = (if stub then [] else [AddedAddress (dev_Name (the device)) addr]) in
                   if \<not> stub \<and> \<not> env_addAddress E (dev_Name (the device)) addr then Some (m, lg, Inl AddressError)
                   else case DS_AddNode (env_now E) (Some node) mesh of
                     Inl err \<Rightarrow> Some (m, lg, Inl (ProviderError err))
                   | Inr mesh1 \<Rightarrow> Some (set_mesh meshId mesh1 m, lg, Inr ())))"

text \<open>The node removes itself, announces that, and then forgets the mesh. Errors of the first step are
  returned at the end; those of the device before.\<close>

definition LeaveMesh :: "env \<Rightarrow> string \<Rightarrow> MeshManagerImpl \<Rightarrow> unit outcome" where
  "LeaveMesh E meshId m =
     (case MM_GetMesh meshId m of
        None \<Rightarrow> (m, [], Inl (MeshMissing meshId))
      | Some mesh \<Rightarrow>
          let removed = DS_RemoveNode (env_now E) (mm_PublicKey m) mesh;
              log0 = (if mm_hasOnDelete m then [OnDelete meshId] else []);
              m1 = m\<lparr>mm_meshes := gm_del meshId (mm_meshes m)\<rparr>;
              base = dc_BaseConfiguration (mm_conf m);
              result = (case removed of Inl err \<Rightarrow> Inl (ProviderError err) | Inr _ \<Rightarrow> Inr ()) in
          case run_hook E m (cfg_PreDown base) of (log1, ok1) \<Rightarrow>
          if \<not> ok1 then (m1, log0 @ log1, Inl ManagerPanic)
          else if dc_StubWg (mm_conf m) then
            (case run_hook E m (cfg_PostDown base) of (log2, ok2) \<Rightarrow>
               (m1, log0 @ log1 @ log2, if ok2 then result else Inl ManagerPanic))
          else case env_device E (IfName mesh) of
            None \<Rightarrow> (m1, log0 @ log1, Inl DeviceError)
          | Some device \<Rightarrow>
              if \<not> env_removeInterface E (dev_Name device)
              then (m1, log0 @ log1 @ [RemovedInterface (dev_Name device)], Inl InterfaceError)
              else (case run_hook E m (cfg_PostDown base) of (log2, ok2) \<Rightarrow>
                (m1, log0 @ log1 @ [RemovedInterface (dev_Name device)] @ log2,
                 if ok2 then result else Inl ManagerPanic)))"

section \<open>Updating the own node\<close>

text \<open>The common frame of the four setters.\<close>

definition on_self ::
  "(string \<Rightarrow> TwoPhaseStoreMeshManager \<Rightarrow> TwoPhaseStoreMeshManager result) \<Rightarrow> string \<Rightarrow> MeshManagerImpl
    \<Rightarrow> mm_error + MeshManagerImpl" where
  "on_self op meshId m =
     (case MM_GetMesh meshId m of
        None \<Rightarrow> Inl (MeshMissing meshId)
      | Some mesh \<Rightarrow>
          if \<not> DS_NodeExists (mm_PublicKey m) mesh then Inl (NodeNotInMesh meshId)
          else case op (mm_PublicKey m) mesh of
            Inl err \<Rightarrow> Inl (ProviderError err)
          | Inr mesh1 \<Rightarrow> Inr (set_mesh meshId mesh1 m))"

definition MM_SetDescription :: "u64 \<Rightarrow> string \<Rightarrow> string \<Rightarrow> MeshManagerImpl \<Rightarrow> mm_error + MeshManagerImpl" where
  "MM_SetDescription now meshId description = on_self (\<lambda>k. DS_SetDescription now k description) meshId"

definition MM_SetAlias :: "u64 \<Rightarrow> string \<Rightarrow> string \<Rightarrow> MeshManagerImpl \<Rightarrow> mm_error + MeshManagerImpl" where
  "MM_SetAlias now meshId alias = on_self (\<lambda>k. DS_SetAlias now k alias) meshId"

definition MM_SetService :: "u64 \<Rightarrow> string \<Rightarrow> string \<Rightarrow> string \<Rightarrow> MeshManagerImpl \<Rightarrow> mm_error + MeshManagerImpl" where
  "MM_SetService now meshId service value = on_self (\<lambda>k. DS_AddService now k service value) meshId"

definition MM_RemoveService :: "u64 \<Rightarrow> string \<Rightarrow> string \<Rightarrow> MeshManagerImpl \<Rightarrow> mm_error + MeshManagerImpl" where
  "MM_RemoveService now meshId service = on_self (\<lambda>k. DS_RemoveService now k service) meshId"

text \<open>The heartbeat in every mesh; the loop stops at the first error, keeping what it did.\<close>

fun update_all :: "u64 \<Rightarrow> string list \<Rightarrow> MeshManagerImpl \<Rightarrow> MeshManagerImpl \<times> ds_error option" where
  "update_all now [] m = (m, None)"
| "update_all now (meshId # ids) m =
     (case map_of (mm_meshes m) meshId of
        None \<Rightarrow> update_all now ids m
      | Some mesh \<Rightarrow>
          if DS_NodeExists (mm_PublicKey m) mesh then
            (case DS_UpdateTimeStamp now (mm_PublicKey m) mesh of
               Inl err \<Rightarrow> (m, Some err)
             | Inr mesh1 \<Rightarrow> update_all now ids (set_mesh meshId mesh1 m))
          else update_all now ids m)"

definition MM_UpdateTimeStamp :: "u64 \<Rightarrow> MeshManagerImpl \<Rightarrow> MeshManagerImpl \<times> ds_error option" where
  "MM_UpdateTimeStamp now m = update_all now (map fst (GetMeshes m)) m"

fun close_all :: "env \<Rightarrow> TwoPhaseStoreMeshManager list \<Rightarrow> effect list \<times> mm_error option" where
  "close_all E [] = ([], None)"
| "close_all E (mesh # meshes) =
     (case env_device E (IfName mesh) of
        None \<Rightarrow> ([], Some DeviceError)
      | Some dev \<Rightarrow>
          if \<not> env_removeInterface E (dev_Name dev) then ([RemovedInterface (dev_Name dev)], Some InterfaceError)
          else case close_all E meshes of (lg, err) \<Rightarrow> (RemovedInterface (dev_Name dev) # lg, err))"

definition MM_Close :: "env \<Rightarrow> MeshManagerImpl \<Rightarrow> effect list \<times> mm_error option" where
  "MM_Close E m = (if dc_StubWg (mm_conf m) then ([], None) else close_all E (MapValues (mm_meshes m)))"

text \<open>A command runner passed in the parameters is not stored.\<close>

definition NewMeshManager ::
  "string \<Rightarrow> u8 list \<Rightarrow> DaemonConfiguration \<Rightarrow> bool \<Rightarrow> bool \<Rightarrow> MeshManagerImpl" where
  "NewMeshManager publicKey keyBytes cfg runnerGiven onDeleteGiven =
     \<lparr>mm_meshes = [], mm_PublicKey = publicKey, mm_KeyBytes = keyBytes, mm_conf = cfg,
      mm_hasCmdRunner = \<not> runnerGiven, mm_hasOnDelete = onDeleteGiven\<rparr>"

section \<open>Properties\<close>

lemma set_mesh_frame [frame_simps, simp]:
  "mm_conf (set_mesh meshId mesh m) = mm_conf m" "mm_PublicKey (set_mesh meshId mesh m) = mm_PublicKey m"
  "mm_KeyBytes (set_mesh meshId mesh m) = mm_KeyBytes m"
  "mm_hasCmdRunner (set_mesh meshId mesh m) = mm_hasCmdRunner m" "mm_hasOnDelete (set_mesh meshId mesh m) = mm_hasOnDelete m"
  by (simp_all add: set_mesh_def)

lemma GetWgHost_not_nil: "GetWgHost node = Some n \<Longrightarrow> net_IP n \<noteq> []"
  using ParseCIDR_length by (force simp: GetWgHost_def)

lemma address_taken_nil:
  "\<forall>node \<in> set nodes. GetWgHost node \<noteq> None \<Longrightarrow> address_taken [] nodes = Some False"
  by (induction nodes) (auto simp: ip_equal_def dest: GetWgHost_not_nil)

lemma detection_first_round:
  assumes "\<forall>node \<in> set nodes. GetWgHost node \<noteq> None" and "env_random E 255 = Some modifier"
  shows "\<exists>a. ULA_GetIP (Some modifier) key meshId 0 = Some a
    \<and> detect_duplicates E key meshId nodes 256 0 = Some (Inr a)"
proof -
  obtain a where "ULA_GetIP (Some modifier) key meshId 0 = Some a" by (simp add: ULA_GetIP_def NewCga_def)
  then show ?thesis
    using address_taken_nil [OF assms(1)] assms(2)
    by (simp add: detect_duplicates.simps(2) [of E key meshId nodes 255] numeral_eq_Suc)
qed


definition demo_env :: env where
  "demo_env = \<lparr>env_now = 7, env_id = Some ''mesh'', env_createInterface = (\<lambda>_. Some ''wg0''),
     env_device = (\<lambda>n. Some \<lparr>dev_Name = n, dev_ListenPort = 51820\<rparr>), env_addAddress = (\<lambda>_ _. True),
     env_removeInterface = (\<lambda>_. True), env_exec = (\<lambda>_. True), env_random = (\<lambda>_. Some (replicate 16 3)),
     env_publicIP = Some [1, 2, 3, 4], env_outboundIP = None, env_valid = (\<lambda>_. True), env_readLate = True\<rparr>"


lemma create_frame:
  "map_of (mm_meshes (set_mesh meshId mesh m)) j = (if j = meshId then Some mesh else map_of (mm_meshes m) j)"
  by (simp add: set_mesh_def)

lemma new_mesh_empty: "DS_GetMesh (Factory_CreateMesh cfg params) = []"
  by (simp add: DS_GetMesh_def Factory_CreateMesh_def NewTwoPhaseMap_def NewGMap_def TP_AsList_eq TP_keys_eq)

text \<open>A mesh that was created is empty, is filed under the generated identifier and leaves the
  other meshes alone; a client cannot create one. An error that is returned (as opposed to a panic
  of a hook) leaves the manager as it was.\<close>

lemma create_mesh_outcomes:
  assumes "MM_CreateMesh E port ovr m = (m', lg, r)"
  shows "(\<forall>meshId. r = Inr meshId \<longrightarrow> env_id E = Some meshId
      \<and> (\<exists>mesh. MM_GetMesh meshId m' = Some mesh \<and> DS_GetMesh mesh = [] \<and> MeshId mesh = meshId)
      \<and> (\<forall>j. j \<noteq> meshId \<longrightarrow> MM_GetMesh j m' = MM_GetMesh j m))
    \<and> (\<forall>err. r = Inl err \<and> err \<noteq> ManagerPanic \<longrightarrow> m' = m)
    \<and> (\<forall>cfg. getConf E ovr m = Inr cfg \<and> cfg_Role cfg = Some CLIENT_ROLE
        \<longrightarrow> r = Inl CannotCreateAsClient \<and> lg = [] \<and> m' = m)"
  using assms
  by (auto simp: MM_CreateMesh_def MM_GetMesh_def create_frame new_mesh_empty Let_def
      split: sum.splits option.splits if_splits prod.splits)
    (simp_all add: Factory_CreateMesh_def provider_params_def)

definition demo_manager :: MeshManagerImpl where
  "demo_manager = NewMeshManager ''k1'' (replicate 32 5) demo_daemon False False"


text \<open>Leaving a mesh that exists always makes the manager forget it, whatever fails on the way, and
  keeps the other meshes; the announcement is the first effect. Leaving an unknown mesh does nothing.\<close>

lemma leave_mesh_forgets_it:
  assumes "LeaveMesh E meshId m = (m', lg, r)"
  shows "(case MM_GetMesh meshId m of
      None \<Rightarrow> m' = m \<and> lg = [] \<and> r = Inl (MeshMissing meshId)
    | Some mesh \<Rightarrow> MM_GetMesh meshId m' = None \<and> (\<forall>j. j \<noteq> meshId \<longrightarrow> MM_GetMesh j m' = MM_GetMesh j m)
        \<and> (mm_hasOnDelete m \<longrightarrow> (\<exists>lg'. lg = OnDelete meshId # lg')))"
  using assms
  by (auto simp: LeaveMesh_def MM_GetMesh_def Let_def split: option.splits if_splits prod.splits)


text \<open>The daemon's setters act on its own node in the named mesh only: the other meshes and the
  other nodes are unchanged, and an unknown mesh or a mesh the node is not part of is an error.\<close>

lemma manager_setters_update_own_node:
  assumes "\<forall>(j, mesh) \<in> set (mm_meshes m). ds_ready 1 mesh"
  shows "case MM_GetMesh meshId m of
      None \<Rightarrow> MM_SetAlias now meshId v m = Inl (MeshMissing meshId)
        \<and> MM_SetDescription now meshId v m = Inl (MeshMissing meshId)
    | Some mesh \<Rightarrow>
        if \<not> ds_contains (mm_PublicKey m) mesh
        then MM_SetAlias now meshId v m = Inl (NodeNotInMesh meshId)
          \<and> MM_SetDescription now meshId v m = Inl (NodeNotInMesh meshId)
        else (\<exists>m1 mesh1. MM_SetAlias now meshId v m = Inr m1 \<and> MM_GetMesh meshId m1 = Some mesh1
            \<and> updates_node (mm_PublicKey m) (Alias_update (\<lambda>_. v)) mesh (Inr mesh1)
            \<and> (\<forall>j. j \<noteq> meshId \<longrightarrow> MM_GetMesh j m1 = MM_GetMesh j m))
          \<and> (\<exists>m1 mesh1. MM_SetDescription now meshId v m = Inr m1 \<and> MM_GetMesh meshId m1 = Some mesh1
            \<and> updates_node (mm_PublicKey m) (Description_update (\<lambda>_. v)) mesh (Inr mesh1)
            \<and> (\<forall>j. j \<noteq> meshId \<longrightarrow> MM_GetMesh j m1 = MM_GetMesh j m))"
proof (cases "MM_GetMesh meshId m")
  case (Some mesh)
  then have "(meshId, mesh) \<in> set (mm_meshes m)" by (simp add: MM_GetMesh_def map_of_SomeD)
  then have r: "ds_ready (Suc 0) mesh" using assms by auto
  show ?thesis
    using Some updates_node_put [OF r, of "mm_PublicKey m" "Alias_update (\<lambda>_. v)" now]
      updates_node_put [OF r, of "mm_PublicKey m" "Description_update (\<lambda>_. v)" now]
    by (auto simp: MM_SetAlias_def MM_SetDescription_def on_self_def DS_NodeExists_def DS_SetAlias_def
      DS_SetDescription_def MM_GetMesh_def create_frame Let_def)
qed (simp add: MM_SetAlias_def MM_SetDescription_def on_self_def)


end
