(* ===== verification/Route_Manager.thy ===== *)
theory Route_Manager
  imports Mesh_Manager
begin

text \<open>
  \<open>src/pkg/mesh/route.go\<close>: \<open>UpdateRoutes\<close> leaks routes between the meshes of a node. It first
  collects, for every mesh, the routes this node should advertise there, and then replaces the
  node's routes in each mesh by them.

  \<open>keyString\<close> is what the WireGuard library prints for a public key after parsing it. Errors of
  \<open>AddRoutes\<close> and \<open>RemoveRoutes\<close> are ignored as in the code, but not their panics. A Go pointer
  comparison of two meshes is the comparison of the keys they are filed under.
\<close>

section \<open>Operations\<close>

type_synonym route_table = "(string, mesh_route list) gomap"

definition route_list :: "route_table \<Rightarrow> string \<Rightarrow> mesh_route list" where
  "route_list routes meshId = (case map_of routes meshId of None \<Rightarrow> [] | Some rs \<Rightarrow> rs)"

text \<open>The error of a provider is dropped, a panic is not.\<close>

definition ignore_error ::
  "TwoPhaseStoreMeshManager \<Rightarrow> TwoPhaseStoreMeshManager result \<Rightarrow> mm_error + TwoPhaseStoreMeshManager" where
  "ignore_error mesh r =
     (case r of
        Inr mesh1 \<Rightarrow> Inr mesh1
      | Inl NilMapWrite \<Rightarrow> Inl ManagerPanic
      | Inl _ \<Rightarrow> Inr mesh)"

definition defaultRoute :: "string \<Rightarrow> mesh_route" where
  "defaultRoute meshId =
     StubRoute \<lparr>rs_Destination = map_option snd (ParseCIDR ''::/0''), rs_Path = [meshId]\<rparr>"

definition prefixRoute :: "string \<Rightarrow> mesh_route" where
  "prefixRoute meshId = StubRoute \<lparr>rs_Destination = GetIPNet meshId, rs_Path = [meshId]\<rparr>"

text \<open>The filter against routing loops; \<open>None\<close> is a nil destination or an empty path.\<close>

definition no_loop :: "string \<Rightarrow> mesh_route \<Rightarrow> bool option" where
  "no_loop meshId2 r =
     (case (GetDestination r, GetIPNet meshId2) of
        (Some dest, Some mesh2IpNet) \<Rightarrow>
          if ip_equal (net_IP dest) (net_IP mesh2IpNet) then Some False
          else if GetPath r = [] then None
          else Some (\<not> Contains (tl (GetPath r)) (\<lambda>s. s = meshId2))
      | _ \<Rightarrow> None)"

fun filter_routes :: "string \<Rightarrow> mesh_route list \<Rightarrow> mesh_route list option" where
  "filter_routes meshId2 [] = Some []"
| "filter_routes meshId2 (r # rs) =
     (case no_loop meshId2 r of
        None \<Rightarrow> None
      | Some keep \<Rightarrow> map_option (\<lambda>rs'. if keep then r # rs' else rs') (filter_routes meshId2 rs))"

text \<open>The inner loop: what \<open>mesh1\<close> contributes to every other mesh.\<close>

fun leak ::
  "(string \<times> TwoPhaseStoreMeshManager) \<Rightarrow> mesh_route list \<Rightarrow> (string \<times> TwoPhaseStoreMeshManager) list
    \<Rightarrow> route_table \<Rightarrow> mm_error + route_table" where
  "leak mesh1 routeValues1 [] routes = Inr routes"
| "leak mesh1 routeValues1 (mesh2 # meshes) routes =
     (if fst mesh1 = fst mesh2 then leak mesh1 routeValues1 meshes routes
      else let meshId1 = MeshId (snd mesh1); meshId2 = MeshId (snd mesh2) in
        case filter_routes meshId2 (route_list routes meshId2 @ [prefixRoute meshId1] @ routeValues1) of
          None \<Rightarrow> Inl ManagerPanic
        | Some routeValues \<Rightarrow> leak mesh1 routeValues1 meshes (gm_put meshId2 routeValues routes))"

text \<open>One round of the outer loop for the mesh filed under \<open>mid\<close>. The default route that was added
  stays when a later step fails.\<close>

definition collect_mesh ::
  "(string \<Rightarrow> string) \<Rightarrow> u64 \<Rightarrow> string \<Rightarrow> MeshManagerImpl \<Rightarrow> route_table
    \<Rightarrow> MeshManagerImpl \<times> (mm_error + route_table)" where
  "collect_mesh keyString now mid m routes =
     (case MM_GetMesh mid m of
        None \<Rightarrow> (m, Inr routes)
      | Some mesh1 \<Rightarrow>
          (case cfg_AdvertiseRoutes (MConf mesh1) of
             None \<Rightarrow> (m, Inl ManagerPanic)
           | Some False \<Rightarrow> (m, Inr routes)
           | Some True \<Rightarrow>
               (case DS_GetNode (mm_PublicKey m) mesh1 of
                  Inl err \<Rightarrow> (m, Inl (ProviderError err))
                | Inr self \<Rightarrow>
                    let nodeId = keyString (PublicKey self) in
                    (case cfg_AdvertiseDefaultRoute (MConf mesh1) of
                       None \<Rightarrow> (m, Inl ManagerPanic)
                     | Some advertise \<Rightarrow>
                         (case (if advertise
                                then ignore_error mesh1 (DS_AddRoutes now nodeId [defaultRoute (MeshId mesh1)] mesh1)
                                else Inr mesh1) of
                            Inl err \<Rightarrow> (m, Inl err)
                          | Inr mesh1' \<Rightarrow>
                              let m1 = set_mesh mid mesh1' m;
                                  routes1 = (if advertise
                                    then gm_put (MeshId mesh1)
                                      (route_list routes (MeshId mesh1) @ [defaultRoute (MeshId mesh1)]) routes
                                    else routes)
                              in case DS_GetRoutes nodeId mesh1' of
                                Inl err \<Rightarrow> (m1, Inl (ProviderError err))
                              | Inr routeMap \<Rightarrow>
                                  (m1, leak (mid, mesh1') (MapValues routeMap) (GetMeshes m1) routes1))))))"

fun collect ::
  "(string \<Rightarrow> string) \<Rightarrow> u64 \<Rightarrow> string list \<Rightarrow> MeshManagerImpl \<Rightarrow> route_table
    \<Rightarrow> MeshManagerImpl \<times> (mm_error + route_table)" where
  "collect keyString now [] m routes = (m, Inr routes)"
| "collect keyString now (mid # mids) m routes =
     (case collect_mesh keyString now mid m routes of
        (m1, Inl err) \<Rightarrow> (m1, Inl err)
      | (m1, Inr routes1) \<Rightarrow> collect keyString now mids m1 routes1)"

text \<open>Replace the routes of this node in one mesh.\<close>

definition install_mesh ::
  "(string \<Rightarrow> string) \<Rightarrow> u64 \<Rightarrow> string \<Rightarrow> mesh_route list \<Rightarrow> TwoPhaseStoreMeshManager
    \<Rightarrow> mm_error + TwoPhaseStoreMeshManager" where
  "install_mesh keyString now publicKey meshRoutes mesh =
     (case DS_GetNode publicKey mesh of
        Inl err \<Rightarrow> Inl (ProviderError err)
      | Inr self \<Rightarrow>
          let toRemove = fold (\<lambda>route toRemove.
                if \<not> Contains meshRoutes (\<lambda>r. RouteEqual r route) then toRemove @ [route] else toRemove)
                (Node_GetRoutes self) [];
              nodeId = keyString (PublicKey self)
          in case ignore_error mesh (DS_RemoveRoutes now nodeId toRemove mesh) of
               Inl err \<Rightarrow> Inl err
             | Inr mesh1 \<Rightarrow> ignore_error mesh1 (DS_AddRoutes now nodeId meshRoutes mesh1))"

fun install ::
  "(string \<Rightarrow> string) \<Rightarrow> u64 \<Rightarrow> (string \<times> mesh_route list) list \<Rightarrow> MeshManagerImpl
    \<Rightarrow> MeshManagerImpl \<times> mm_error option" where
  "install keyString now [] m = (m, None)"
| "install keyString now ((meshId, meshRoutes) # routes) m =
     (case MM_GetMesh meshId m of
        None \<Rightarrow> (m, Some ManagerPanic)
      | Some mesh \<Rightarrow>
          (case install_mesh keyString now (mm_PublicKey m) meshRoutes mesh of
             Inl err \<Rightarrow> (m, Some err)
           | Inr mesh1 \<Rightarrow> install keyString now routes (set_mesh meshId mesh1 m)))"

definition UpdateRoutes ::
  "(string \<Rightarrow> string) \<Rightarrow> u64 \<Rightarrow> MeshManagerImpl \<Rightarrow> MeshManagerImpl \<times> mm_error option" where
  "UpdateRoutes keyString now m =
     (let meshes = GetMeshes m;
          routes = fold (\<lambda>(_, mesh) routes. gm_put (MeshId mesh) [] routes) meshes []
      in case collect keyString now (map fst meshes) m routes of
           (m1, Inl err) \<Rightarrow> (m1, Some err)
         | (m1, Inr routes1) \<Rightarrow> install keyString now routes1 m1)"

section \<open>No routing loops\<close>

definition loop_free :: "string \<Rightarrow> mesh_route \<Rightarrow> bool" where
  "loop_free meshId r \<longleftrightarrow> meshId \<notin> set (tl (GetPath r))"

definition table_ok :: "route_table \<Rightarrow> bool" where
  "table_ok routes \<longleftrightarrow> gm_wf routes \<and> (\<forall>meshId. \<forall>r \<in> set (route_list routes meshId). loop_free meshId r)"

lemma filter_routes_sound:
  "filter_routes meshId rs = Some rs' \<Longrightarrow> r \<in> set rs' \<Longrightarrow> r \<in> set rs \<and> loop_free meshId r"
proof (induction rs arbitrary: rs')
  case (Cons a rs)
  obtain keep where keep: "no_loop meshId a = Some keep" using Cons.prems(1) by (cases "no_loop meshId a") auto
  obtain rs1 where rs1: "filter_routes meshId rs = Some rs1" "rs' = (if keep then a # rs1 else rs1)"
    using Cons.prems(1) keep by auto
  have "keep \<Longrightarrow> loop_free meshId a"
    using keep by (auto simp: no_loop_def loop_free_def split: option.splits if_splits)
  then show ?case using Cons.IH [OF rs1(1)] Cons.prems(2) rs1(2) by (auto split: if_splits)
qed simp

lemma route_list_put [simp]:
  "route_list (gm_put k v routes) j = (if j = k then v else route_list routes j)"
  by (simp add: route_list_def)

lemma leak_ok: "leak mesh1 rv meshes routes = Inr routes' \<Longrightarrow> table_ok routes \<Longrightarrow> table_ok routes'"
proof (induction mesh1 rv meshes routes arbitrary: routes' rule: leak.induct)
  case (2 mesh1 rv mesh2 meshes routes)
  let ?id2 = "MeshId (snd mesh2)"
  show ?case
  proof (cases "fst mesh1 = fst mesh2")
    case True
    with 2 show ?thesis by simp
  next
    case False
    then obtain rs where rs: "filter_routes ?id2
        (route_list routes ?id2 @ [prefixRoute (MeshId (snd mesh1))] @ rv) = Some rs"
      "leak mesh1 rv meshes (gm_put ?id2 rs routes) = Inr routes'"
      using "2.prems"(1) by (auto simp: Let_def split: option.splits)
    have "table_ok (gm_put ?id2 rs routes)"
      using "2.prems"(2) filter_routes_sound [OF rs(1)] by (auto simp: table_ok_def)
    with "2.IH"(2) [OF False refl refl rs(1,2)] show ?thesis by simp
  qed
qed simp

lemma collect_mesh_ok:
  assumes "collect_mesh keyString now mid m routes = (m', Inr routes')" and "table_ok routes"
  shows "table_ok routes'"
proof -
  have default: "table_ok (gm_put i (route_list routes i @ [defaultRoute i]) routes)" for i
    using assms(2) by (auto simp: table_ok_def defaultRoute_def loop_free_def)
  show ?thesis
    using assms default
    by (auto simp: collect_mesh_def Let_def dest: leak_ok split: option.splits sum.splits bool.splits if_splits)
qed

lemma collect_ok: "collect keyString now mids m routes = (m', Inr routes') \<Longrightarrow> table_ok routes \<Longrightarrow> table_ok routes'"
proof (induction mids arbitrary: m routes)
  case (Cons mid mids)
  then show ?case
    by (auto split: sum.splits prod.splits dest: collect_mesh_ok)
qed simp

lemma table_ok_put: "table_ok routes \<Longrightarrow> table_ok (gm_put k [] routes)"
  by (auto simp: table_ok_def)

lemma initial_routes_ok:
  "table_ok (fold (\<lambda>(_, mesh) routes. gm_put (MeshId mesh) [] routes) meshes [])"
proof -
  have "table_ok acc \<Longrightarrow> table_ok (fold (\<lambda>(_, mesh) routes. gm_put (MeshId mesh) [] routes) meshes acc)" for acc
    by (induction meshes arbitrary: acc) (auto simp: table_ok_put)
  moreover have "table_ok []" by (simp add: table_ok_def route_list_def)
  ultimately show ?thesis by blast
qed

text \<open>C7: no route loops back. Of the routes that \<open>UpdateRoutes\<close> computes for a mesh, none has that mesh
  on its path after the first hop, whatever the meshes, their routes and the order of iteration.\<close>

theorem leaked_routes_are_loop_free:
  assumes "collect keyString now (map fst (GetMeshes m)) m
      (fold (\<lambda>(_, mesh) routes. gm_put (MeshId mesh) [] routes) (GetMeshes m) []) = (m', Inr routes)"
  shows "\<forall>(meshId, meshRoutes) \<in> set routes. \<forall>route \<in> set meshRoutes. meshId \<notin> set (tl (GetPath route))"
proof -
  have ok: "table_ok routes" using collect_ok [OF assms initial_routes_ok] .
  then have "map_of routes meshId = Some meshRoutes" if "(meshId, meshRoutes) \<in> set routes" for meshId meshRoutes
    using that by (simp add: table_ok_def gm_entry)
  with ok show ?thesis by (fastforce simp: table_ok_def route_list_def loop_free_def)
qed

definition demo_a :: TwoPhaseStoreMeshManager where
  "demo_a = demo_mesh\<lparr>MConf := zeroConfiguration\<lparr>cfg_AdvertiseRoutes := Some True,
     cfg_AdvertiseDefaultRoute := Some False\<rparr>\<rparr>"

definition demo_b :: TwoPhaseStoreMeshManager where
  "demo_b = demo_mesh\<lparr>MeshId := ''other'', MConf := zeroConfiguration\<lparr>cfg_AdvertiseRoutes := Some False\<rparr>\<rparr>"

definition demo_router :: MeshManagerImpl where
  "demo_router = demo_manager\<lparr>mm_meshes := [(''mesh'', demo_a), (''other'', demo_b)]\<rparr>"

lemma demo_router_meshes:
  "MeshId demo_a = ''mesh''" "MeshId demo_b = ''other''"
  "cfg_AdvertiseRoutes (MConf demo_a) = Some True" "cfg_AdvertiseDefaultRoute (MConf demo_a) = Some False"
  "cfg_AdvertiseRoutes (MConf demo_b) = Some False"
  "DS_GetNode ''k1'' demo_a = Inr demo_node" "PublicKey demo_node = ''k1''"
  by (simp_all add: demo_a_def demo_b_def DS_GetNode_def demo_node_def)
    (simp add: demo_mesh_def demo_empty_def Factory_CreateMesh_def ds_put_def)

lemma demo_a_routes: "DS_GetRoutes ''k1'' demo_a = Inr []"
  by code_simp

lemma demo_router_fields:
  "mm_meshes demo_router = [(''mesh'', demo_a), (''other'', demo_b)]" "mm_PublicKey demo_router = ''k1''"
  "set_mesh ''mesh'' demo_a demo_router = demo_router"
  "GetMeshes demo_router = [(''mesh'', demo_a), (''other'', demo_b)]"
  by (simp_all add: demo_router_def demo_manager_def NewMeshManager_def set_mesh_def GetMeshes_def)

lemma demo_router_collects:
  "\<exists>r. collect (\<lambda>k. k) 9 [''mesh'', ''other''] demo_router [(''mesh'', []), (''other'', [])]
    = (demo_router, Inr [(''mesh'', []), (''other'', r)])"
proof -
  obtain keep where "no_loop ''other'' (prefixRoute ''mesh'') = Some keep"
    by (cases "ip_equal (getMeshPrefix ''mesh'') (getMeshPrefix ''other'')")
      (auto simp: no_loop_def prefixRoute_def GetIPNet_eq GetDestination.simps)
  then obtain r where r: "filter_routes ''other'' [prefixRoute ''mesh''] = Some r" by simp
  have "leak (''mesh'', demo_a) [] [(''mesh'', demo_a), (''other'', demo_b)] [(''mesh'', []), (''other'', [])]
      = Inr [(''mesh'', []), (''other'', r)]"
    using r by (simp add: demo_router_meshes route_list_def)
  then have "collect_mesh (\<lambda>k. k) 9 ''mesh'' demo_router [(''mesh'', []), (''other'', [])]
      = (demo_router, Inr [(''mesh'', []), (''other'', r)])"
    by (simp add: collect_mesh_def MM_GetMesh_def demo_router_fields demo_router_meshes demo_a_routes)
  moreover have "collect_mesh (\<lambda>k. k) 9 ''other'' demo_router rs = (demo_router, Inr rs)" for rs
    by (simp add: collect_mesh_def MM_GetMesh_def demo_router_fields demo_router_meshes)
  ultimately show ?thesis by simp
qed

theorem leaked_routes_are_loop_free_witness:
  "\<exists>m' routes. collect (\<lambda>k. k) 9 [''mesh'', ''other''] demo_router [(''mesh'', []), (''other'', [])] = (m', Inr routes)
    \<and> (\<forall>(meshId, meshRoutes) \<in> set routes. \<forall>route \<in> set meshRoutes. meshId \<notin> set (tl (GetPath route)))"
proof -
  obtain r where run: "collect (\<lambda>k. k) 9 [''mesh'', ''other''] demo_router [(''mesh'', []), (''other'', [])]
    = (demo_router, Inr [(''mesh'', []), (''other'', r)])" using demo_router_collects by blast
  have "map fst (GetMeshes demo_router) = [''mesh'', ''other'']"
    "fold (\<lambda>(_, mesh) routes. gm_put (MeshId mesh) [] routes) (GetMeshes demo_router) [] = [(''mesh'', []), (''other'', [])]"
    by (simp_all add: demo_router_fields demo_router_meshes)
  then have "\<forall>(meshId, meshRoutes) \<in> set [(''mesh'', []), (''other'', r)]. \<forall>route \<in> set meshRoutes.
      meshId \<notin> set (tl (GetPath route))"
    using run by (intro leaked_routes_are_loop_free [of "\<lambda>k. k" 9 demo_router demo_router])
      (simp add: demo_router_fields demo_router_meshes del: collect.simps)
  with run show ?thesis by blast
qed

section \<open>Withdrawing routes\<close>

lemma Node_GetRoutes_eq: "Routes n = Some rs \<Longrightarrow> Node_GetRoutes n = map (StoreRoute \<circ> snd) rs"
  by (simp add: Node_GetRoutes_def node_routes_def)

text \<open>C18: after the routes of the node are replaced, the node advertises exactly the computed
  destinations: every route it still has is one of the computed routes, with its path, so a route
  that is no longer reachable is withdrawn, and every computed destination has a route that is no
  longer than the computed ones.\<close>

theorem stale_routes_are_withdrawn:
  assumes "ds_ready 2 mesh" and "ds_contains nodeId mesh" and "Routes (ds_get nodeId mesh) = Some rs"
    and "gm_wf rs" and "\<forall>(k, r) \<in> set rs. route_key (StoreRoute r) = k"
    and "keyString (PublicKey (ds_get nodeId mesh)) = nodeId"
  shows "\<exists>mesh' rs'. install_mesh keyString now nodeId meshRoutes mesh = Inr mesh'
    \<and> Routes (ds_get nodeId mesh') = Some rs'
    \<and> (\<forall>k r. map_of rs' k = Some r \<longrightarrow> (\<exists>route \<in> set meshRoutes. route_key route = k \<and> GetPath route = rt_Path r))
    \<and> (\<forall>route \<in> set meshRoutes. \<exists>r. map_of rs' (route_key route) = Some r \<and> hops r \<le> GetHopCount route)"
proof -
  have r: "ds_ready (Suc 1) mesh" "ds_ready 1 mesh"
    using assms(1) by (simp_all add: numeral_2_eq_2 tp_ready_def tp_room_def)
  let ?rem = "filter (\<lambda>route. \<not> (\<exists>r \<in> set meshRoutes. RouteEqual r route)) (map (StoreRoute \<circ> snd) rs)"
  obtain mesh1 rs1 where m1: "DS_RemoveRoutes now nodeId ?rem mesh = Inr mesh1" "ds_ready 1 mesh1"
    "ds_contains nodeId mesh1" "Routes (ds_get nodeId mesh1) = Some rs1"
    and rs1: "\<And>key. map_of rs1 key = (if key \<in> route_key ` set ?rem then None else map_of rs key)"
    using DS_RemoveRoutes_result [OF r assms(2,3), of now ?rem] by auto
  obtain mesh2 rs2 where m2: "DS_AddRoutes now nodeId meshRoutes mesh1 = Inr mesh2"
    "Routes (ds_get nodeId mesh2) = Some rs2" and rs2: "shortest_of rs1 meshRoutes rs2"
    using DS_AddRoutes_result [of 0 mesh1 nodeId rs1 now meshRoutes] m1 by auto
  have kept: "\<exists>route \<in> set meshRoutes. route_key route = k \<and> GetPath route = rt_Path x" if "map_of rs1 k = Some x" for k x
  proof -
    have k: "map_of rs k = Some x" "k \<notin> route_key ` set ?rem" using that rs1 [of k] by (auto split: if_splits)
    then have "(k, x) \<in> set rs" "route_key (StoreRoute x) = k" using assms(5) by (auto dest: map_of_SomeD)
    with k(2) obtain route where "route \<in> set meshRoutes" "RouteEqual route (StoreRoute x)" by force
    with \<open>route_key (StoreRoute x) = k\<close> show ?thesis by (auto simp: RouteEqual_def)
  qed
  have "\<exists>route \<in> set meshRoutes. route_key route = k \<and> GetPath route = rt_Path x" if "map_of rs2 k = Some x" for k x
    using rs2 [unfolded shortest_of_def, rule_format, of k] that kept [of k x] by auto
  moreover have "\<exists>x. map_of rs2 (route_key route) = Some x \<and> hops x \<le> GetHopCount route"
    if "route \<in> set meshRoutes" for route
    using rs2 [unfolded shortest_of_def, rule_format, of "route_key route"] that by (auto split: option.splits)
  moreover have "install_mesh keyString now nodeId meshRoutes mesh = Inr mesh2"
    using assms(2,3,6) m1(1) m2(1)
    by (simp add: install_mesh_def DS_GetNode_def filter_loop Node_GetRoutes_eq ignore_error_def Let_def list_ex_iff)
  ultimately show ?thesis using m2(2) by blast
qed

theorem stale_routes_are_withdrawn_witness:
  "\<exists>mesh' rs'. install_mesh (\<lambda>k. k) 9 ''k1'' [prefixRoute ''other''] demo_mesh = Inr mesh'
    \<and> Routes (ds_get ''k1'' mesh') = Some rs'
    \<and> (\<exists>r. map_of rs' (route_key (prefixRoute ''other'')) = Some r)"
  using stale_routes_are_withdrawn [of demo_mesh "''k1''" "[]" "\<lambda>k. k" 9 "[prefixRoute ''other'']"]
  by (auto simp: demo_node_def)

end
