(* ===== verification/Config_Applier.thy ===== *)
theory Config_Applier
  imports Route_Manager Rt_Netlink
begin

text \<open>
  \<open>src/pkg/mesh/config.go\<close>: the WireGuard configuration and the kernel routes that follow from the
  meshes of a node.

  The key functions of the WireGuard library are the record \<open>wg_keys\<close>: parsing a public key (\<open>None\<close>:
  not a key) and the text of the zero key that a failed parse leaves behind. Resolving an endpoint,
  reading a device, installing routes and configuring a device are answered by \<open>wg_env\<close>; routes and
  configurations that are handed over are effects. \<open>and_then\<close> passes on the first error, and a nil
  dereference is the error \<open>ApplyPanic\<close>.
\<close>

section \<open>Data\<close>

record wg_keys =
  wg_parse :: "string \<Rightarrow> string option"
  wg_zeroKey :: string

definition keyText :: "wg_keys \<Rightarrow> string \<Rightarrow> string" where
  "keyText W s = (case wg_parse W s of None \<Rightarrow> wg_zeroKey W | Some k \<Rightarrow> k)"

type_synonym udp = "ip \<times> nat"

record Peer =
  wp_PublicKey :: string
  wp_Endpoint :: "udp option"

record WgDevice =
  wd_Name :: string
  wd_Peers :: "Peer list"

record PeerConfig =
  pc_PublicKey :: string
  pc_Remove :: bool
  pc_Endpoint :: "udp option"
  pc_KeepAlive :: "int option"
  pc_ReplaceAllowedIPs :: bool
  pc_AllowedIPs :: "IPNet list"

record routeNode =
  gateway :: string
  rn_route :: mesh_route

datatype apply_error =
    KeyError
  | ResolveError
  | NoPeersInMesh
  | GetDeviceError
  | InstallError
  | ConfigureError
  | NodeError ds_error
  | ApplyPanic

datatype apply_effect =
    InstalledRoutes string "RibRoute list"
  | Configured string "PeerConfig list"

record wg_env =
  we_resolve :: "string \<Rightarrow> udp option"
  we_device :: "string \<Rightarrow> WgDevice option"
  we_install :: "string \<Rightarrow> RibRoute list \<Rightarrow> bool"
  we_configure :: "string \<Rightarrow> PeerConfig list \<Rightarrow> bool"

definition and_then :: "'e + 'a \<Rightarrow> ('a \<Rightarrow> 'e + 'b) \<Rightarrow> 'e + 'b" where
  "and_then r f = (case r of Inl e \<Rightarrow> Inl e | Inr x \<Rightarrow> f x)"

definition or_error :: "'e \<Rightarrow> 'a option \<Rightarrow> 'e + 'a" where
  "or_error e x = (case x of None \<Rightarrow> Inl e | Some y \<Rightarrow> Inr y)"

definition no_panic :: "lib_panic + 'a \<Rightarrow> apply_error + 'a" where
  "no_panic r = (case r of Inl _ \<Rightarrow> Inl ApplyPanic | Inr x \<Rightarrow> Inr x)"

fun each :: "('x \<Rightarrow> 's \<Rightarrow> 'e + 's) \<Rightarrow> 'x list \<Rightarrow> 's \<Rightarrow> 'e + 's" where
  "each f [] s = Inr s"
| "each f (x # xs) s = and_then (f x s) (each f xs)"

section \<open>Peers and nodes\<close>

definition NodeEquals :: "wg_keys \<Rightarrow> MeshNode \<Rightarrow> MeshNode \<Rightarrow> bool" where
  "NodeEquals W node1 node2 \<longleftrightarrow> keyText W (PublicKey node1) = keyText W (PublicKey node2)"

definition nodeHash :: "wg_keys \<Rightarrow> MeshNode \<Rightarrow> int" where
  "nodeHash W mn = HashString (keyText W (PublicKey mn))"

definition getCorrespondingPeer :: "wg_keys \<Rightarrow> MeshNode list \<Rightarrow> MeshNode \<Rightarrow> apply_error + MeshNode" where
  "getCorrespondingPeer W peers client = no_panic (ConsistentHash peers client (nodeHash W) (nodeHash W))"

definition host_ip :: "MeshNode \<Rightarrow> apply_error + ip" where
  "host_ip n = and_then (or_error ApplyPanic (GetWgHost n)) (\<lambda>ipNet. Inr (net_IP ipNet))"

section \<open>Best routes\<close>

definition update_best :: "mesh_route \<Rightarrow> routeNode \<Rightarrow> routeNode list option \<Rightarrow> routeNode list" where
  "update_best route rn otherRoute =
     (case otherRoute of
        None \<Rightarrow> [rn]
      | Some rns \<Rightarrow>
          if GetHopCount route < GetHopCount (rn_route (hd rns)) then rns[0 := rn]
          else if GetHopCount (rn_route (hd rns)) = GetHopCount route then rns @ [rn]
          else rns)"

text \<open>Is the destination inside one of the own meshes?\<close>

fun in_own_mesh :: "bool option \<Rightarrow> IPNet option \<Rightarrow> IPNet option list \<Rightarrow> apply_error + bool" where
  "in_own_mesh advertiseDefault dest [] = Inr False"
| "in_own_mesh advertiseDefault dest (prefix # prefixes) =
     and_then (or_error ApplyPanic prefix) (\<lambda>p.
       let zero = ip_equal (net_IP p) (replicate 16 0) in
       if zero \<and> advertiseDefault = None then Inl ApplyPanic
       else if zero \<and> advertiseDefault = Some True then Inr True
       else and_then (or_error ApplyPanic dest) (\<lambda>d.
         if ipnet_contains p (net_IP d) then Inr True else in_own_mesh advertiseDefault dest prefixes))"

definition consider_route ::
  "wg_keys \<Rightarrow> string \<Rightarrow> IPNet option list \<Rightarrow> MeshNode list \<Rightarrow> TwoPhaseStoreMeshManager \<Rightarrow> MeshNode \<Rightarrow> mesh_route
    \<Rightarrow> (string, routeNode list) gomap \<Rightarrow> apply_error + (string, routeNode list) gomap" where
  "consider_route W selfKey meshPrefixes peers mesh node route routes =
     and_then (in_own_mesh (cfg_AdvertiseDefaultRoute (MConf mesh)) (GetDestination route) meshPrefixes) (\<lambda>inside.
       if inside then Inr routes
       else
         let destination = route_key route;
             rn = \<lparr>gateway = keyText W (PublicKey node), rn_route = route\<rparr>;
             rn' = (if Type node = CLIENT_ROLE then
                      and_then (getCorrespondingPeer W peers node) (\<lambda>peer.
                        and_then (case DS_GetNode selfKey mesh of Inl e \<Rightarrow> Inl (NodeError e) | Inr n \<Rightarrow> Inr n) (\<lambda>self.
                          if \<not> NodeEquals W peer self then
                            and_then (host_ip peer) (\<lambda>a. Inr \<lparr>gateway = keyText W (PublicKey peer),
                              rn_route = StubRoute \<lparr>rs_Destination = GetDestination route,
                                rs_Path = GetPath route @ [ip_string a]\<rparr>\<rparr>)
                          else Inr rn))
                    else Inr rn)
         in and_then rn' (\<lambda>rn. Inr (gm_put destination (update_best route rn (map_of routes destination)) routes)))"

definition CA_getRoutes ::
  "wg_keys \<Rightarrow> MeshManagerImpl \<Rightarrow> TwoPhaseStoreMeshManager \<Rightarrow> apply_error + (string, routeNode list) gomap" where
  "CA_getRoutes W m mesh =
     (let nodes = MapValues (GetNodes (DS_GetMesh mesh));
          peers = Filter nodes (\<lambda>p. Type p = PEER_ROLE);
          meshPrefixes = Map (MapValues (GetMeshes m)) (\<lambda>mesh. GetIPNet (MeshId mesh))
      in each (\<lambda>node. each (consider_route W (mm_PublicKey m) meshPrefixes peers mesh node) (Node_GetRoutes node)) nodes [])"

definition merge_routes ::
  "string \<times> routeNode list \<Rightarrow> (string, routeNode list) gomap \<Rightarrow> (string, routeNode list) gomap" where
  "merge_routes = (\<lambda>(destination, route) allRoutes.
     case map_of allRoutes destination of
       None \<Rightarrow> gm_put destination route allRoutes
     | Some rns \<Rightarrow>
         if GetHopCount (rn_route (hd rns)) = GetHopCount (rn_route (hd route))
         then gm_put destination (rns @ route) allRoutes
         else if GetHopCount (rn_route (hd route)) < GetHopCount (rn_route (hd rns))
         then gm_put destination route allRoutes
         else allRoutes)"

definition getAllRoutes :: "wg_keys \<Rightarrow> MeshManagerImpl \<Rightarrow> apply_error + (string, routeNode list) gomap" where
  "getAllRoutes W m =
     each (\<lambda>mesh allRoutes. and_then (CA_getRoutes W m mesh) (\<lambda>routes. Inr (fold merge_routes routes allRoutes)))
       (MapValues (GetMeshes m)) []"

section \<open>Configuration of one node\<close>

definition pick_route :: "wg_keys \<Rightarrow> MeshNode \<Rightarrow> routeNode list \<Rightarrow> apply_error + routeNode option" where
  "pick_route W node bestRoutes =
     (if bestRoutes = [] then Inr None
      else if length bestRoutes = 1 then Inr (Some (hd bestRoutes))
      else and_then (no_panic (ConsistentHash bestRoutes node (\<lambda>rn. HashString (gateway rn)) (nodeHash W)))
             (\<lambda>rn. Inr (Some rn)))"

text \<open>The zero \<open>routeNode\<close> that an empty list leaves has an empty gateway.\<close>

definition add_picked ::
  "wg_keys \<Rightarrow> MeshNode \<Rightarrow> string \<Rightarrow> routeNode list \<Rightarrow> IPNet list \<Rightarrow> apply_error + IPNet list" where
  "add_picked W node pubKey bestRoutes allowedips =
     and_then (pick_route W node bestRoutes) (\<lambda>picked.
       case picked of
         None \<Rightarrow> if pubKey = [] then Inl ApplyPanic else Inr allowedips
       | Some rn \<Rightarrow>
           if gateway rn = pubKey
           then and_then (or_error ApplyPanic (GetDestination (rn_route rn))) (\<lambda>d. Inr (allowedips @ [d]))
           else Inr allowedips)"

definition second :: int where
  "second = 1000000000"

definition convertMeshNode ::
  "wg_keys \<Rightarrow> wg_env \<Rightarrow> MeshNode \<Rightarrow> TwoPhaseStoreMeshManager \<Rightarrow> WgDevice \<Rightarrow> (string, IPNet list) gomap
    \<Rightarrow> (string, routeNode list) gomap \<Rightarrow> apply_error + PeerConfig" where
  "convertMeshNode W E node mesh device peerToClients routes =
     and_then (or_error KeyError (wg_parse W (PublicKey node))) (\<lambda>pubKey.
     and_then (or_error ApplyPanic (GetWgHost node)) (\<lambda>host.
       let clients = (case map_of peerToClients pubKey of None \<Rightarrow> [] | Some cs \<Rightarrow> cs) in
     and_then (each (add_picked W node pubKey) (MapValues routes) (host # clients)) (\<lambda>allowedips.
       let keepAlive = (case cfg_KeepAliveWg (MConf mesh) of None \<Rightarrow> 0 | Some k \<Rightarrow> k * second);
           existing = find (\<lambda>p. wp_PublicKey p = pubKey) (wd_Peers device) in
     and_then (if Type node = PEER_ROLE
               then and_then (or_error ResolveError (we_resolve E (WgEndpoint node))) (\<lambda>a. Inr (Some a))
               else Inr None) (\<lambda>endpoint.
       Inr \<lparr>pc_PublicKey = pubKey, pc_Remove = False,
            pc_Endpoint = (case existing of None \<Rightarrow> endpoint | Some p \<Rightarrow> wp_Endpoint p),
            pc_KeepAlive = Some keepAlive, pc_ReplaceAllowedIPs = True, pc_AllowedIPs = allowedips\<rparr>))))"

definition getPeerCfgsToRemove :: "WgDevice \<Rightarrow> PeerConfig list \<Rightarrow> PeerConfig list" where
  "getPeerCfgsToRemove dev newPeers =
     (let peers = Filter (wd_Peers dev) (\<lambda>p1. \<not> Contains newPeers (\<lambda>p2. wp_PublicKey p1 = pc_PublicKey p2))
      in Map peers (\<lambda>p. \<lparr>pc_PublicKey = wp_PublicKey p, pc_Remove = True, pc_Endpoint = None,
           pc_KeepAlive = None, pc_ReplaceAllowedIPs = False, pc_AllowedIPs = []\<rparr>))"

definition getRoutesToInstall ::
  "PeerConfig \<Rightarrow> TwoPhaseStoreMeshManager \<Rightarrow> MeshNode \<Rightarrow> apply_error + RibRoute list" where
  "getRoutesToInstall wgNode mesh node =
     each (\<lambda>route routes.
       and_then (or_error ApplyPanic (GetIPNet (MeshId mesh))) (\<lambda>ipNet.
         if \<not> ipnet_contains ipNet (net_IP route)
         then and_then (host_ip node) (\<lambda>a. Inr (routes @ [\<lparr>rib_Gateway = a, rib_Destination = route\<rparr>]))
         else Inr routes)) (pc_AllowedIPs wgNode) []"

section \<open>Configuration of a mesh\<close>

definition self_node :: "string \<Rightarrow> TwoPhaseStoreMeshManager \<Rightarrow> apply_error + MeshNode" where
  "self_node key mesh = (case DS_GetNode key mesh of Inl e \<Rightarrow> Inl (NodeError e) | Inr n \<Rightarrow> Inr n)"

text \<open>One client: it is assigned to a peer, converted, and configured here if that peer is this node.\<close>

definition client_step ::
  "wg_keys \<Rightarrow> wg_env \<Rightarrow> MeshNode list \<Rightarrow> TwoPhaseStoreMeshManager \<Rightarrow> WgDevice \<Rightarrow> (string, routeNode list) gomap
    \<Rightarrow> MeshNode \<Rightarrow> MeshNode \<Rightarrow> (string, IPNet list) gomap \<times> RibRoute list \<times> PeerConfig list
    \<Rightarrow> apply_error + (string, IPNet list) gomap \<times> RibRoute list \<times> PeerConfig list" where
  "client_step W E peers mesh dev routes self n = (\<lambda>(peerToClients, installedRoutes, peerConfigs).
     if peers = [] then Inr (peerToClients, installedRoutes, peerConfigs)
     else and_then (getCorrespondingPeer W peers n) (\<lambda>peer.
       let pubKey = keyText W (PublicKey peer);
           clients = (case map_of peerToClients pubKey of None \<Rightarrow> [] | Some cs \<Rightarrow> cs) in
       and_then (or_error ApplyPanic (GetWgHost n)) (\<lambda>host.
         let peerToClients = gm_put pubKey (clients @ [host]) peerToClients in
         and_then (convertMeshNode W E n mesh dev peerToClients routes) (\<lambda>cfg.
           and_then (getRoutesToInstall cfg mesh n) (\<lambda>rs.
             Inr (peerToClients, installedRoutes @ rs,
                  if NodeEquals W self peer then peerConfigs @ [cfg] else peerConfigs))))))"

definition peer_step ::
  "wg_keys \<Rightarrow> wg_env \<Rightarrow> TwoPhaseStoreMeshManager \<Rightarrow> WgDevice \<Rightarrow> (string, routeNode list) gomap \<Rightarrow> MeshNode
    \<Rightarrow> (string, IPNet list) gomap \<Rightarrow> MeshNode \<Rightarrow> RibRoute list \<times> PeerConfig list
    \<Rightarrow> apply_error + RibRoute list \<times> PeerConfig list" where
  "peer_step W E mesh dev routes self peerToClients n = (\<lambda>(installedRoutes, peerConfigs).
     if NodeEquals W n self then Inr (installedRoutes, peerConfigs)
     else and_then (convertMeshNode W E n mesh dev peerToClients routes) (\<lambda>peer.
       and_then (getRoutesToInstall peer mesh n) (\<lambda>rs.
         Inr (installedRoutes @ rs, peerConfigs @ [peer]))))"

text \<open>The configuration and the routes it installs; the effect comes with the outcome.\<close>

definition getPeerConfig ::
  "wg_keys \<Rightarrow> wg_env \<Rightarrow> string \<Rightarrow> TwoPhaseStoreMeshManager \<Rightarrow> MeshNode list \<Rightarrow> MeshNode list \<Rightarrow> WgDevice
    \<Rightarrow> (string, routeNode list) gomap \<Rightarrow> apply_effect list \<times> (apply_error + PeerConfig list)" where
  "getPeerConfig W E selfKey mesh peers clients dev routes =
     (case and_then (self_node selfKey mesh) (\<lambda>self.
             and_then (each (client_step W E peers mesh dev routes self) clients ([], [], [])) (\<lambda>(ptc, rs, pcs).
               each (peer_step W E mesh dev routes self ptc) peers (rs, pcs))) of
        Inl err \<Rightarrow> ([], Inl err)
      | Inr (installedRoutes, peerConfigs) \<Rightarrow>
          ([InstalledRoutes (wd_Name dev) installedRoutes],
           if we_install E (wd_Name dev) installedRoutes then Inr peerConfigs else Inl InstallError))"

definition getClientConfig ::
  "wg_keys \<Rightarrow> wg_env \<Rightarrow> string \<Rightarrow> TwoPhaseStoreMeshManager \<Rightarrow> MeshNode list \<Rightarrow> WgDevice option
    \<Rightarrow> (string, routeNode list) gomap \<Rightarrow> apply_effect list \<times> (apply_error + PeerConfig list)" where
  "getClientConfig W E selfKey mesh peers dev routes =
     (let routesForMesh = Map (MapValues routes) (\<lambda>rns. Filter rns (\<lambda>rn.
            case DS_GetNode (gateway rn) mesh of Inl _ \<Rightarrow> False | Inr _ \<Rightarrow> True));
          routesForMesh = Filter routesForMesh (\<lambda>rns. length rns \<noteq> 0) in
      case and_then (each (\<lambda>rs ds. and_then (or_error ApplyPanic (GetDestination (rn_route (hd rs)))) (\<lambda>d. Inr (ds @ [d])))
                       routesForMesh []) (\<lambda>dests.
           and_then (or_error ApplyPanic (GetIPNet (MeshId mesh))) (\<lambda>meshNet.
             let routes = dests @ [meshNet] in
           and_then (self_node selfKey mesh) (\<lambda>self.
             if peers = [] then Inl NoPeersInMesh
             else and_then (getCorrespondingPeer W peers self) (\<lambda>peer.
               and_then (or_error ApplyPanic (cfg_KeepAliveWg (MConf mesh))) (\<lambda>k.
                 and_then (or_error ResolveError (we_resolve E (WgEndpoint peer))) (\<lambda>endpoint.
                   let cfg = \<lparr>pc_PublicKey = keyText W (PublicKey peer), pc_Remove = False,
                         pc_Endpoint = Some endpoint, pc_KeepAlive = Some (k * second),
                         pc_ReplaceAllowedIPs = True, pc_AllowedIPs = routes\<rparr> in
                   and_then (each (\<lambda>route rs.
                       if \<not> ipnet_contains meshNet (net_IP route)
                       then and_then (host_ip peer) (\<lambda>a. Inr (rs @ [\<lparr>rib_Gateway = a, rib_Destination = route\<rparr>]))
                       else Inr rs) routes []) (\<lambda>installed. Inr (installed, [cfg])))))))) of
        Inl err \<Rightarrow> ([], Inl err)
      | Inr (installedRoutes, peerCfgs) \<Rightarrow>
          (case dev of None \<Rightarrow> [] | Some d \<Rightarrow> [InstalledRoutes (wd_Name d) installedRoutes], Inr peerCfgs))"

definition updateWgConf ::
  "wg_keys \<Rightarrow> wg_env \<Rightarrow> MeshManagerImpl \<Rightarrow> (string, routeNode list) gomap \<Rightarrow> TwoPhaseStoreMeshManager
    \<Rightarrow> apply_effect list \<times> apply_error option" where
  "updateWgConf W E m routes mesh =
     (let nodes = sort_key Type (MapValues (GetNodes (DS_GetMesh mesh)));
          peers = Filter nodes (\<lambda>mn. Type mn = PEER_ROLE);
          clients = Filter nodes (\<lambda>mn. Type mn = CLIENT_ROLE) in
      case we_device E (IfName mesh) of
        None \<Rightarrow> ([], Some GetDeviceError)
      | Some dev \<Rightarrow>
          (case self_node (mm_PublicKey m) mesh of
             Inl err \<Rightarrow> ([], Some err)
           | Inr self \<Rightarrow>
               (case (if Type self = PEER_ROLE then getPeerConfig W E (mm_PublicKey m) mesh peers clients dev routes
                      else if Type self = CLIENT_ROLE then getClientConfig W E (mm_PublicKey m) mesh peers (Some dev) routes
                      else ([], Inl ApplyPanic)) of
                  (fx, Inl err) \<Rightarrow> (fx, Some err)
                | (fx, Inr cfg) \<Rightarrow>
                    let cfg' = cfg @ getPeerCfgsToRemove dev cfg
                    in (fx @ [Configured (wd_Name dev) cfg'],
                        if we_configure E (wd_Name dev) cfg' then None else Some ConfigureError))))"

fun apply_meshes ::
  "wg_keys \<Rightarrow> wg_env \<Rightarrow> MeshManagerImpl \<Rightarrow> (string, routeNode list) gomap \<Rightarrow> TwoPhaseStoreMeshManager list
    \<Rightarrow> apply_effect list \<times> apply_error option" where
  "apply_meshes W E m routes [] = ([], None)"
| "apply_meshes W E m routes (mesh # meshes) =
     (case updateWgConf W E m routes mesh of
        (fx, Some err) \<Rightarrow> (fx, Some err)
      | (fx, None) \<Rightarrow> (case apply_meshes W E m routes meshes of (fx', err) \<Rightarrow> (fx @ fx', err)))"

definition CA_ApplyConfig :: "wg_keys \<Rightarrow> wg_env \<Rightarrow> MeshManagerImpl \<Rightarrow> apply_effect list \<times> apply_error option" where
  "CA_ApplyConfig W E m =
     (case getAllRoutes W m of
        Inl err \<Rightarrow> ([], Some err)
      | Inr allRoutes \<Rightarrow> apply_meshes W E m allRoutes (MapValues (GetMeshes m)))"

definition MM_ApplyConfig :: "wg_keys \<Rightarrow> wg_env \<Rightarrow> MeshManagerImpl \<Rightarrow> apply_effect list \<times> apply_error option" where
  "MM_ApplyConfig W E m = (if dc_StubWg (mm_conf m) then ([], None) else CA_ApplyConfig W E m)"

section \<open>Properties\<close>

lemma and_then_Inr: "and_then r f = Inr y \<longleftrightarrow> (\<exists>x. r = Inr x \<and> f x = Inr y)"
  by (simp add: and_then_def split: sum.splits)

lemma or_error_Inr [simp]: "or_error e x = Inr y \<longleftrightarrow> x = Some y"
  by (simp add: or_error_def split: option.splits)

lemma convertMeshNode_key:
  "convertMeshNode W E node mesh dev ptc routes = Inr cfg \<Longrightarrow> pc_PublicKey cfg = keyText W (PublicKey node)"
  by (auto simp: convertMeshNode_def and_then_Inr keyText_def Let_def)

text \<open>The clients a node serves: those that consistent hashing assigns to it.\<close>

definition serves :: "wg_keys \<Rightarrow> MeshNode list \<Rightarrow> MeshNode \<Rightarrow> MeshNode \<Rightarrow> bool" where
  "serves W peers self n \<longleftrightarrow> (\<exists>peer. getCorrespondingPeer W peers n = Inr peer \<and> NodeEquals W self peer)"

abbreviation key_of :: "wg_keys \<Rightarrow> MeshNode \<Rightarrow> string" where
  "key_of W n \<equiv> keyText W (PublicKey n)"

lemma client_loop:
  assumes "each (client_step W E peers mesh dev routes self) clients (ptc, rs, pcs) = Inr (ptc', rs', pcs')"
  shows "map pc_PublicKey pcs' = map pc_PublicKey pcs @ map (key_of W) (filter (serves W peers self) clients)"
proof (cases "peers = []")
  case True
  have "each (client_step W E [] mesh dev routes self) clients s = Inr s" for s
    by (induction clients arbitrary: s) (auto simp: client_step_def and_then_def)
  moreover have "\<not> serves W [] self n" for n
    by (simp add: serves_def getCorrespondingPeer_def ConsistentHash_def no_panic_def)
  ultimately show ?thesis using assms True by simp
next
  case False
  show ?thesis
    using assms
  proof (induction clients arbitrary: ptc rs pcs)
    case (Cons n clients)
    obtain ptc1 rs1 pcs1 where step: "client_step W E peers mesh dev routes self n (ptc, rs, pcs) = Inr (ptc1, rs1, pcs1)"
      and rest: "each (client_step W E peers mesh dev routes self) clients (ptc1, rs1, pcs1) = Inr (ptc', rs', pcs')"
      using Cons.prems by (auto simp: and_then_Inr)
    have "map pc_PublicKey pcs1 = map pc_PublicKey pcs @ (if serves W peers self n then [key_of W n] else [])"
      using step False
      by (auto simp: client_step_def and_then_Inr Let_def serves_def dest: convertMeshNode_key split: if_splits)
    with Cons.IH [OF rest] show ?case by simp
  qed simp
qed

lemma peer_loop:
  "each (peer_step W E mesh dev routes self ptc) peers (rs, pcs) = Inr (rs', pcs')
    \<Longrightarrow> map pc_PublicKey pcs' = map pc_PublicKey pcs @ map (key_of W) (filter (\<lambda>n. \<not> NodeEquals W n self) peers)"
proof (induction peers arbitrary: rs pcs)
  case (Cons n peers)
  obtain rs1 pcs1 where step: "peer_step W E mesh dev routes self ptc n (rs, pcs) = Inr (rs1, pcs1)"
    and rest: "each (peer_step W E mesh dev routes self ptc) peers (rs1, pcs1) = Inr (rs', pcs')"
    using Cons.prems by (auto simp: and_then_Inr)
  have "map pc_PublicKey pcs1 = map pc_PublicKey pcs @ (if NodeEquals W n self then [] else [key_of W n])"
    using step by (auto simp: peer_step_def and_then_Inr dest: convertMeshNode_key split: if_splits)
  with Cons.IH [OF rest] show ?case by simp
qed simp

text \<open>The list of best routes to a destination is not always a list of shortest routes. When two
  gateways advertise routes of equal length and a third one then advertises a shorter route, the
  shorter route replaces the first entry only, and the longer one of the second gateway stays a
  candidate for consistent hashing.\<close>

lemma longer_route_stays_candidate:
  assumes "GetHopCount (rn_route r1) = GetHopCount (rn_route r2)"
    and "GetHopCount (rn_route r3) < GetHopCount (rn_route r2)"
  shows "fold (\<lambda>r best. Some (update_best (rn_route r) r best)) [r1, r2, r3] None = Some [r3, r2]"
  using assms by (simp add: update_best_def)


text \<open>C16: the configuration a peer computes has exactly one entry for every client that consistent
  hashing assigns to it and one for every other peer of the mesh, in that order; the node itself and
  the clients of other peers are left out.\<close>

theorem peer_configures_its_clients_and_other_peers:
  assumes "getPeerConfig W E selfKey mesh peers clients dev routes = (fx, Inr cfgs)"
    and "DS_GetNode selfKey mesh = Inr self"
  shows "map pc_PublicKey cfgs = map (key_of W) (filter (serves W peers self) clients)
    @ map (key_of W) (filter (\<lambda>n. \<not> NodeEquals W n self) peers)"
proof -
  obtain ptc rs pcs rs' where
    "each (client_step W E peers mesh dev routes self) clients ([], [], []) = Inr (ptc, rs, pcs)"
    "each (peer_step W E mesh dev routes self ptc) peers (rs, pcs) = Inr (rs', cfgs)"
    using assms by (auto simp: getPeerConfig_def self_node_def and_then_Inr split: sum.splits if_splits)
  from client_loop [OF this(1)] peer_loop [OF this(2)] show ?thesis by simp
qed

definition demo_keys :: wg_keys where
  "demo_keys = \<lparr>wg_parse = Some, wg_zeroKey = ''zero''\<rparr>"

definition demo_wg :: wg_env where
  "demo_wg = \<lparr>we_resolve = (\<lambda>_. Some ([1, 2, 3, 4], 51820)), we_device = (\<lambda>n. Some \<lparr>wd_Name = n, wd_Peers = []\<rparr>),
     we_install = (\<lambda>_ _. True), we_configure = (\<lambda>_ _. True)\<rparr>"

definition demo_other :: MeshNode where
  "demo_other = demo_node\<lparr>PublicKey := ''k2'', WgHost := ip_string (getMeshPrefix ''mesh'') @ ''/'' @ itoa 64\<rparr>"

lemma demo_other_host: "GetWgHost demo_other = Some (mesh_net ''mesh'')"
  using GetIPNet_eq [of "''mesh''"] by (simp add: GetIPNet_def GetWgHost_def demo_other_def Let_def)

lemma demo_wg_install: "we_install demo_wg n rs"
  by (simp add: demo_wg_def)

lemma demo_key_of: "keyText demo_keys k = k"
  by (simp add: keyText_def demo_keys_def)

lemma demo_other_cfg:
  "\<exists>cfg. convertMeshNode demo_keys demo_wg demo_other demo_mesh dev [] [] = Inr cfg \<and> pc_AllowedIPs cfg = [mesh_net ''mesh'']"
  by (simp add: convertMeshNode_def and_then_def or_error_def demo_other_host demo_keys_def demo_wg_def Let_def)

theorem peer_configures_its_clients_and_other_peers_witness:
  "\<exists>fx cfgs. getPeerConfig demo_keys demo_wg ''k1'' demo_mesh [demo_node, demo_other] []
      \<lparr>wd_Name = ''wg0'', wd_Peers = []\<rparr> [] = (fx, Inr cfgs)
    \<and> map pc_PublicKey cfgs = [''k2'']"
proof -
  let ?dev = "\<lparr>wd_Name = ''wg0'', wd_Peers = []\<rparr>"
  obtain cfg where cfg: "convertMeshNode demo_keys demo_wg demo_other demo_mesh ?dev [] [] = Inr cfg"
    "pc_AllowedIPs cfg = [mesh_net ''mesh'']" using demo_other_cfg by blast
  have self: "DS_GetNode ''k1'' demo_mesh = Inr demo_node" by (simp add: DS_GetNode_def)
  have eqs: "NodeEquals demo_keys demo_node demo_node" "\<not> NodeEquals demo_keys demo_other demo_node"
    by (simp_all add: NodeEquals_def demo_key_of demo_node_def demo_other_def)
  obtain rs where rs: "getRoutesToInstall cfg demo_mesh demo_other = Inr rs"
    by (cases "ipnet_contains (mesh_net (MeshId demo_mesh)) (getMeshPrefix ''mesh'')")
      (simp_all add: getRoutesToInstall_def cfg(2) GetIPNet_eq and_then_def or_error_def host_ip_def demo_other_host)
  obtain fx cfgs where run: "getPeerConfig demo_keys demo_wg ''k1'' demo_mesh [demo_node, demo_other] [] ?dev [] = (fx, Inr cfgs)"
    by (auto simp: getPeerConfig_def self self_node_def and_then_def peer_step_def eqs cfg(1) rs demo_wg_install)
  have "PublicKey demo_other = ''k2''" by (simp add: demo_other_def)
  with peer_configures_its_clients_and_other_peers [OF run self] run eqs show ?thesis
    by (simp add: demo_key_of)
qed

end
