(* ===== verification/Cluster.thy ===== *)
theory Cluster
  imports Prelude
begin

text \<open>
  \<open>src/pkg/conn/cluster.go\<close>: the peers of a mesh, sorted by public key, are cut into groups around
  the position of a node. Indices are Go's signed integers. The search loop is bounded by \<open>fuel\<close>,
  and \<open>None\<close> stands for a loop that goes on or an index out of range; both are excluded below for
  every group size that is not negative, with fuel for one round more than there are peers. The
  random draw of \<open>GetInterCluster\<close> is an argument.
\<close>

section \<open>Operations\<close>

definition half :: "int \<Rightarrow> int" where
  "half i = (if i < 0 then - ((- i) div 2) else i div 2)"

fun search_group :: "nat \<Rightarrow> string list \<Rightarrow> string \<Rightarrow> int \<Rightarrow> int \<Rightarrow> int \<Rightarrow> int option" where
  "search_group 0 global selfId groupSize lower higher = None"
| "search_group (Suc fuel) global selfId groupSize lower higher =
     (if (higher + 1) - lower > groupSize then
        let mid = half (lower + higher) in
        if mid < 0 \<or> int (length global) \<le> mid then None
        else if global ! nat mid < selfId then search_group fuel global selfId groupSize (mid + 1) higher
        else if global ! nat mid > selfId then search_group fuel global selfId groupSize lower (mid - 1)
        else Some lower
      else Some lower)"

definition binarySearch :: "string list \<Rightarrow> string \<Rightarrow> int \<Rightarrow> (int \<times> int) option" where
  "binarySearch global selfId groupSize =
     (let sorted = sort global in
      map_option (\<lambda>lower. (lower, min (lower + groupSize) (int (length sorted))))
        (search_group (Suc (length sorted)) sorted selfId groupSize 0 (int (length sorted) - 1)))"

text \<open>\<open>global[lower:higher]\<close>; Go panics when the bounds are not in order.\<close>

definition slice :: "'a list \<Rightarrow> int \<Rightarrow> int \<Rightarrow> 'a list option" where
  "slice xs lower higher =
     (if 0 \<le> lower \<and> lower \<le> higher \<and> higher \<le> int (length xs)
      then Some (take (nat higher - nat lower) (drop (nat lower) xs)) else None)"

definition GetNeighbours :: "int \<Rightarrow> string list \<Rightarrow> string \<Rightarrow> string list option" where
  "GetNeighbours clusterSize global selfId =
     (let global = sort global in
      case binarySearch global selfId clusterSize of
        None \<Rightarrow> None
      | Some (lower, higher) \<Rightarrow> slice global lower higher)"

definition GetInterCluster :: "int \<Rightarrow> nat \<Rightarrow> string list \<Rightarrow> string \<Rightarrow> string option" where
  "GetInterCluster clusterSize draw global selfId =
     (let global = sort global in
      case binarySearch global selfId 1 of
        None \<Rightarrow> None
      | Some (index, _) \<Rightarrow>
          if global = [] then None
          else let randomCluster = int (draw mod 2) + 1;
                   sum = 2 * index + randomCluster * clusterSize;
                   rest = (if sum < 0 then - ((- sum) mod int (length global)) else sum mod int (length global))
               in if rest < 0 then None else Some (global ! nat rest))"

datatype cluster_error = NotPowerOfTwo

text \<open>
  The logarithm of a positive size is a finite float, and a finite float minus itself is 0; for 0
  it is negative infinity and for negative sizes not a number, where the difference is not 0.
\<close>

definition log2_finite :: "int \<Rightarrow> bool" where
  "log2_finite n \<longleftrightarrow> 0 < n"

definition NewConnCluster :: "int \<Rightarrow> cluster_error + int" where
  "NewConnCluster clusterSize =
     (if \<not> log2_finite clusterSize then Inl NotPowerOfTwo else Inr clusterSize)"

section \<open>The search\<close>

text \<open>What the loop keeps: below \<open>lower\<close> everything is smaller, above \<open>higher\<close> larger.\<close>

definition window :: "string list \<Rightarrow> string \<Rightarrow> int \<Rightarrow> int \<Rightarrow> bool" where
  "window xs s lower higher \<longleftrightarrow> 0 \<le> lower \<and> lower \<le> higher + 1 \<and> higher < int (length xs)
     \<and> (\<forall>i. int i < lower \<longrightarrow> xs ! i < s)
     \<and> (\<forall>i < length xs. higher < int i \<longrightarrow> s < xs ! i)"

lemma sorted_below: "sorted xs \<Longrightarrow> j < length xs \<Longrightarrow> xs ! j < s \<Longrightarrow> i \<le> j \<Longrightarrow> xs ! i < (s :: string)"
  by (meson le_less_trans sorted_nth_mono)

lemma sorted_above: "sorted xs \<Longrightarrow> i < length xs \<Longrightarrow> s < xs ! j \<Longrightarrow> j \<le> i \<Longrightarrow> (s :: string) < xs ! i"
  by (meson less_le_trans sorted_nth_mono)

lemma window_right:
  assumes "sorted xs" and "window xs s lower higher" and "lower \<le> mid" and "mid \<le> higher" and "xs ! nat mid < s"
  shows "window xs s (mid + 1) higher"
  using assms sorted_below [OF assms(1) _ assms(5)] by (auto simp: window_def)

lemma window_left:
  assumes "sorted xs" and "window xs s lower higher" and "lower \<le> mid" and "mid \<le> higher" and "s < xs ! nat mid"
  shows "window xs s lower (mid - 1)"
  using assms sorted_above [OF assms(1) _ assms(5)] by (auto simp: window_def)

lemma half_between: "0 \<le> lower \<Longrightarrow> lower \<le> higher \<Longrightarrow> lower \<le> half (lower + higher) \<and> half (lower + higher) \<le> higher"
  by (auto simp: half_def)

text \<open>The loop ends, at a window of at most the group size or at the element searched for, and never
  empties a list from the left.\<close>

lemma search_group_spec:
  assumes "sorted xs" and "window xs s lower higher" and "0 \<le> gs" and "nat (higher + 1 - lower) < fuel"
  shows "\<exists>l h. search_group fuel xs s gs lower higher = Some l \<and> window xs s l h \<and> lower \<le> l \<and> h \<le> higher
    \<and> (h + 1 - l \<le> gs \<or> s \<in> set xs)
    \<and> (0 < gs \<longrightarrow> lower < int (length xs) \<longrightarrow> l < int (length xs))"
  using assms
proof (induction fuel arbitrary: lower higher)
  case (Suc fuel)
  let ?mid = "half (lower + higher)"
  show ?case
  proof (cases "(higher + 1) - lower > gs")
    case True
    then have le: "0 \<le> lower" "lower \<le> higher" "higher < int (length xs)"
      using Suc.prems(2,3) by (auto simp: window_def)
    note mid = half_between [OF le(1,2)]
    have nat_mid: "nat ?mid < length xs" "\<not> ?mid < 0" "?mid < int (length xs)" using mid le by auto
    consider (lt) "xs ! nat ?mid < s" | (gt) "s < xs ! nat ?mid" | (eq) "xs ! nat ?mid = s" by force
    then show ?thesis
    proof cases
      case lt
      have "0 < gs \<Longrightarrow> ?mid < higher" using True le by (auto simp: half_def)
      then show ?thesis
        using Suc.IH [OF Suc.prems(1) window_right [OF Suc.prems(1,2) _ _ lt] Suc.prems(3)] mid le True lt
          nat_mid Suc.prems(4)
        by (fastforce simp: Let_def)
    next
      case gt
      then show ?thesis
        using Suc.IH [OF Suc.prems(1) window_left [OF Suc.prems(1,2) _ _ gt] Suc.prems(3)] mid le True
          nat_mid Suc.prems(4)
        by (fastforce simp: Let_def)
    next
      case eq
      then have "s \<in> set xs" using nat_mid(1) nth_mem by blast
      then show ?thesis using eq True nat_mid Suc.prems(2) by (auto simp: Let_def)
    qed
  qed (use Suc.prems(2) in auto)
qed simp

lemma binarySearch_spec:
  assumes "0 \<le> gs"
  shows "\<exists>l h. binarySearch xs s gs = Some (l, min (l + gs) (int (length xs))) \<and> window (sort xs) s l h
    \<and> (h + 1 - l \<le> gs \<or> s \<in> set xs) \<and> (0 < gs \<longrightarrow> xs \<noteq> [] \<longrightarrow> l < int (length xs))"
proof -
  have "window (sort xs) s 0 (int (length (sort xs)) - 1)" by (auto simp: window_def)
  from search_group_spec [OF sorted_sort this assms, of "Suc (length (sort xs))"] show ?thesis
    by (auto simp: binarySearch_def Let_def simp del: search_group.simps)
qed

lemma sort_again [simp]: "sort (sort xs) = sort (xs :: string list)"
  by (simp add: sorted_sort_id)

text \<open>The block the search settles on, as \<open>GetNeighbours\<close> cuts it out.\<close>

lemma neighbours_block:
  assumes "1 \<le> clusterSize"
  shows "\<exists>l h. GetNeighbours clusterSize peers self = Some (take (nat clusterSize) (drop (nat l) (sort peers)))
    \<and> window (sort peers) self l h \<and> (h + 1 - l \<le> clusterSize \<or> self \<in> set peers)
    \<and> (peers \<noteq> [] \<longrightarrow> l < int (length peers))"
proof -
  let ?xs = "sort peers"
  obtain l h where run: "binarySearch ?xs self clusterSize = Some (l, min (l + clusterSize) (int (length ?xs)))"
    and w: "window ?xs self l h" and fit: "h + 1 - l \<le> clusterSize \<or> self \<in> set ?xs"
    and ne: "?xs \<noteq> [] \<longrightarrow> l < int (length ?xs)"
    using binarySearch_spec [of clusterSize ?xs self] assms by auto
  have l: "0 \<le> l" "l \<le> int (length ?xs)" using w by (auto simp: window_def)
  have "nat (min (l + clusterSize) (int (length ?xs))) - nat l = min (nat clusterSize) (length ?xs - nat l)"
    using l assms by (auto simp: min_def)
  then have "GetNeighbours clusterSize peers self = Some (take (nat clusterSize) (drop (nat l) ?xs))"
    using run l assms by (auto simp: GetNeighbours_def slice_def Let_def min_def)
  moreover have "peers \<noteq> [] \<longrightarrow> ?xs \<noteq> []" by (metis set_empty set_sort)
  ultimately show ?thesis using w fit ne by auto
qed

lemma neighbours_among_peers:
  assumes "1 \<le> clusterSize"
  shows "\<exists>ns. GetNeighbours clusterSize peers self = Some ns \<and> set ns \<subseteq> set peers
    \<and> (peers \<noteq> [] \<longrightarrow> ns \<noteq> []) \<and> int (length ns) \<le> clusterSize"
proof -
  obtain l h where ns: "GetNeighbours clusterSize peers self = Some (take (nat clusterSize) (drop (nat l) (sort peers)))"
    and ne: "peers \<noteq> [] \<longrightarrow> l < int (length peers)" and w: "window (sort peers) self l h"
    using neighbours_block [OF assms] by blast
  have "set (take (nat clusterSize) (drop (nat l) (sort peers))) \<subseteq> set peers"
    by (metis set_drop_subset set_sort set_take_subset subset_trans)
  moreover have "0 \<le> l" using w by (simp add: window_def)
  ultimately show ?thesis using ns ne assms by auto
qed



text \<open>The inter-cluster partner is one of the peers, for every draw, as long as there is a peer.\<close>

lemma inter_cluster_partner_is_a_peer:
  assumes "0 \<le> clusterSize" and "peers \<noteq> []"
  shows "\<exists>p \<in> set peers. GetInterCluster clusterSize draw peers self = Some p"
proof -
  let ?xs = "sort peers"
  have ne: "?xs \<noteq> []" using assms(2) by (metis set_empty set_sort)
  obtain l h where run: "binarySearch ?xs self 1 = Some (l, min (l + 1) (int (length ?xs)))" "0 \<le> l"
    using binarySearch_spec [of 1 ?xs self] by (auto simp: window_def)
  let ?i = "(2 * l + (int (draw mod 2) + 1) * clusterSize) mod int (length ?xs)"
  have nonneg: "0 \<le> 2 * l + (int (draw mod 2) + 1) * clusterSize" using run(2) assms(1) by simp
  have "0 \<le> ?i" "?i < int (length ?xs)" using assms(2) by simp_all
  then have "GetInterCluster clusterSize draw peers self = Some (?xs ! nat ?i)" "nat ?i < length ?xs"
    using run nonneg ne by (auto simp: GetInterCluster_def Let_def)
  then show ?thesis by (metis nth_mem set_sort)
qed

end
