(* ===== verification/Conn_Manager.thy ===== *)
theory Conn_Manager
  imports Prelude
begin

text \<open>
  \<open>src/pkg/conn/connectionmanager.go\<close>: the cache of connections to peers, and \<open>src/pkg/conn/connection.go\<close>: a
  connection. Dialling and closing belong to gRPC, so their answers are arguments, as are those of
  the TLS library when the manager is created.

  The locale \<open>cache\<close> states what the synchronisation code relies on: an endpoint that was reached
  stays reached by the same connection until it is removed. It is interpreted on the manager.
\<close>

section \<open>Operations\<close>

record 'c ConnectionManagerImpl =
  clientConnections :: "(string, 'c) gomap"

datatype 'e new_error =
    LoadKeyPair 'e
  | CaCertNotSpecified
  | ReadCaCert 'e
  | CouldNotParsePEM

record NewConnectionManagerParams =
  cm_CertificatePath :: string
  cm_PrivateKey :: string
  cm_SkipCertVerification :: bool
  cm_CaCert :: string

definition NewConnectionManager ::
  "(string \<Rightarrow> string \<Rightarrow> 'e option) \<Rightarrow> (string \<Rightarrow> 'e + 'b) \<Rightarrow> ('b \<Rightarrow> bool) \<Rightarrow> NewConnectionManagerParams
    \<Rightarrow> 'e new_error + 'c ConnectionManagerImpl" where
  "NewConnectionManager loadKeyPair readFile parsePEM params =
     (case loadKeyPair (cm_CertificatePath params) (cm_PrivateKey params) of
        Some err \<Rightarrow> Inl (LoadKeyPair err)
      | None \<Rightarrow>
          if cm_CaCert params = [] then Inl CaCertNotSpecified
          else case readFile (cm_CaCert params) of
            Inl err \<Rightarrow> Inl (ReadCaCert err)
          | Inr caCert \<Rightarrow>
              if \<not> parsePEM caCert then Inl CouldNotParsePEM else Inr \<lparr>clientConnections = []\<rparr>)"

definition AddConnection ::
  "(string \<Rightarrow> 'e + 'c) \<Rightarrow> string \<Rightarrow> 'c ConnectionManagerImpl \<Rightarrow> 'c ConnectionManagerImpl \<times> ('e + 'c)" where
  "AddConnection connFactory endPoint m =
     (case map_of (clientConnections m) endPoint of
        Some conn \<Rightarrow> (m, Inr conn)
      | None \<Rightarrow>
          (case connFactory endPoint of
             Inl err \<Rightarrow> (m, Inl err)
           | Inr connections \<Rightarrow>
               (m\<lparr>clientConnections := gm_put endPoint connections (clientConnections m)\<rparr>, Inr connections)))"

definition GetConnection ::
  "(string \<Rightarrow> 'e + 'c) \<Rightarrow> string \<Rightarrow> 'c ConnectionManagerImpl \<Rightarrow> 'c ConnectionManagerImpl \<times> ('e + 'c)" where
  "GetConnection connFactory endpoint m =
     (case map_of (clientConnections m) endpoint of
        None \<Rightarrow> AddConnection connFactory endpoint m
      | Some conn \<Rightarrow> (m, Inr conn))"

definition HasConnection :: "string \<Rightarrow> 'c ConnectionManagerImpl \<Rightarrow> bool" where
  "HasConnection endPoint m = (map_of (clientConnections m) endPoint \<noteq> None)"

definition RemoveConnection ::
  "('c \<Rightarrow> 'e option) \<Rightarrow> string \<Rightarrow> 'c ConnectionManagerImpl \<Rightarrow> 'c ConnectionManagerImpl \<times> 'e option" where
  "RemoveConnection close endPoint m =
     (case map_of (clientConnections m) endPoint of
        None \<Rightarrow> (m, None)
      | Some connection \<Rightarrow>
          (m\<lparr>clientConnections := gm_del endPoint (clientConnections m)\<rparr>, close connection))"

fun close_loop :: "('c \<Rightarrow> 'e option) \<Rightarrow> (string \<times> 'c) list \<Rightarrow> 'e option" where
  "close_loop close [] = None"
| "close_loop close ((_, conn) # conns) = (case close conn of Some err \<Rightarrow> Some err | None \<Rightarrow> close_loop close conns)"

definition CloseConnections :: "('c \<Rightarrow> 'e option) \<Rightarrow> 'c ConnectionManagerImpl \<Rightarrow> 'e option" where
  "CloseConnections close m = close_loop close (clientConnections m)"

section \<open>A connection\<close>

text \<open>The TLS configuration is part of \<open>dial\<close>.\<close>

record 'g WgCtrlConnection =
  wc_endpoint :: string
  wc_conn :: "'g option"

definition CreateGrpcConnection ::
  "(string \<Rightarrow> 'e + 'g) \<Rightarrow> 'g WgCtrlConnection \<Rightarrow> 'g WgCtrlConnection \<times> 'e option" where
  "CreateGrpcConnection dial c =
     (case dial (wc_endpoint c) of
        Inl err \<Rightarrow> (c, Some err)
      | Inr conn \<Rightarrow> (c\<lparr>wc_conn := Some conn\<rparr>, None))"

definition NewWgCtrlConnection :: "(string \<Rightarrow> 'e + 'g) \<Rightarrow> string \<Rightarrow> 'e + 'g WgCtrlConnection" where
  "NewWgCtrlConnection dial server =
     (case CreateGrpcConnection dial \<lparr>wc_endpoint = server, wc_conn = None\<rparr> of
        (conn, Some err) \<Rightarrow> Inl err
      | (conn, None) \<Rightarrow> Inr conn)"

text \<open>The error of \<open>GetClient\<close>, beside the client that it returns in any case.\<close>

definition GetClient :: "'g WgCtrlConnection \<Rightarrow> 'g option \<times> string option" where
  "GetClient c =
     (wc_conn c, if wc_conn c = None then Some ''the client's config does not exist'' else None)"

text \<open>A manager that makes its connections with \<open>NewWgCtrlConnection\<close> hands out connections to the endpoint that was
  asked for, and asking them for their client never fails.\<close>

definition cm_connected :: "'g WgCtrlConnection ConnectionManagerImpl \<Rightarrow> bool" where
  "cm_connected m \<longleftrightarrow> (\<forall>endpoint c. map_of (clientConnections m) endpoint = Some c
     \<longrightarrow> wc_endpoint c = endpoint \<and> snd (GetClient c) = None)"

lemma NewWgCtrlConnection_ok:
  "NewWgCtrlConnection dial server = Inr c \<Longrightarrow> wc_endpoint c = server \<and> snd (GetClient c) = None"
  by (auto simp: NewWgCtrlConnection_def CreateGrpcConnection_def GetClient_def split: sum.splits)

lemma GetConnection_connected:
  assumes "cm_connected m" and "GetConnection (NewWgCtrlConnection dial) endpoint m = (m', r)"
  shows "cm_connected m' \<and> (\<forall>c. r = Inr c \<longrightarrow> wc_endpoint c = endpoint \<and> snd (GetClient c) = None)"
  using assms
  by (auto simp: cm_connected_def GetConnection_def AddConnection_def dest: NewWgCtrlConnection_ok NewWgCtrlConnection_ok [OF sym]
    split: option.splits sum.splits if_splits)

lemma RemoveConnection_connected: "cm_connected m \<Longrightarrow> cm_connected (fst (RemoveConnection close endpoint m))"
  by (auto simp: cm_connected_def RemoveConnection_def split: option.splits if_splits)

section \<open>The interface\<close>

locale cache =
  fixes fetch :: "(string \<Rightarrow> 'e + 'c) \<Rightarrow> string \<Rightarrow> 's \<Rightarrow> 's \<times> ('e + 'c)"
    and drop_entry :: "string \<Rightarrow> 's \<Rightarrow> 's"
    and lookup :: "string \<Rightarrow> 's \<Rightarrow> 'c option"
  assumes fetch_hit: "lookup k s = Some c \<Longrightarrow> fetch dial k s = (s, Inr c)"
    and fetch_miss: "lookup k s = None \<Longrightarrow> snd (fetch dial k s) = dial k
      \<and> lookup j (fst (fetch dial k s)) = (if j = k then (case dial k of Inl _ \<Rightarrow> None | Inr c \<Rightarrow> Some c) else lookup j s)"
    and lookup_drop: "lookup j (drop_entry k s) = (if j = k then None else lookup j s)"
begin

text \<open>Dialling a whole list of endpoints leaves cached ones alone.\<close>

lemma fetch_keeps: "lookup j s = Some c \<Longrightarrow> lookup j (fst (fetch dial k s)) = Some c"
  by (cases "lookup k s") (auto simp: fetch_hit fetch_miss)

lemma fetch_many_keeps:
  "lookup j s = Some c \<Longrightarrow> lookup j (fold (\<lambda>k s. fst (fetch dial k s)) ks s) = Some c"
  by (induction ks arbitrary: s) (auto intro: fetch_keeps)

lemma fetch_again:
  assumes "snd (fetch dial k s) = Inr c"
  shows "fetch dial' k (fold (\<lambda>j s. fst (fetch dial'' j s)) ks (fst (fetch dial k s)))
    = (fold (\<lambda>j s. fst (fetch dial'' j s)) ks (fst (fetch dial k s)), Inr c)"
proof -
  have "lookup k (fst (fetch dial k s)) = Some c"
    using assms by (cases "lookup k s") (auto simp: fetch_hit fetch_miss)
  then show ?thesis by (intro fetch_hit fetch_many_keeps)
qed

lemma drop_then_fetch: "snd (fetch dial k (drop_entry k s)) = dial k"
  by (simp add: fetch_miss lookup_drop)

end

interpretation connections: cache GetConnection "\<lambda>k m. fst (RemoveConnection close k m)"
  "\<lambda>k m. map_of (clientConnections m) k" for close :: "'c \<Rightarrow> 'e option"
  by unfold_locales
    (auto simp: GetConnection_def AddConnection_def RemoveConnection_def split: option.splits sum.splits)

text \<open>C28: an endpoint that was connected keeps its connection, whatever other endpoints are connected in
  between: a later request returns the same connection without dialling. After the connection is
  removed, even if closing it failed, the next request dials again.\<close>

theorem connections_are_reused_until_removed:
  fixes dial dial' dial'' :: "string \<Rightarrow> 'e + 'c" and close :: "'c \<Rightarrow> 'e option"
  assumes "snd (GetConnection dial k m) = Inr c"
  shows "(let m' = fold (\<lambda>j m. fst (GetConnection dial'' j m)) ks (fst (GetConnection dial k m))
      in GetConnection dial' k m' = (m', Inr c) \<and> HasConnection k m')
    \<and> \<not> HasConnection k (fst (RemoveConnection close k m))
    \<and> snd (GetConnection dial' k (fst (RemoveConnection close k m))) = dial' k"
proof -
  let ?m' = "fold (\<lambda>j m. fst (GetConnection dial'' j m)) ks (fst (GetConnection dial k m))"
  have again: "GetConnection dial' k ?m' = (?m', Inr c)" by (rule connections.fetch_again [OF assms])
  have "map_of (clientConnections (fst (GetConnection dial k m))) k = Some c"
    using assms by (auto simp: GetConnection_def AddConnection_def split: option.splits sum.splits)
  then have "HasConnection k ?m'" by (simp add: HasConnection_def connections.fetch_many_keeps)
  with again show ?thesis
    by (simp add: HasConnection_def connections.drop_then_fetch connections.lookup_drop)
qed

theorem connections_are_reused_until_removed_witness:
  "let m' = fst (GetConnection (\<lambda>_. Inr (1 :: nat)) ''a'' \<lparr>clientConnections = []\<rparr>)
   in GetConnection (\<lambda>_. Inl ''down'') ''a'' m' = (m', Inr 1)"
  using connections_are_reused_until_removed [of "\<lambda>_. Inr (1 :: nat)" "''a''" "\<lparr>clientConnections = []\<rparr>" 1
    "\<lambda>_. Inl ''down''" "[]" "\<lambda>_. Inl ''down''" "\<lambda>_. None"]
  by (simp add: GetConnection_def AddConnection_def)

end
