(* ===== verification/Gossip.thy ===== *)
theory Gossip
  imports Cluster Conn_Manager Config_Applier Route_Manager
begin

text \<open>
  The gossip of the daemon: \<open>src/pkg/sync/syncer.go\<close> (whom to synchronise with, and when),
  \<open>SyncMesh\<close> of \<open>src/pkg/sync/syncrequester.go\<close> (connect, run a session, handle its error),
  \<open>src/pkg/sync/syncererror.go\<close> and \<open>GetConf\<close> of \<open>src/pkg/sync/syncservice.go\<close>.

  What the network answers to the \<open>i\<close>-th request of a round is the \<open>i\<close>-th record \<open>requester_env\<close>: the
  dialled connection, and how a whole session over it changes the mesh and ends. \<open>peer_session\<close> is
  the session of \<open>Two_Phase_Syncer\<close> with a reachable peer in that form. Random numbers and the
  times read are arguments. \<open>None\<close> is a panic, or a random subset that is never completed. Counters
  are unbounded. The goroutines of \<open>SyncMeshes\<close> run one after the other, in the order of the list
  of meshes, which is arbitrary.
\<close>

section \<open>Errors of a session\<close>

datatype Code =
    OK | Canceled | Unknown | InvalidArgument | DeadlineExceeded | NotFound | AlreadyExists
  | PermissionDenied | ResourceExhausted | FailedPrecondition | Aborted | OutOfRange | Unimplemented
  | Internal | Unavailable | DataLoss | Unauthenticated

datatype rpc_error =
    EOF
  | Status Code
  | OtherError string

text \<open>\<open>status.FromError\<close> gives the code \<open>Unknown\<close> to every error that carries no status.\<close>

fun error_code :: "rpc_error \<Rightarrow> Code" where
  "error_code (Status c) = c"
| "error_code _ = Unknown"

type_synonym 'c link = "TwoPhaseStoreMeshManager \<times> 'c ConnectionManagerImpl"

definition handleFailed :: "('c \<Rightarrow> rpc_error option) \<Rightarrow> string \<Rightarrow> 'c link \<Rightarrow> ('c link \<times> bool) option" where
  "handleFailed close nodeId l =
     (case l of (mesh, conns) \<Rightarrow>
        let mesh1 = DS_Mark nodeId mesh in
        case DS_GetNode nodeId mesh1 of
          Inl _ \<Rightarrow> None
        | Inr node \<Rightarrow> Some ((mesh1, conns), True))"

definition handleDeadlineExceeded ::
  "('c \<Rightarrow> rpc_error option) \<Rightarrow> string \<Rightarrow> 'c link \<Rightarrow> ('c link \<times> bool) option" where
  "handleDeadlineExceeded close nodeId l =
     (case l of (mesh, conns) \<Rightarrow>
        case DS_GetNode nodeId mesh of
          Inl _ \<Rightarrow> Some (l, False)
        | Inr node \<Rightarrow> Some ((mesh, fst (RemoveConnection close (HostEndpoint node) conns)), True))"

definition Handle :: "('c \<Rightarrow> rpc_error option) \<Rightarrow> string \<Rightarrow> rpc_error \<Rightarrow> 'c link \<Rightarrow> ('c link \<times> bool) option" where
  "Handle close nodeId err l =
     (case error_code err of
        Unavailable \<Rightarrow> handleFailed close nodeId l
      | Unknown \<Rightarrow> handleFailed close nodeId l
      | Internal \<Rightarrow> handleFailed close nodeId l
      | NotFound \<Rightarrow> handleFailed close nodeId l
      | DeadlineExceeded \<Rightarrow> handleDeadlineExceeded close nodeId l
      | _ \<Rightarrow> Some (l, False))"

section \<open>A request\<close>

record 'c requester_env =
  rq_dial :: "string \<Rightarrow> rpc_error + 'c"
  rq_close :: "'c \<Rightarrow> rpc_error option"
  rq_client :: "'c \<Rightarrow> rpc_error option"
  rq_session :: "'c \<Rightarrow> TwoPhaseStoreMeshManager \<Rightarrow> TwoPhaseStoreMeshManager \<times> rpc_error option"

definition handleErr ::
  "'c requester_env \<Rightarrow> string \<Rightarrow> rpc_error \<Rightarrow> 'c link \<Rightarrow> ('c link \<times> rpc_error option) option" where
  "handleErr R pubKey err l =
     map_option (\<lambda>(l1, ok). (l1, if ok then None else Some err)) (Handle (rq_close R) pubKey err l)"

text \<open>The verdict of the handler is dropped: the caller gets the error of the session.\<close>

definition RQ_SyncMesh ::
  "wg_keys \<Rightarrow> 'c requester_env \<Rightarrow> MeshNode \<Rightarrow> 'c link \<Rightarrow> ('c link \<times> rpc_error option) option" where
  "RQ_SyncMesh W R meshNode l =
     (case l of (mesh, conns) \<Rightarrow>
        case GetConnection (rq_dial R) (HostEndpoint meshNode) conns of
          (conns1, Inl err) \<Rightarrow> Some ((mesh, conns1), Some err)
        | (conns1, Inr peerConnection) \<Rightarrow>
            (case rq_client R peerConnection of
               Some err \<Rightarrow> Some ((mesh, conns1), Some err)
             | None \<Rightarrow>
                 (case rq_session R peerConnection mesh of
                    (mesh1, None) \<Rightarrow> Some ((mesh1, conns1), None)
                  | (mesh1, Some err) \<Rightarrow>
                      map_option (\<lambda>(l1, _). (l1, Some err))
                        (handleErr R (keyText W (PublicKey meshNode)) err (mesh1, conns1)))))"

text \<open>A session of \<open>Two_Phase_Syncer\<close> with a reachable peer whose manager is \<open>remote\<close>, as the client
  sees it. An error that the server returns has the code \<open>Unknown\<close>.\<close>

definition peer_session ::
  "(nat \<Rightarrow> u64) \<Rightarrow> MeshManagerImpl \<Rightarrow> TwoPhaseStoreMeshManager \<Rightarrow> TwoPhaseStoreMeshManager \<times> rpc_error option" where
  "peer_session time remote mesh =
     (case syncMesh (TS_GenerateMessage zeroNode) TS_RecvMessage
         (\<lambda>meshId. map_option DS_GetSyncer (MM_GetMesh meshId remote))
         time (MeshId mesh) 5 (DS_GetSyncer mesh) NewServer of
        Some (Completed syncer _) \<Rightarrow> (mesh\<lparr>store := ts_store syncer\<rparr>, None)
      | Some (ClientError syncer _) \<Rightarrow> (mesh\<lparr>store := ts_store syncer\<rparr>, Some (Status Unknown))
      | _ \<Rightarrow> (mesh, Some (Status Unavailable)))"

definition GetConf :: "string \<Rightarrow> MeshManagerImpl \<Rightarrow> MeshNode TwoPhaseMapSnapshot option" where
  "GetConf meshId m = map_option DS_Save (MM_GetMesh meshId m)"

section \<open>The syncer\<close>

record SyncerImpl =
  infectionCount :: int
  syncCount :: int
  cluster :: "int option"
  configuration :: DaemonConfiguration
  lastSync :: "(string, int) gomap"
  lastPoll :: "(string, int) gomap"

definition NewSyncer :: "DaemonConfiguration \<Rightarrow> SyncerImpl" where
  "NewSyncer config =
     \<lparr>infectionCount = 0, syncCount = 0,
      cluster = (case NewConnCluster (dc_ClusterSize config) of Inl _ \<Rightarrow> None | Inr c \<Rightarrow> Some c),
      configuration = config, lastSync = [], lastPoll = []\<rparr>"

definition at_time :: "(string, int) gomap \<Rightarrow> string \<Rightarrow> int" where
  "at_time stamps meshId = (case map_of stamps meshId of None \<Rightarrow> 0 | Some t \<Rightarrow> t)"

record 'c gossip_env =
  ge_keys :: wg_keys
  ge_request :: "nat \<Rightarrow> 'c requester_env"
  ge_checked :: int
  ge_finished :: int
  ge_draws :: "nat list"
  ge_float :: rat
  ge_interDraw :: nat

datatype sync_error =
    MeshNil
  | NoSuchNode string
  | RequestFailed rpc_error

text \<open>What \<open>Sync\<close> and \<open>Pull\<close> return, with the state they leave.\<close>

type_synonym 'c synced_mesh = "SyncerImpl \<times> 'c link \<times> bool \<times> sync_error option"

text \<open>Go's remainder takes the sign of the dividend; a zero divisor panics.\<close>

definition go_rem :: "int \<Rightarrow> int \<Rightarrow> int option" where
  "go_rem a b = (if b = 0 then None else Some (if a < 0 then - ((- a) mod \<bar>b\<bar>) else a mod \<bar>b\<bar>))"

definition request_ok :: "rpc_error option \<Rightarrow> bool" where
  "request_ok err \<longleftrightarrow> err = None \<or> err = Some EOF"

definition Pull :: "'c gossip_env \<Rightarrow> MeshNode \<Rightarrow> SyncerImpl \<Rightarrow> 'c link \<Rightarrow> 'c synced_mesh option" where
  "Pull E self s l =
     (case cluster s of
        None \<Rightarrow> None
      | Some c \<Rightarrow>
          (case Option.bind (GetNeighbours c (DS_GetPeers (fst l)) (keyText (ge_keys E) (PublicKey self)))
                  (\<lambda>neighbours. RandomSubsetOfLength (ge_draws E) neighbours 1) of
             None \<Rightarrow> None
           | Some [] \<Rightarrow> Some (s, l, False, None)
           | Some (neighbour # _) \<Rightarrow>
               (case DS_GetNode neighbour (fst l) of
                  Inl _ \<Rightarrow> Some (s, l, False, Some (NoSuchNode neighbour))
                | Inr pullNode \<Rightarrow>
                    (case RQ_SyncMesh (ge_keys E) (ge_request E 0) pullNode l of
                       None \<Rightarrow> None
                     | Some (l1, err) \<Rightarrow>
                         if request_ok err then
                           Some (s\<lparr>lastSync := gm_put (MeshId (fst l1)) (ge_finished E) (lastSync s),
                                   syncCount := syncCount s + 1\<rparr>, l1, DS_HasChanges (fst l1), None)
                         else Some (s, l1, False, map_option RequestFailed err)))))"

text \<open>The nodes to gossip with; \<open>Some None\<close> is the early return of a client without neighbours.\<close>

definition gossip_nodes ::
  "'c gossip_env \<Rightarrow> string \<Rightarrow> MeshNode option \<Rightarrow> string list \<Rightarrow> SyncerImpl \<Rightarrow> string list option option" where
  "gossip_nodes E publicKey self nodeNames s =
     (case cluster s of
        None \<Rightarrow> None
      | Some c \<Rightarrow>
          (case GetNeighbours c nodeNames publicKey of
             None \<Rightarrow> None
           | Some neighbours \<Rightarrow>
               if (case self of None \<Rightarrow> False | Some n \<Rightarrow> Type n = CLIENT_ROLE) \<and> length nodeNames > 1 then
                 Some (if neighbours = [] then None else Some (take 2 neighbours))
               else
                 (case RandomSubsetOfLength (ge_draws E) neighbours (dc_Branch (configuration s)) of
                    None \<Rightarrow> None
                  | Some gossipNodes \<Rightarrow>
                      if int (length nodeNames) > dc_ClusterSize (configuration s)
                         \<and> ge_float E < dc_InterClusterChance (configuration s) then
                        (if gossipNodes = [] then None
                         else case GetInterCluster c (ge_interDraw E) nodeNames publicKey of
                           None \<Rightarrow> None
                         | Some other \<Rightarrow> Some (Some (gossipNodes[length gossipNodes - 1 := other])))
                      else Some (Some gossipNodes))))"

text \<open>The loop over them: \<open>i\<close> counts the requests, \<open>succeeded\<close> is the flag of the code.\<close>

fun gossip_loop ::
  "wg_keys \<Rightarrow> (nat \<Rightarrow> 'c requester_env) \<Rightarrow> nat \<Rightarrow> string list \<Rightarrow> 'c link \<Rightarrow> bool \<Rightarrow> ('c link \<times> bool) option" where
  "gossip_loop W N i [] l succeeded = Some (l, succeeded)"
| "gossip_loop W N i (node # nodes) l succeeded =
     (case DS_GetNode node (fst l) of
        Inl _ \<Rightarrow> gossip_loop W N i nodes l succeeded
      | Inr correspondingPeer \<Rightarrow>
          (case RQ_SyncMesh W (N i) correspondingPeer l of
             None \<Rightarrow> None
           | Some (l1, err) \<Rightarrow> gossip_loop W N (Suc i) nodes l1 (succeeded \<or> request_ok err)))"

definition self_of :: "string \<Rightarrow> TwoPhaseStoreMeshManager \<Rightarrow> MeshNode option" where
  "self_of publicKey mesh = (case DS_GetNode publicKey mesh of Inl _ \<Rightarrow> None | Inr n \<Rightarrow> Some n)"

text \<open>The condition of the branch that does not gossip.\<close>

definition quiet :: "MeshNode option \<Rightarrow> TwoPhaseStoreMeshManager \<Rightarrow> SyncerImpl \<Rightarrow> bool" where
  "quiet self mesh s \<longleftrightarrow> (case self of None \<Rightarrow> False | Some n \<Rightarrow> Type n = PEER_ROLE)
     \<and> \<not> DS_HasChanges mesh \<and> infectionCount s = 0"

definition other_peers :: "string \<Rightarrow> TwoPhaseStoreMeshManager \<Rightarrow> string list" where
  "other_peers publicKey mesh = Filter (DS_GetPeers mesh) (\<lambda>n. n \<noteq> publicKey)"

text \<open>The end of a round.\<close>

definition finish_round ::
  "int \<Rightarrow> bool \<Rightarrow> SyncerImpl \<Rightarrow> 'c link \<Rightarrow> 'c synced_mesh option" where
  "finish_round finished succeeded s l =
     (case go_rem (dc_InfectionCount (configuration s) + infectionCount s - 1) (dc_InfectionCount (configuration s)) of
        None \<Rightarrow> None
      | Some left \<Rightarrow>
          let mesh = DS_SaveChanges (fst l) in
          Some (s\<lparr>syncCount := syncCount s + 1,
                  infectionCount := (if succeeded then left else left + 1),
                  lastSync := gm_put (MeshId mesh) finished (lastSync s)\<rparr>, (mesh, snd l), True, None))"

definition Sync :: "'c gossip_env \<Rightarrow> string \<Rightarrow> SyncerImpl \<Rightarrow> 'c link \<Rightarrow> 'c synced_mesh option" where
  "Sync E publicKey s l =
     (let self = self_of publicKey (fst l);
          mesh = DS_Prune (fst l);
          l1 = (mesh, snd l) in
      if quiet self mesh s then
        if dc_PullInterval (configuration s) \<noteq> 0
           \<and> ge_checked E - at_time (lastSync s) (MeshId mesh) > dc_PullInterval (configuration s)
        then Pull E (the self) s l1
        else Some (s, l1, False, None)
      else
        (case gossip_nodes E publicKey self (other_peers publicKey mesh) s of
           None \<Rightarrow> None
         | Some None \<Rightarrow> Some (s, l1, False, None)
         | Some (Some gossipNodes) \<Rightarrow>
             (case gossip_loop (ge_keys E) (ge_request E) 0 gossipNodes l1 False of
                None \<Rightarrow> None
              | Some (l2, succeeded) \<Rightarrow> finish_round (ge_finished E) succeeded s l2)))"

text \<open>\<open>Sync\<close> may be called with no mesh at all.\<close>

definition Sync_mesh ::
  "'c gossip_env \<Rightarrow> string \<Rightarrow> SyncerImpl \<Rightarrow> TwoPhaseStoreMeshManager option \<Rightarrow> 'c ConnectionManagerImpl
    \<Rightarrow> (SyncerImpl \<times> TwoPhaseStoreMeshManager option \<times> 'c ConnectionManagerImpl \<times> bool \<times> sync_error option) option" where
  "Sync_mesh E publicKey s mesh conns =
     (case mesh of
        None \<Rightarrow> Some (s, None, conns, False, Some MeshNil)
      | Some m \<Rightarrow> map_option (\<lambda>(s1, (m1, conns1), changes, err). (s1, Some m1, conns1, changes, err))
          (Sync E publicKey s (m, conns)))"

section \<open>Synchronising every mesh\<close>

text \<open>The meshes that are due.\<close>

definition due :: "int \<Rightarrow> SyncerImpl \<Rightarrow> TwoPhaseStoreMeshManager \<Rightarrow> bool" where
  "due now s mesh \<longleftrightarrow> now - at_time (lastPoll s) (MeshId mesh) \<ge> dc_SyncInterval (configuration s)"

text \<open>One goroutine after the other. The meshes are shared with the manager, so each round reads the mesh
  from it and writes it back; \<open>results\<close> is the content of the channel.\<close>

fun sync_each ::
  "(nat \<Rightarrow> 'c gossip_env) \<Rightarrow> (nat \<Rightarrow> int) \<Rightarrow> nat \<Rightarrow> string list \<Rightarrow> SyncerImpl \<Rightarrow> MeshManagerImpl
    \<Rightarrow> 'c ConnectionManagerImpl \<Rightarrow> bool list
    \<Rightarrow> (SyncerImpl \<times> MeshManagerImpl \<times> 'c ConnectionManagerImpl \<times> bool list) option" where
  "sync_each E polled i [] s m conns results = Some (s, m, conns, results)"
| "sync_each E polled i (meshId # ids) s m conns results =
     (case MM_GetMesh meshId m of
        None \<Rightarrow> sync_each E polled (Suc i) ids s m conns results
      | Some mesh \<Rightarrow>
          (case Sync (E i) (mm_PublicKey m) s (mesh, conns) of
             None \<Rightarrow> None
           | Some (s1, (mesh1, conns1), hasChanges, err) \<Rightarrow>
               sync_each E polled (Suc i) ids
                 (s1\<lparr>lastPoll := gm_put (MeshId mesh1) (polled i) (lastPoll s1)\<rparr>)
                 (set_mesh meshId mesh1 m) conns1 (results @ [hasChanges])))"

text \<open>Reading the channel: the bound of the loop is the number of results still in it.\<close>

fun drain :: "nat \<Rightarrow> bool list \<Rightarrow> bool \<Rightarrow> bool" where
  "drain i [] hasChanges = hasChanges"
| "drain i (c # changes) hasChanges =
     (if i < length (c # changes) then drain (Suc i) changes (hasChanges \<or> c) else hasChanges)"

definition SyncMeshes ::
  "(nat \<Rightarrow> 'c gossip_env) \<Rightarrow> (nat \<Rightarrow> int) \<Rightarrow> int \<Rightarrow> wg_keys \<Rightarrow> wg_env \<Rightarrow> u64 \<Rightarrow> SyncerImpl \<Rightarrow> MeshManagerImpl
    \<Rightarrow> 'c ConnectionManagerImpl
    \<Rightarrow> (SyncerImpl \<times> MeshManagerImpl \<times> 'c ConnectionManagerImpl \<times> apply_effect list) option" where
  "SyncMeshes E polled now W A now64 s m conns =
     (let meshesToSync = filter (\<lambda>(_, mesh). due now s mesh) (GetMeshes m) in
      case sync_each E polled 0 (map fst meshesToSync) s m conns [] of
        None \<Rightarrow> None
      | Some (s1, m1, conns1, results) \<Rightarrow>
          (case UpdateRoutes (keyText W) now64 m1 of
             (m2, err) \<Rightarrow>
               if err = Some ManagerPanic then None
               else if drain 0 results False then
                 (case MM_ApplyConfig W A m2 of
                    (fx, err') \<Rightarrow> if err' = Some ApplyPanic then None else Some (s1, m2, conns1, fx))
               else Some (s1, m2, conns1, [])))"

text \<open>A syncer with one round left whose requests succeed, for the examples.\<close>

definition demo_request :: "nat requester_env" where
  "demo_request = \<lparr>rq_dial = (\<lambda>_. Inr 1), rq_close = (\<lambda>_. None), rq_client = (\<lambda>_. None),
     rq_session = (\<lambda>_ mesh. (mesh, None))\<rparr>"

definition demo_gossip :: "nat gossip_env" where
  "demo_gossip = \<lparr>ge_keys = \<lparr>wg_parse = Some, wg_zeroKey = []\<rparr>, ge_request = (\<lambda>_. demo_request),
     ge_checked = 10, ge_finished = 11, ge_draws = [0..<16], ge_float = 1 / 2, ge_interDraw = 0\<rparr>"

definition demo_syncer :: SyncerImpl where
  "demo_syncer = (NewSyncer demo_daemon)\<lparr>infectionCount := 1\<rparr>"

lemma demo_syncer_simps [simp]:
  "cluster demo_syncer = Some 16" "configuration demo_syncer = demo_daemon" "infectionCount demo_syncer = 1"
  "dc_ClusterSize demo_daemon = 16" "dc_Branch demo_daemon = 3" "dc_InfectionCount demo_daemon = 3"
  by (simp_all add: demo_syncer_def NewSyncer_def NewConnCluster_def log2_finite_def demo_daemon_def)

section \<open>Whom a node gossips with\<close>

text \<open>The draws hit every index of a slice that is not longer than the cluster size.\<close>

definition draws_cover :: "nat list \<Rightarrow> int \<Rightarrow> bool" where
  "draws_cover draws bound \<longleftrightarrow> (\<forall>n. 0 < n \<longrightarrow> int n \<le> bound \<longrightarrow> {..<n} \<subseteq> (\<lambda>d. d mod n) ` set draws)"

lemma random_neighbours:
  assumes "draws_cover draws bound" and "int (length ns) \<le> bound"
  shows "\<exists>r. RandomSubsetOfLength draws ns num = Some r \<and> set r \<subseteq> set ns \<and> length r = min (nat num) (length ns)"
proof -
  have "{..<length ns} \<subseteq> (\<lambda>d. d mod length ns) ` set draws"
    using assms by (cases "ns = []") (auto simp: draws_cover_def)
  then obtain r where r: "RandomSubsetOfLength draws ns num = Some r" using random_subset_returns by blast
  from random_subset_distinct_indices [OF this] show ?thesis using r by (auto simp: subset_eq)
qed

lemma set_update_last: "set (xs[i := x]) \<subseteq> A" if "set xs \<subseteq> A" "x \<in> A"
  using that set_update_subset_insert [of xs i x] by auto

lemma set_take_trans: "set xs \<subseteq> A \<Longrightarrow> set (take n xs) \<subseteq> A"
  by (meson set_take_subset subset_trans)

text \<open>C6: with the values the validator asks of the configuration, choosing the partners of a round never
  panics and always ends: the partners are peers of the mesh other than the node itself, one at
  least when there is another peer, and no more than the branching factor (or two for a client).\<close>

theorem gossip_partners_are_other_peers:
  assumes "cluster s = Some (dc_ClusterSize (configuration s))" and "1 \<le> dc_ClusterSize (configuration s)"
    and "1 \<le> dc_Branch (configuration s)" and "draws_cover (ge_draws E) (dc_ClusterSize (configuration s))"
  shows "\<exists>nodes. gossip_nodes E publicKey self (other_peers publicKey mesh) s = Some (Some nodes)
    \<and> set nodes \<subseteq> set (DS_GetPeers mesh) - {publicKey}
    \<and> (nodes = [] \<longleftrightarrow> set (DS_GetPeers mesh) \<subseteq> {publicKey})
    \<and> int (length nodes) \<le> max 2 (dc_Branch (configuration s))"
proof -
  let ?c = "dc_ClusterSize (configuration s)" and ?peers = "other_peers publicKey mesh"
  have peers: "set ?peers = set (DS_GetPeers mesh) - {publicKey}" by (auto simp: other_peers_def)
  obtain ns where ns: "GetNeighbours ?c ?peers publicKey = Some ns" "set ns \<subseteq> set ?peers"
    "?peers \<noteq> [] \<longrightarrow> ns \<noteq> []" "int (length ns) \<le> ?c"
    using neighbours_among_peers [OF assms(2)] by blast
  obtain r where r: "RandomSubsetOfLength (ge_draws E) ns (dc_Branch (configuration s)) = Some r"
    "set r \<subseteq> set ns" "length r = min (nat (dc_Branch (configuration s))) (length ns)"
    using random_neighbours [OF assms(4) ns(4)] by blast
  have empty: "?peers = [] \<longleftrightarrow> set (DS_GetPeers mesh) \<subseteq> {publicKey}" using peers by (auto simp flip: set_empty)
  have r_empty: "r = [] \<longleftrightarrow> ?peers = []" using r(3) ns(2,3) assms(3) by (cases ns) auto
  have partner: "\<exists>p \<in> set ?peers. GetInterCluster ?c (ge_interDraw E) ?peers publicKey = Some p"
    if "?peers \<noteq> []" using inter_cluster_partner_is_a_peer [OF _ that] assms(2) by auto
  have "\<exists>nodes. gossip_nodes E publicKey self ?peers s = Some (Some nodes)
    \<and> set nodes \<subseteq> set ?peers \<and> (nodes = [] \<longleftrightarrow> ?peers = [])
    \<and> int (length nodes) \<le> max 2 (dc_Branch (configuration s))"
  proof (cases "(case self of None \<Rightarrow> False | Some n \<Rightarrow> Type n = CLIENT_ROLE) \<and> length ?peers > 1")
    case True
    then have "?peers \<noteq> []" by auto
    moreover have "set (take 2 ns) \<subseteq> set ?peers" using ns(2) by (rule set_take_trans)
    ultimately show ?thesis using True ns by (auto simp: gossip_nodes_def assms(1))
  next
    case random: False
    show ?thesis
    proof (cases "int (length ?peers) > ?c \<and> ge_float E < dc_InterClusterChance (configuration s)")
      case True
      then have "?peers \<noteq> []" using assms(2) by auto
      from partner [OF this] obtain p where "p \<in> set ?peers"
        "GetInterCluster ?c (ge_interDraw E) ?peers publicKey = Some p" by blast
      moreover from this have "set (r[length r - 1 := p]) \<subseteq> set ?peers" using r(2) ns(2) by (intro set_update_last) auto
      ultimately show ?thesis
        using True random ns(1) r(1) r_empty \<open>?peers \<noteq> []\<close> r(3) assms(3)
        by (simp add: gossip_nodes_def assms(1)) auto
    next
      case False
      with random ns r r_empty assms(3) show ?thesis by (auto simp: gossip_nodes_def assms(1))
    qed
  qed
  then show ?thesis using peers empty by simp
qed

theorem gossip_partners_are_other_peers_witness:
  "\<exists>nodes. gossip_nodes demo_gossip ''k2'' None (other_peers ''k2'' demo_mesh) demo_syncer = Some (Some nodes)
    \<and> set nodes \<subseteq> set (DS_GetPeers demo_mesh) - {''k2''}"
proof -
  have "draws_cover (ge_draws demo_gossip) 16"
  proof -
    have "i \<in> (\<lambda>d. d mod n) ` set [0..<16]" if "i < n" "n \<le> 16" for i n :: nat
      using that by (intro image_eqI [of _ _ i]) auto
    then show ?thesis by (auto simp: draws_cover_def demo_gossip_def)
  qed
  then show ?thesis
    using gossip_partners_are_other_peers [of demo_syncer demo_gossip "''k2''" None demo_mesh] by auto
qed

section \<open>How long a change is gossiped\<close>

text \<open>The counter after a round, and where rounds start counting.\<close>

definition rounds_left :: "SyncerImpl \<Rightarrow> int" where
  "rounds_left s = (if infectionCount s = 0 then dc_InfectionCount (configuration s) else infectionCount s)"

definition infection_ok :: "SyncerImpl \<Rightarrow> bool" where
  "infection_ok s \<longleftrightarrow> 1 \<le> dc_InfectionCount (configuration s)
     \<and> 0 \<le> infectionCount s \<and> infectionCount s \<le> dc_InfectionCount (configuration s)"

lemma infection_step:
  assumes "infection_ok s"
  shows "go_rem (dc_InfectionCount (configuration s) + infectionCount s - 1) (dc_InfectionCount (configuration s))
    = Some (rounds_left s - 1)"
proof -
  let ?n = "dc_InfectionCount (configuration s)" and ?i = "infectionCount s"
  have "(?n + (?i - 1)) mod ?n = ?i - 1" if "0 < ?i"
    using assms that by (simp add: infection_ok_def mod_pos_pos_trivial)
  then show ?thesis
    using assms by (auto simp: go_rem_def infection_ok_def rounds_left_def add_diff_eq zmod_minus1)
qed

lemma finish_round_eq:
  assumes "infection_ok s"
  shows "finish_round finished succeeded s l =
    Some (s\<lparr>syncCount := syncCount s + 1,
            infectionCount := (if succeeded then rounds_left s - 1 else rounds_left s),
            lastSync := gm_put (MeshId (fst l)) finished (lastSync s)\<rparr>,
          (DS_SaveChanges (fst l), snd l), True, None)"
  by (simp add: finish_round_def infection_step [OF assms] Let_def DS_SaveChanges_def)

lemma saved_no_changes [simp]: "\<not> DS_HasChanges (DS_SaveChanges m)"
  by (simp add: DS_HasChanges_def DS_SaveChanges_def)

text \<open>What a round that gossips reaches: the state after the requests, and whether one succeeded.\<close>

definition gossiped :: "'c gossip_env \<Rightarrow> string \<Rightarrow> SyncerImpl \<Rightarrow> 'c link \<Rightarrow> ('c link \<times> bool) option" where
  "gossiped E publicKey s l =
     (let mesh = DS_Prune (fst l) in
      case gossip_nodes E publicKey (self_of publicKey (fst l)) (other_peers publicKey mesh) s of
        Some (Some nodes) \<Rightarrow> gossip_loop (ge_keys E) (ge_request E) 0 nodes (mesh, snd l) False
      | _ \<Rightarrow> None)"

lemma Sync_gossiped:
  assumes "infection_ok s" and "\<not> quiet (self_of publicKey (fst l)) (DS_Prune (fst l)) s"
    and "gossiped E publicKey s l = Some (l2, succeeded)"
  shows "Sync E publicKey s l = finish_round (ge_finished E) succeeded s l2"
  using assms by (auto simp: Sync_def gossiped_def Let_def split: option.splits)

text \<open>A round that gossips counts down when a request succeeded and keeps the count otherwise, starting
  from the configured infection count when the counter was 0. It records the changes as sent and
  the time of the round, and the counter stays between 0 and the infection count.\<close>

lemma gossip_round_counts_down:
  assumes "infection_ok s" and "\<not> quiet (self_of publicKey (fst l)) (DS_Prune (fst l)) s"
    and "gossiped E publicKey s l = Some (l2, succeeded)"
  shows "\<exists>s' l'. Sync E publicKey s l = Some (s', l', True, None)
    \<and> infectionCount s' = (if succeeded then rounds_left s - 1 else rounds_left s) \<and> infection_ok s'
    \<and> syncCount s' = syncCount s + 1
    \<and> at_time (lastSync s') (MeshId (fst l')) = ge_finished E
    \<and> l' = (DS_SaveChanges (fst l2), snd l2) \<and> \<not> DS_HasChanges (fst l')"
  using assms
  by (auto simp: Sync_gossiped finish_round_eq infection_ok_def rounds_left_def at_time_def DS_SaveChanges_def [of "fst l2"]
      DS_HasChanges_def)

lemma demo_gossiped:
  "case gossiped demo_gossip ''k2'' demo_syncer (demo_mesh, \<lparr>clientConnections = []\<rparr>) of
     Some (_, True) \<Rightarrow> True | _ \<Rightarrow> False"
  by code_simp

lemma demo_infection [simp]: "infection_ok demo_syncer" "rounds_left demo_syncer = 1" "\<not> quiet self mesh demo_syncer"
  by (simp_all add: infection_ok_def rounds_left_def quiet_def)


text \<open>Rounds one after the other, with nothing in between.\<close>

fun sync_rounds :: "'c gossip_env list \<Rightarrow> string \<Rightarrow> SyncerImpl \<Rightarrow> 'c link \<Rightarrow> (SyncerImpl \<times> 'c link) option" where
  "sync_rounds [] publicKey s l = Some (s, l)"
| "sync_rounds (E # Es) publicKey s l =
     (case Sync E publicKey s l of None \<Rightarrow> None | Some (s1, l1, _, _) \<Rightarrow> sync_rounds Es publicKey s1 l1)"

text \<open>Every round reaches some peer, when it gossips at all.\<close>

fun reaching :: "'c gossip_env list \<Rightarrow> string \<Rightarrow> SyncerImpl \<Rightarrow> 'c link \<Rightarrow> bool" where
  "reaching [] publicKey s l = True"
| "reaching (E # Es) publicKey s l =
     ((case gossiped E publicKey s l of Some (_, True) \<Rightarrow> True | _ \<Rightarrow> False)
      \<and> (case Sync E publicKey s l of None \<Rightarrow> True | Some (s1, l1, _, _) \<Rightarrow> reaching Es publicKey s1 l1))"

lemma reaching_rounds:
  assumes "infection_ok s" and "reaching Es publicKey s l" and "Es \<noteq> []" and "int (length Es) \<le> rounds_left s"
    and "\<not> quiet (self_of publicKey (fst l)) (DS_Prune (fst l)) s"
  shows "\<exists>s' l'. sync_rounds Es publicKey s l = Some (s', l')
    \<and> infectionCount s' = rounds_left s - int (length Es) \<and> \<not> DS_HasChanges (fst l')"
  using assms
proof (induction Es arbitrary: s l)
  case (Cons E Es)
  obtain l2 where g: "gossiped E publicKey s l = Some (l2, True)"
    using Cons.prems(2) by (auto split: option.splits bool.splits)
  let ?s = "s\<lparr>syncCount := syncCount s + 1, infectionCount := rounds_left s - 1,
    lastSync := gm_put (MeshId (fst l2)) (ge_finished E) (lastSync s)\<rparr>"
  let ?l = "(DS_SaveChanges (fst l2), snd l2)"
  have run: "Sync E publicKey s l = Some (?s, ?l, True, None)"
    by (simp add: Sync_gossiped [OF Cons.prems(1,5) g] finish_round_eq [OF Cons.prems(1)])
  show ?case
  proof (cases "Es = []")
    case True
    then show ?thesis using run by simp
  next
    case False
    then have pos: "0 < rounds_left s - 1" using Cons.prems(4) by (cases Es) auto
    then have "rounds_left ?s = rounds_left s - 1" by (simp add: rounds_left_def)
    moreover have "infection_ok ?s" using Cons.prems(1) pos by (auto simp: infection_ok_def rounds_left_def)
    moreover have "\<not> quiet (self_of publicKey (fst ?l)) (DS_Prune (fst ?l)) ?s" using pos by (simp add: quiet_def)
    ultimately show ?thesis
      using Cons.IH [of ?s ?l] Cons.prems(2,4) run False by (simp split: option.splits)
  qed
qed simp



section \<open>Peers that fail\<close>

lemma Mark_marks:
  assumes "ds_contains nodeId mesh"
  shows "TP_IsMarked p (store (DS_Mark nodeId mesh)) \<longleftrightarrow> same_hash mesh p nodeId \<or> TP_IsMarked p (store mesh)"
  using assms
  by (auto simp: DS_Mark_def TP_IsMarked_def GM_IsMarked_def TP_Mark_def map_of_GM_Mark TP_Contains_def TP_contains_iff
      split: option.splits)

lemma Mark_nodes: "set (TP_AsList zeroNode (store (DS_Mark nodeId mesh))) = set (TP_AsList zeroNode (store mesh))"
  by (simp add: set_TP_AsList DS_Mark_def same_views_contains [OF Mark_same_views] same_views_get [OF Mark_same_views])

lemma Mark_peers:
  assumes "ds_contains nodeId mesh"
  shows "set (DS_GetPeers (DS_Mark nodeId mesh)) = {p \<in> set (DS_GetPeers mesh). \<not> same_hash mesh p nodeId}"
  by (auto simp: set_DS_GetPeers Mark_nodes Mark_marks [OF assms])

lemma sum_put_same:
  "map_of g k = Some b \<Longrightarrow> Vector b' = Vector b
    \<Longrightarrow> sum_list (map (\<lambda>(_, b). Vector b) (gm_put k b' g)) = sum_list (map (\<lambda>(_, b). Vector b) g)"
  by (induction g) (auto split: if_splits)

lemma Mark_hash [simp]: "DS_HasChanges (DS_Mark nodeId mesh) = DS_HasChanges mesh"
proof -
  have "GM_GetHash (GM_Mark zero clk key g) = GM_GetHash g" for zero :: MeshNode and clk :: "string VectorClock" and key g
    by (auto simp: GM_GetHash_eq GM_Mark_def GM_Contains_def GM_contains_def GM_get_def sum_put_same Let_def
        split: option.splits)
  then show ?thesis by (simp add: DS_HasChanges_def DS_Mark_def TP_GetHash_def) (simp add: TP_Mark_def)
qed

text \<open>C22: a session that fails because the peer is gone takes the peer out of the peers to gossip with, and
  only it; its entry stays, nothing is announced as a change, and the connection is kept. If the
  entry vanished during the session, the handler dereferences a nil node and panics.\<close>

theorem failed_session_excludes_the_peer:
  assumes "error_code err \<in> {Unavailable, Unknown, Internal, NotFound}"
  shows "if ds_contains nodeId mesh
    then (\<exists>mesh'. Handle close nodeId err (mesh, conns) = Some ((mesh', conns), True)
      \<and> set (DS_GetPeers mesh') = {p \<in> set (DS_GetPeers mesh). \<not> same_hash mesh p nodeId}
      \<and> (\<forall>j. DS_GetNode j mesh' = DS_GetNode j mesh) \<and> DS_HasChanges mesh' = DS_HasChanges mesh)
    else Handle close nodeId err (mesh, conns) = None"
  using assms Mark_peers [of nodeId mesh]
  by (auto simp: Handle_def handleFailed_def DS_GetNode_def Let_def)

theorem failed_session_excludes_the_peer_witness:
  "\<exists>mesh'. Handle (\<lambda>_. None) ''k1'' (Status Unavailable) (demo_mesh, \<lparr>clientConnections = [(''a'', 1 :: nat)]\<rparr>)
      = Some ((mesh', \<lparr>clientConnections = [(''a'', 1)]\<rparr>), True)
    \<and> set (DS_GetPeers mesh') = {p \<in> set (DS_GetPeers demo_mesh). \<not> same_hash demo_mesh p ''k1''}"
  using failed_session_excludes_the_peer [of "Status Unavailable" "''k1''" demo_mesh "\<lambda>_. None"
      "\<lparr>clientConnections = [(''a'', 1 :: nat)]\<rparr>"]
  by auto

section \<open>The results of a round over all meshes\<close>

lemma drain_reads: "drain i cs b \<longleftrightarrow> b \<or> list_ex (\<lambda>c. c) (take ((length cs + 1 - i) div 2) cs)"
proof (induction i cs b rule: drain.induct)
  case (2 i c cs b)
  show ?case
  proof (cases "i < length (c # cs)")
    case True
    then have "(length (c # cs) + 1 - i) div 2 = Suc ((length cs + 1 - Suc i) div 2)" by auto
    with True 2 show ?thesis by auto
  qed simp
qed simp

lemma some_of_prefix: "n \<le> length cs \<Longrightarrow> list_ex (\<lambda>c. c) (take n cs) \<longleftrightarrow> (\<exists>i < n. cs ! i)"
  by (auto simp: list_ex_length)

text \<open>The loop that collects the results of the rounds reads the first half of them only, since its
  bound is the number of results left in the channel while the index grows. With one mesh the
  result is read; with more, the configuration is updated exactly when one of the first half
  of the results reported a change.\<close>

lemma results_of_half_the_meshes_are_read:
  "drain 0 results False \<longleftrightarrow> (\<exists>i < (length results + 1) div 2. results ! i)"
proof -
  have "(length results + 1) div 2 \<le> length results" by (cases results) auto
  from some_of_prefix [OF this] show ?thesis by (simp only: drain_reads) simp
qed

end
