(* ===== verification/Ctrl_Plane.thy ===== *)
theory Ctrl_Plane
  imports Gossip
begin

text \<open>
  What a node answers to its own user and to other nodes: \<open>src/pkg/ctrlserver/ctrltypes.go\<close> (a node as
  clients see it), \<open>src/pkg/query/query.go\<close>, the argument types of \<open>src/pkg/ipc/ipc.go\<close>, the handlers of
  \<open>src/pkg/cplane/requester.go\<close> and \<open>GetMesh\<close> of \<open>src/pkg/cplane/responder.go\<close>.

  A handler returns the new state of the server, the effects of the manager in order, and an error
  or the reply. A handler that calls the manager twice sees two environments. Reading a device, the
  search and encoding of a query and the remote call of \<open>JoinMesh\<close> are arguments.
\<close>

section \<open>A node as clients see it\<close>

record CtrlRoute =
  cr_Destination :: string
  cr_Path :: "string list"

record WireGuardStats =
  ws_AllowedIPs :: "string list"
  ws_TransmitBytes :: int
  ws_ReceivedBytes :: int
  ws_KeepAliveInterval :: int

record CtrlNode =
  cn_HostEndpoint :: string
  cn_WgEndpoint :: string
  cn_PublicKey :: string
  cn_WgHost :: string
  cn_Timestamp :: int
  cn_Routes :: "CtrlRoute list"
  cn_Description :: string
  cn_Alias :: string
  cn_Services :: "(string, string) gomap"
  cn_Stats :: WireGuardStats

definition zeroStats :: WireGuardStats where
  "zeroStats = \<lparr>ws_AllowedIPs = [], ws_TransmitBytes = 0, ws_ReceivedBytes = 0, ws_KeepAliveInterval = 0\<rparr>"

text \<open>A peer of the WireGuard library with its counters.\<close>

record StatsPeer = Peer +
  sp_AllowedIPs :: "IPNet list"
  sp_TransmitBytes :: int
  sp_ReceiveBytes :: int
  sp_KeepaliveInterval :: int

definition DS_GetDevice :: "(string \<Rightarrow> 'd option) \<Rightarrow> TwoPhaseStoreMeshManager \<Rightarrow> 'd option" where
  "DS_GetDevice readDevice m = readDevice (IfName m)"

definition peer_stats :: "StatsPeer \<Rightarrow> WireGuardStats" where
  "peer_stats peer =
     \<lparr>ws_AllowedIPs = Map (sp_AllowedIPs peer) (\<lambda>i. ipnet_string (Some i)),
      ws_TransmitBytes = sp_TransmitBytes peer, ws_ReceivedBytes = sp_ReceiveBytes peer,
      ws_KeepAliveInterval = sp_KeepaliveInterval peer\<rparr>"

definition NewCtrlNode ::
  "wg_keys \<Rightarrow> (string \<Rightarrow> StatsPeer list option) \<Rightarrow> TwoPhaseStoreMeshManager \<Rightarrow> MeshNode \<Rightarrow> CtrlNode" where
  "NewCtrlNode W readDevice provider node =
     (let pubKey = keyText W (PublicKey node);
          ctrlNode = \<lparr>cn_HostEndpoint = HostEndpoint node, cn_WgEndpoint = WgEndpoint node,
            cn_PublicKey = pubKey, cn_WgHost = ipnet_string (GetWgHost node),
            cn_Timestamp = Timestamp node,
            cn_Routes = Map (Node_GetRoutes node) (\<lambda>r. \<lparr>cr_Destination = ipnet_string (GetDestination r),
              cr_Path = GetPath r\<rparr>),
            cn_Description = Description node, cn_Alias = Alias node,
            cn_Services = node_services node, cn_Stats = zeroStats\<rparr>
      in case DS_GetDevice readDevice provider of
           None \<Rightarrow> ctrlNode
         | Some devicePeers \<Rightarrow>
             (case Filter devicePeers (\<lambda>p. wp_PublicKey p = pubKey) of
                [] \<Rightarrow> ctrlNode
              | peer # _ \<Rightarrow> ctrlNode\<lparr>cn_Stats := peer_stats peer\<rparr>))"

section \<open>Queries\<close>

record QueryRoute =
  qr_Destination :: string
  qr_HopCount :: nat
  qr_Path :: string

record QueryNode =
  qn_HostEndpoint :: string
  qn_PublicKey :: string
  qn_WgEndpoint :: string
  qn_WgHost :: string
  qn_Timestamp :: int
  qn_Description :: string
  qn_Routes :: "QueryRoute list"
  qn_Alias :: string
  qn_Services :: "(string, string) gomap"
  qn_Type :: string

definition MeshNodeToQueryNode :: "wg_keys \<Rightarrow> MeshNode \<Rightarrow> QueryNode" where
  "MeshNodeToQueryNode W node =
     \<lparr>qn_HostEndpoint = HostEndpoint node, qn_PublicKey = keyText W (PublicKey node),
      qn_WgEndpoint = WgEndpoint node, qn_WgHost = ipnet_string (GetWgHost node),
      qn_Timestamp = Timestamp node, qn_Description = Description node,
      qn_Routes = Map (Node_GetRoutes node) (\<lambda>r. \<lparr>qr_Destination = ipnet_string (GetDestination r),
        qr_HopCount = GetHopCount r, qr_Path = join_with (CHR '','') (GetPath r)\<rparr>),
      qn_Alias = Alias node, qn_Services = node_services node, qn_Type = Type node\<rparr>"

datatype 'e query_error =
    QueryError string
  | SearchError 'e
  | MarshalError 'e

definition JmesQuery ::
  "wg_keys \<Rightarrow> (string \<Rightarrow> QueryNode list \<Rightarrow> 'e + 'j) \<Rightarrow> ('j \<Rightarrow> 'e + string) \<Rightarrow> string \<Rightarrow> string \<Rightarrow> MeshManagerImpl
    \<Rightarrow> 'e query_error + string" where
  "JmesQuery W search marshal meshId queryParams m =
     (case map_of (GetMeshes m) meshId of
        None \<Rightarrow> Inl (QueryError (meshId @ '' does not exist''))
      | Some mesh \<Rightarrow>
          let nodes = Map (MapValues (GetNodes (DS_GetMesh mesh))) (MeshNodeToQueryNode W) in
          case search queryParams nodes of
            Inl err \<Rightarrow> Inl (SearchError err)
          | Inr result \<Rightarrow> (case marshal result of Inl err \<Rightarrow> Inl (MarshalError err) | Inr bytes \<Rightarrow> Inr bytes))"

section \<open>Requests of the user\<close>

record WireGuardArgs =
  wa_WgPort :: int
  wa_KeepAliveWg :: int
  wa_AdvertiseRoutes :: bool
  wa_AdvertiseDefaultRoute :: bool
  wa_Endpoint :: string
  wa_Role :: string

record JoinMeshArgs =
  ja_MeshId :: string
  ja_IpAddress :: string
  ja_WgArgs :: WireGuardArgs

record 'c MeshCtrlServer =
  cs_MeshManager :: MeshManagerImpl
  cs_ConnectionManager :: "'c ConnectionManagerImpl"
  cs_Conf :: DaemonConfiguration

datatype ipc_error =
    CouldNotCreateMesh
  | CouldNotCreateMeshBecause mm_error
  | AlreadyPartOfMesh
  | CouldNotJoinMesh string
  | NoMesh string
  | AliasNotProvided
  | CouldNotSetAlias string
  | ManagerError mm_error
  | QueryFailed "rpc_error query_error"
  | HandlerPanic

type_synonym ('c, 'a) handled = "'c MeshCtrlServer \<times> effect list \<times> (ipc_error + 'a)"

definition getOverrideConfiguration :: "WireGuardArgs \<Rightarrow> WgConfiguration" where
  "getOverrideConfiguration args =
     zeroConfiguration\<lparr>
       cfg_Role := (if wa_Role args \<noteq> [] then Some (wa_Role args) else None),
       cfg_Endpoint := (if wa_Endpoint args \<noteq> [] then Some (wa_Endpoint args) else None),
       cfg_KeepAliveWg := (if wa_KeepAliveWg args \<noteq> 0 then Some (wa_KeepAliveWg args) else None),
       cfg_AdvertiseRoutes := Some (wa_AdvertiseRoutes args),
       cfg_AdvertiseDefaultRoute := Some (wa_AdvertiseDefaultRoute args)\<rparr>"

text \<open>A panic of the manager or of the mesh provider is not caught by a handler; an error is replaced by the
  one that the handler reports.\<close>

fun is_panic :: "mm_error \<Rightarrow> bool" where
  "is_panic ManagerPanic = True"
| "is_panic (ProviderError err) = (err \<in> {NilMapWrite, NilDereference, SliceBounds})"
| "is_panic _ = False"

definition report :: "ipc_error \<Rightarrow> mm_error \<Rightarrow> ipc_error" where
  "report reported err = (if is_panic err then HandlerPanic else reported)"

definition CP_CreateMesh :: "(nat \<Rightarrow> env) \<Rightarrow> WireGuardArgs \<Rightarrow> 'c MeshCtrlServer \<Rightarrow> ('c, string) handled option" where
  "CP_CreateMesh E args n =
     (case MM_CreateMesh (E 0) (wa_WgPort args) (Some (getOverrideConfiguration args)) (cs_MeshManager n) of
        (m1, log1, Inl err) \<Rightarrow> Some (n\<lparr>cs_MeshManager := m1\<rparr>, log1, Inl (report CouldNotCreateMesh err))
      | (m1, log1, Inr meshId) \<Rightarrow>
          (case MM_AddSelf (E 1) meshId (wa_WgPort args) (wa_Endpoint args) m1 of
             None \<Rightarrow> None
           | Some (m2, log2, Inl err) \<Rightarrow>
               Some (n\<lparr>cs_MeshManager := m2\<rparr>, log1 @ log2, Inl (report (CouldNotCreateMeshBecause err) err))
           | Some (m2, log2, Inr _) \<Rightarrow> Some (n\<lparr>cs_MeshManager := m2\<rparr>, log1 @ log2, Inr meshId)))"

definition CP_ListMeshes :: "'c MeshCtrlServer \<Rightarrow> string list" where
  "CP_ListMeshes n = sort (map fst (GetMeshes (cs_MeshManager n)))"

text \<open>The answers of the network to \<open>JoinMesh\<close>: a connection, its client, and the bytes of the mesh with
  what decoding them gives.\<close>

record 'c join_env =
  je_dial :: "string \<Rightarrow> rpc_error + 'c"
  je_client :: "'c \<Rightarrow> rpc_error option"
  je_getMesh :: "'c \<Rightarrow> string \<Rightarrow> rpc_error + (MeshNode TwoPhaseMapSnapshot \<times> mm_error option)"

text \<open>The first half: fetch the mesh from the peer that was named.\<close>

definition fetch_mesh ::
  "'c join_env \<Rightarrow> JoinMeshArgs \<Rightarrow> 'c ConnectionManagerImpl
    \<Rightarrow> 'c ConnectionManagerImpl \<times> (rpc_error + (MeshNode TwoPhaseMapSnapshot \<times> mm_error option))" where
  "fetch_mesh J args conns =
     (case GetConnection (je_dial J) (ja_IpAddress args) conns of
        (conns1, Inl err) \<Rightarrow> (conns1, Inl err)
      | (conns1, Inr peerConnection) \<Rightarrow>
          (conns1, case je_client J peerConnection of
             Some err \<Rightarrow> Inl err
           | None \<Rightarrow> je_getMesh J peerConnection (ja_MeshId args)))"

definition CP_JoinMesh ::
  "(nat \<Rightarrow> env) \<Rightarrow> 'c join_env \<Rightarrow> JoinMeshArgs \<Rightarrow> 'c MeshCtrlServer \<Rightarrow> ('c, string) handled option" where
  "CP_JoinMesh E J args n =
     (let meshId = ja_MeshId args; wg = ja_WgArgs args; failed = CouldNotJoinMesh meshId in
      if MM_GetMesh meshId (cs_MeshManager n) \<noteq> None then Some (n, [], Inl AlreadyPartOfMesh)
      else case fetch_mesh J args (cs_ConnectionManager n) of
        (conns1, Inl _) \<Rightarrow> Some (n\<lparr>cs_ConnectionManager := conns1\<rparr>, [], Inl failed)
      | (conns1, Inr meshBytes) \<Rightarrow>
          let n1 = n\<lparr>cs_ConnectionManager := conns1\<rparr> in
          (case MM_AddMesh (E 0) meshId (wa_WgPort wg) meshBytes (Some (getOverrideConfiguration wg)) (cs_MeshManager n1) of
             (m1, log1, Inl err) \<Rightarrow> Some (n1\<lparr>cs_MeshManager := m1\<rparr>, log1, Inl (report failed err))
           | (m1, log1, Inr _) \<Rightarrow>
               (case MM_AddSelf (E 1) meshId (wa_WgPort wg) (wa_Endpoint wg) m1 of
                  None \<Rightarrow> None
                | Some (m2, log2, Inl err) \<Rightarrow> Some (n1\<lparr>cs_MeshManager := m2\<rparr>, log1 @ log2, Inl (report failed err))
                | Some (m2, log2, Inr _) \<Rightarrow>
                    Some (n1\<lparr>cs_MeshManager := m2\<rparr>, log1 @ log2, Inr (''Successfully Joined: '' @ meshId)))))"

definition CP_LeaveMesh :: "env \<Rightarrow> string \<Rightarrow> 'c MeshCtrlServer \<Rightarrow> ('c, string) handled" where
  "CP_LeaveMesh E meshId n =
     (case LeaveMesh E meshId (cs_MeshManager n) of
        (m1, lg, Inl err) \<Rightarrow> (n\<lparr>cs_MeshManager := m1\<rparr>, lg, Inl (report (ManagerError err) err))
      | (m1, lg, Inr _) \<Rightarrow> (n\<lparr>cs_MeshManager := m1\<rparr>, lg, Inr (''Left Mesh '' @ meshId)))"

definition CP_GetMesh ::
  "wg_keys \<Rightarrow> (string \<Rightarrow> StatsPeer list option) \<Rightarrow> string \<Rightarrow> 'c MeshCtrlServer \<Rightarrow> ipc_error + CtrlNode list" where
  "CP_GetMesh W readDevice meshId n =
     (case MM_GetMesh meshId (cs_MeshManager n) of
        None \<Rightarrow> Inl (NoMesh meshId)
      | Some theMesh \<Rightarrow>
          Inr (map (NewCtrlNode W readDevice theMesh) (MapValues (GetNodes (DS_GetMesh theMesh)))))"

definition CP_Query ::
  "wg_keys \<Rightarrow> (string \<Rightarrow> QueryNode list \<Rightarrow> rpc_error + 'j) \<Rightarrow> ('j \<Rightarrow> rpc_error + string) \<Rightarrow> string \<Rightarrow> string
    \<Rightarrow> 'c MeshCtrlServer \<Rightarrow> ipc_error + string" where
  "CP_Query W search marshal meshId query n =
     (case JmesQuery W search marshal meshId query (cs_MeshManager n) of
        Inl err \<Rightarrow> Inl (QueryFailed err) | Inr queryResponse \<Rightarrow> Inr queryResponse)"

text \<open>The four setters: the new manager or its error, turned into the reply of the handler.\<close>

definition reply_with ::
  "(mm_error \<Rightarrow> ipc_error) \<Rightarrow> string \<Rightarrow> mm_error + MeshManagerImpl \<Rightarrow> 'c MeshCtrlServer \<Rightarrow> ('c, string) handled" where
  "reply_with failed reply r n =
     (case r of Inl err \<Rightarrow> (n, [], Inl (report (failed err) err))
      | Inr m1 \<Rightarrow> (n\<lparr>cs_MeshManager := m1\<rparr>, [], Inr reply))"

definition CP_PutDescription :: "u64 \<Rightarrow> string \<Rightarrow> string \<Rightarrow> 'c MeshCtrlServer \<Rightarrow> ('c, string) handled" where
  "CP_PutDescription now meshId description n =
     reply_with ManagerError (''set description to '' @ description @ '' for '' @ meshId)
       (MM_SetDescription now meshId description (cs_MeshManager n)) n"

definition CP_PutAlias :: "u64 \<Rightarrow> string \<Rightarrow> string \<Rightarrow> 'c MeshCtrlServer \<Rightarrow> ('c, string) handled" where
  "CP_PutAlias now meshId alias n =
     (if alias = [] then (n, [], Inl AliasNotProvided)
      else reply_with (\<lambda>_. CouldNotSetAlias alias) (''Set alias to '' @ alias)
        (MM_SetAlias now meshId alias (cs_MeshManager n)) n)"

definition CP_PutService :: "u64 \<Rightarrow> string \<Rightarrow> string \<Rightarrow> string \<Rightarrow> 'c MeshCtrlServer \<Rightarrow> ('c, string) handled" where
  "CP_PutService now meshId service value n =
     reply_with ManagerError (''Set service '' @ service @ '' in '' @ meshId @ '' to '' @ value)
       (MM_SetService now meshId service value (cs_MeshManager n)) n"

definition CP_DeleteService :: "u64 \<Rightarrow> string \<Rightarrow> string \<Rightarrow> 'c MeshCtrlServer \<Rightarrow> ('c, string) handled" where
  "CP_DeleteService now meshId service n =
     reply_with ManagerError (''Removed service '' @ service @ '' from '' @ meshId)
       (MM_RemoveService now meshId service (cs_MeshManager n)) n"

section \<open>Requests of other nodes\<close>

definition Rpc_GetMesh :: "string \<Rightarrow> 'c MeshCtrlServer \<Rightarrow> string + MeshNode TwoPhaseMapSnapshot" where
  "Rpc_GetMesh meshId n =
     (case MM_GetMesh meshId (cs_MeshManager n) of
        None \<Rightarrow> Inl ''mesh does not exist''
      | Some mesh \<Rightarrow> Inr (DS_Save mesh))"

text \<open>The same call as the client of a reachable node sees it; gRPC gives a plain error the code \<open>Unknown\<close>,
  and the bytes decode to what was encoded.\<close>

definition peer_answer ::
  "'c MeshCtrlServer \<Rightarrow> string \<Rightarrow> rpc_error + (MeshNode TwoPhaseMapSnapshot \<times> mm_error option)" where
  "peer_answer remote meshId =
     (case Rpc_GetMesh meshId remote of Inl _ \<Rightarrow> Inl (Status Unknown) | Inr snapshot \<Rightarrow> Inr (snapshot, None))"

section \<open>Joining and creating\<close>

lemma address_taken_not_nil: "address_taken [] nodes \<noteq> Some True"
  by (induction nodes) (auto simp: ip_equal_def dest: GetWgHost_not_nil split: option.splits)

lemma detection_ends: "detect_duplicates E key meshId nodes (Suc fuel) c \<noteq> None"
  using address_taken_not_nil [of nodes] by (auto split: option.splits bool.splits)

lemma MM_AddSelf_returns: "MM_AddSelf E meshId port endpoint m \<noteq> None"
proof -
  have "detect_duplicates E (mm_KeyBytes m) meshId nodes 256 0 \<noteq> None" for nodes
    using detection_ends [of E "mm_KeyBytes m" meshId nodes 255 0] by (simp del: detect_duplicates.simps)
  then show ?thesis by (auto simp: MM_AddSelf_def Let_def simp del: not_None_eq split: option.splits sum.splits)
qed

lemma Factory_Build_key: "Factory_Build config p out params = Inr node \<Longrightarrow> PublicKey node = np_PublicKey params"
  by (auto simp: Factory_Build_def Let_def split: sum.splits option.splits)

text \<open>The node that \<open>AddNode\<close> files.\<close>

abbreviation added :: "u64 \<Rightarrow> MeshNode \<Rightarrow> MeshNode" where
  "added now node \<equiv> node\<lparr>Routes := Some [], Services := Some [], Timestamp := sint now\<rparr>"

lemma MM_AddSelf_error: "MM_AddSelf E meshId port endpoint m = Some (m', lg, Inl err) \<Longrightarrow> m' = m"
  by (auto simp: MM_AddSelf_def Let_def split: option.splits sum.splits if_splits)

lemma MM_AddSelf_ok:
  assumes "MM_AddSelf E meshId port endpoint m = Some (m', lg, Inr u)"
  obtains mesh node where "MM_GetMesh meshId m = Some mesh" "PublicKey node = mm_PublicKey m"
    "m' = set_mesh meshId (ds_put (env_now E) (mm_PublicKey m) (added (env_now E) node) mesh) m"
  using assms
  by (auto simp: MM_AddSelf_def Let_def DS_AddNode_def dest!: Factory_Build_key
    split: option.splits sum.splits if_splits)

lemma MM_AddMesh_error: "MM_AddMesh E meshId port bytes ovr m = (m', lg, Inl err) \<Longrightarrow> m' = m"
  by (auto simp: MM_AddMesh_def Let_def split: option.splits sum.splits if_splits prod.splits)

lemma MM_AddMesh_ok:
  assumes "MM_AddMesh E meshId port bytes ovr m = (m', lg, Inr u)"
  obtains ifName cfg where "m' = set_mesh meshId (fst (DS_Load (env_now E) bytes
    (Factory_CreateMesh (mm_conf m) (provider_params ifName meshId cfg m)))) m" "snd bytes = None"
  using assms
  by (auto simp: MM_AddMesh_def Let_def DS_Load_def split: option.splits sum.splits if_splits prod.splits)

text \<open>All vectors of a snapshot leave room for \<open>n\<close> more increments.\<close>

definition snap_room :: "nat \<Rightarrow> 'd TwoPhaseMapSnapshot \<Rightarrow> bool" where
  "snap_room n s \<longleftrightarrow> (\<forall>(k, b) \<in> set (Add s). unat (Vector b) + n < 2 ^ 64)
     \<and> (\<forall>(k, b) \<in> set (Remove s). unat (Vector b) + n < 2 ^ 64)"

lemma loaded_ready:
  fixes s :: "'d TwoPhaseMapSnapshot" and p :: 'k
  assumes "snap_wf s" and "snap_room 2 s"
  shows "tp_ready 1 (TP_Merge now s (NewTwoPhaseMap p h st))"
proof -
  let ?m = "NewTwoPhaseMap p h st :: ('k, 'd) TwoPhaseMap" and ?c = "2 ^ 64 - 3 :: u64"
  have "v \<le> ?c" if "unat v + 2 < 2 ^ 64" for v :: u64
    using that by (simp add: word_le_nat_alt)
  then have b: "\<forall>(k, b) \<in> set (Add s). Vector b \<le> ?c" "\<forall>(k, b) \<in> set (Remove s). Vector b \<le> ?c"
    using assms(2) by (auto simp: snap_room_def)
  have wf: "vc_wf (tp_Clock ?m)" by (simp add: NewTwoPhaseMap_def)
  have 0: "maxClock (vc_vectors (tp_Clock ?m)) \<le> ?c"
    by (simp add: NewTwoPhaseMap_def NewVectorClock_def maxClock_le_iff)
  have "tp_max (TP_Merge now s ?m) \<le> ?c"
    using clock_merge_upper [OF _ clock_merge_upper [OF wf 0 b(1)] b(2)] wf by (simp add: TP_Merge_fields)
  then have "tp_room 2 (TP_Merge now s ?m)" by (simp add: tp_room_def word_le_nat_alt)
  moreover have "vc_highestStale (tp_Clock (TP_Merge now s ?m)) = 0"
    by (simp add: TP_Merge_fields NewTwoPhaseMap_def NewVectorClock_def)
  ultimately show ?thesis using TP_Merge_inv [OF New_inv assms(1), of now p h st] by (simp add: tp_ready_def)
qed

text \<open>What a run of \<open>JoinMesh\<close> that reaches the peer did, by how far it came.\<close>

lemma CP_JoinMesh_ok:
  assumes "CP_JoinMesh E J args n = Some (n', lg, Inr reply)"
  obtains conns bytes m1 log1 log2 where "MM_GetMesh (ja_MeshId args) (cs_MeshManager n) = None"
    "fetch_mesh J args (cs_ConnectionManager n) = (conns, Inr bytes)"
    "MM_AddMesh (E 0) (ja_MeshId args) (wa_WgPort (ja_WgArgs args)) bytes
       (Some (getOverrideConfiguration (ja_WgArgs args))) (cs_MeshManager n) = (m1, log1, Inr ())"
    "MM_AddSelf (E 1) (ja_MeshId args) (wa_WgPort (ja_WgArgs args)) (wa_Endpoint (ja_WgArgs args)) m1
       = Some (cs_MeshManager n', log2, Inr ())"
    "cs_ConnectionManager n' = conns" "reply = ''Successfully Joined: '' @ ja_MeshId args"
  using assms
  by (auto simp: CP_JoinMesh_def Let_def split: if_splits option.splits sum.splits prod.splits)

lemma CP_JoinMesh_error:
  assumes "CP_JoinMesh E J args n = Some (n', lg, Inl err)"
  shows "cs_MeshManager n' = cs_MeshManager n
    \<or> MM_GetMesh (ja_MeshId args) (cs_MeshManager n) = None \<and> MM_GetMesh (ja_MeshId args) (cs_MeshManager n') \<noteq> None
      \<and> (err = CouldNotJoinMesh (ja_MeshId args) \<or> err = HandlerPanic)"
proof -
  have "\<exists>mesh. MM_GetMesh meshId m1 = Some mesh"
    if "MM_AddMesh e meshId port bytes ovr m = (m1, l, Inr u)" for e meshId port bytes ovr m m1 l u
    using MM_AddMesh_ok [OF that] by (metis MM_GetMesh_def create_frame)
  then show ?thesis
    using assms
    by (auto simp: CP_JoinMesh_def Let_def report_def
      dest: MM_AddMesh_error dest!: MM_AddSelf_error split: if_splits option.splits sum.splits prod.splits)
qed

lemma loaded_copy:
  assumes "tp_wf (store r)" and "tp_hash (store r) = fnv64a" and "snap_of_run hist (DS_Save r)"
    and "snap_room 2 (DS_Save r)" and "mesh = fst (DS_Load now (DS_Save r, None :: 'e option) (Factory_CreateMesh cfg params))"
  shows "ds_ready (Suc 0) mesh \<and> tp_hash (store mesh) = fnv64a \<and> MeshId mesh = pp_MeshId params
    \<and> DS_GetNode k mesh = DS_GetNode k r"
proof -
  have m: "store mesh = TP_Merge now (TP_Snapshot (store r))
      (NewTwoPhaseMap (pp_NodeID params) fnv64a (word_of_int (3 * dc_Heartbeat cfg)))"
    "MeshId mesh = pp_MeshId params"
    by (simp_all add: assms(5) DS_Load_def DS_Save_def Factory_CreateMesh_def)
  have "same_views (store mesh) (store r)" using assms(1,3) by (simp add: m DS_Save_def loaded_views)
  moreover have h: "tp_hash (store mesh) = fnv64a"
    by (simp add: m TP_Merge_fields NewTwoPhaseMap_def NewVectorClock_def)
  ultimately have "DS_GetNode k mesh = DS_GetNode k r"
    using assms(2) by (simp add: DS_GetNode_def TP_Contains_def TP_Get_eq same_views_contains same_views_get)
  moreover have "ds_ready (Suc 0) mesh"
    using loaded_ready [of "TP_Snapshot (store r)"] assms(3,4) by (simp add: m DS_Save_def snap_of_run_def)
  ultimately show ?thesis using h m(2) by blast
qed

lemma CP_JoinMesh_frame:
  assumes "CP_JoinMesh E J args n = Some (n', lg, Inr reply)"
  shows "reply = ''Successfully Joined: '' @ ja_MeshId args
    \<and> (j \<noteq> ja_MeshId args \<longrightarrow> MM_GetMesh j (cs_MeshManager n') = MM_GetMesh j (cs_MeshManager n))"
proof -
  have add: "MM_GetMesh j m' = MM_GetMesh j m"
    if "MM_AddMesh e meshId port bytes ovr m = (m', l, Inr u)" "j \<noteq> meshId" for e meshId port bytes ovr m m' l u
    using MM_AddMesh_ok [OF that(1)] that(2) by (metis MM_GetMesh_def create_frame)
  have self: "MM_GetMesh j m' = MM_GetMesh j m"
    if "MM_AddSelf e meshId port endpoint m = Some (m', l, Inr u)" "j \<noteq> meshId" for e meshId port endpoint m m' l u
    using MM_AddSelf_ok [OF that(1)] that(2) by (metis MM_GetMesh_def create_frame)
  from assms show ?thesis by (rule CP_JoinMesh_ok) (use add self in metis)
qed

text \<open>C12: joining a mesh through a node that is part of it. When the request succeeds, the node was not
  part of the mesh before; afterwards it holds a copy of the mesh of the peer with the same nodes and
  data, to which only its own node is added, without routes and services; its other meshes are
  unchanged and the connection to the peer is kept for gossip.\<close>

theorem join_copies_the_mesh_of_the_peer:
  assumes "CP_JoinMesh E J args n = Some (n', lg, Inr reply)"
    and "snd (GetConnection (je_dial J) (ja_IpAddress args) (cs_ConnectionManager n)) = Inr c"
    and "je_getMesh J c = peer_answer remote"
    and "MM_GetMesh (ja_MeshId args) (cs_MeshManager remote) = Some r"
    and "tp_wf (store r)" and "tp_hash (store r) = fnv64a"
    and "snap_of_run hist (DS_Save r)" and "snap_room 2 (DS_Save r)"
  shows "MM_GetMesh (ja_MeshId args) (cs_MeshManager n) = None
    \<and> (\<exists>mesh self. MM_GetMesh (ja_MeshId args) (cs_MeshManager n') = Some mesh
        \<and> MeshId mesh = ja_MeshId args
        \<and> DS_GetNode (mm_PublicKey (cs_MeshManager n)) mesh = Inr self
        \<and> PublicKey self = mm_PublicKey (cs_MeshManager n) \<and> Routes self = Some [] \<and> Services self = Some []
        \<and> (\<forall>k. fnv64a k \<noteq> fnv64a (mm_PublicKey (cs_MeshManager n)) \<longrightarrow> DS_GetNode k mesh = DS_GetNode k r))
    \<and> (\<forall>j. j \<noteq> ja_MeshId args \<longrightarrow> MM_GetMesh j (cs_MeshManager n') = MM_GetMesh j (cs_MeshManager n))
    \<and> HasConnection (ja_IpAddress args) (cs_ConnectionManager n')"
proof -
  let ?id = "ja_MeshId args" and ?m = "cs_MeshManager n" and ?key = "mm_PublicKey (cs_MeshManager n)"
  from assms(1) obtain conns bytes m1 log1 log2 where
    new: "MM_GetMesh ?id ?m = None" and fetch: "fetch_mesh J args (cs_ConnectionManager n) = (conns, Inr bytes)"
    and add: "MM_AddMesh (E 0) ?id (wa_WgPort (ja_WgArgs args)) bytes
       (Some (getOverrideConfiguration (ja_WgArgs args))) ?m = (m1, log1, Inr ())"
    and self: "MM_AddSelf (E 1) ?id (wa_WgPort (ja_WgArgs args)) (wa_Endpoint (ja_WgArgs args)) m1
       = Some (cs_MeshManager n', log2, Inr ())"
    and conns: "cs_ConnectionManager n' = conns"
    by (rule CP_JoinMesh_ok)
  have bytes: "bytes = (TP_Snapshot (store r), None)" and has: "HasConnection (ja_IpAddress args) conns"
    using fetch assms(2,3,4)
    by (auto simp: fetch_mesh_def peer_answer_def Rpc_GetMesh_def DS_Save_def HasConnection_def GetConnection_def
      AddConnection_def split: option.splits sum.splits prod.splits)
  obtain ifName cfg where m1: "m1 = set_mesh ?id (fst (DS_Load (env_now (E 0)) bytes
    (Factory_CreateMesh (mm_conf ?m) (provider_params ifName ?id cfg ?m)))) ?m"
    by (rule MM_AddMesh_ok [OF add])
  define mesh1 where "mesh1 = fst (DS_Load (env_now (E 0)) bytes
    (Factory_CreateMesh (mm_conf ?m) (provider_params ifName ?id cfg ?m)))"
  from self obtain mesh node where "MM_GetMesh ?id m1 = Some mesh" and key: "PublicKey node = mm_PublicKey m1"
    and n': "cs_MeshManager n' = set_mesh ?id
      (ds_put (env_now (E 1)) (mm_PublicKey m1) (added (env_now (E 1)) node) mesh) m1"
    by (rule MM_AddSelf_ok)
  then have "mesh = mesh1" and key1: "mm_PublicKey m1 = ?key"
    by (simp_all add: m1 mesh1_def MM_GetMesh_def create_frame)
  moreover have "mesh1 = fst (DS_Load (env_now (E 0)) (DS_Save r, None :: mm_error option)
      (Factory_CreateMesh (mm_conf ?m) (provider_params ifName ?id cfg ?m)))"
    by (simp add: mesh1_def bytes DS_Save_def)
  ultimately have "mesh = fst (DS_Load (env_now (E 0)) (DS_Save r, None :: mm_error option)
      (Factory_CreateMesh (mm_conf ?m) (provider_params ifName ?id cfg ?m)))" by simp
  note copy = loaded_copy [OF assms(5-8) this]
  have ready: "ds_ready (Suc 0) mesh" and hash: "tp_hash (store mesh) = fnv64a" and id: "MeshId mesh = ?id"
    and same: "DS_GetNode k mesh = DS_GetNode k r" for k
    using copy [of k] by (simp_all add: provider_params_def)
  have put: "DS_GetNode k (ds_put now ?key x mesh) = (if fnv64a k = fnv64a ?key then Inr x else DS_GetNode k r)" for k now x
    using same [of k] by (simp add: DS_GetNode_def ds_put_get [OF ready] hash split: if_splits)
  define mesh2 where "mesh2 = ds_put (env_now (E 1)) ?key (added (env_now (E 1)) node) mesh"
  have "MM_GetMesh j (cs_MeshManager n') = (if j = ?id then Some mesh2 else MM_GetMesh j ?m)" for j
    by (simp add: n' MM_GetMesh_def create_frame mesh2_def key1) (simp add: m1 create_frame)
  moreover have "MeshId mesh2 = ?id" by (simp add: mesh2_def ds_put_def id)
  ultimately show ?thesis
    using new has conns put key key1 by (simp add: mesh2_def)
qed

subsection \<open>An example\<close>

definition demo_remote :: TwoPhaseStoreMeshManager where
  "demo_remote = ds_put 5 ''k1'' (demo_node\<lparr>WgHost := ''::7/128''\<rparr>) demo_empty"

definition demo_server :: "string \<Rightarrow> nat MeshCtrlServer" where
  "demo_server key = \<lparr>cs_MeshManager = NewMeshManager key (replicate 32 5) demo_daemon False False,
     cs_ConnectionManager = \<lparr>clientConnections = []\<rparr>, cs_Conf = demo_daemon\<rparr>"

definition demo_join :: JoinMeshArgs where
  "demo_join = \<lparr>ja_MeshId = ''mesh'', ja_IpAddress = ''peer'', ja_WgArgs =
     \<lparr>wa_WgPort = 0, wa_KeepAliveWg = 0, wa_AdvertiseRoutes = False, wa_AdvertiseDefaultRoute = False,
      wa_Endpoint = ''host'', wa_Role = ''peer''\<rparr>\<rparr>"

lemma demo_remote_store:
  "map_of (tp_addMap (store demo_remote)) =
     [fnv64a ''k1'' \<mapsto> \<lparr>Vector = 1, Contents = demo_node\<lparr>WgHost := ''::7/128''\<rparr>, Gravestone = False\<rparr>]"
  "tp_removeMap (store demo_remote) = []" "tp_wf (store demo_remote)" "tp_hash (store demo_remote) = fnv64a"
proof -
  have r: "tp_ready (Suc 0) (store demo_empty)" using demo_empty_ready [of "Suc 0"] by simp
  have e: "tp_addMap (store demo_empty) = []" "tp_removeMap (store demo_empty) = []"
    "tp_hash (store demo_empty) = fnv64a" "tp_max (store demo_empty) = 0" "tp_wf (store demo_empty)"
    by (simp_all add: demo_empty_def Factory_CreateMesh_def NewTwoPhaseMap_def NewGMap_def NewVectorClock_def
      tp_wf_def vc_wf_def maxClock_def)
  show "map_of (tp_addMap (store demo_remote)) =
     [fnv64a ''k1'' \<mapsto> \<lparr>Vector = 1, Contents = demo_node\<lparr>WgHost := ''::7/128''\<rparr>, Gravestone = False\<rparr>]"
    "tp_removeMap (store demo_remote) = []" "tp_wf (store demo_remote)" "tp_hash (store demo_remote) = fnv64a"
    by (simp_all add: demo_remote_def ds_put_def ready_Put_fields [OF r r] e TP_Put_wf)
qed

lemma demo_remote_snapshot:
  "snap_of_run (\<lambda>_ _. demo_node\<lparr>WgHost := ''::7/128''\<rparr>) (DS_Save demo_remote)" "snap_room 2 (DS_Save demo_remote)"
proof -
  have wf: "gm_wf (tp_addMap (store demo_remote))" using demo_remote_store(3) by (simp add: tp_wf_def)
  then have "gm_wf (GM_Save (tp_addMap (store demo_remote)))" by simp
  then have "(k, b) \<in> set (GM_Save (tp_addMap (store demo_remote))) \<Longrightarrow> Vector b = 1" for k b
    using demo_remote_store(1) wf by (auto simp: gm_entry split: if_splits)
  then show "snap_room 2 (DS_Save demo_remote)"
    using demo_remote_store(2) by (auto simp: snap_room_def DS_Save_def TP_Snapshot_def GM_Save_def gm_build_def)
  show "snap_of_run (\<lambda>_ _. demo_node\<lparr>WgHost := ''::7/128''\<rparr>) (DS_Save demo_remote)"
    using wf demo_remote_store(1,2)
    by (auto simp: snap_of_run_def snap_wf_def DS_Save_def TP_Snapshot_def lww_states_def view_def bucket_view_def
      split: if_splits)
qed

definition demo_peer :: "nat join_env" where
  "demo_peer = \<lparr>je_dial = (\<lambda>_. Inr 1), je_client = (\<lambda>_. None),
     je_getMesh = (\<lambda>_. peer_answer ((demo_server ''k1'')\<lparr>cs_MeshManager :=
       set_mesh ''mesh'' demo_remote (cs_MeshManager (demo_server ''k1''))\<rparr>))\<rparr>"

lemma snd_gm_put: "snd ` set (gm_put k v m) \<subseteq> insert v (snd ` set m)"
  by (induction m) auto

lemma snd_put_loop: "snd ` set (fold (\<lambda>x. gm_put (f x) (g x)) xs acc) \<subseteq> g ` set xs \<union> snd ` set acc"
proof (induction xs arbitrary: acc)
  case (Cons x xs)
  from Cons [of "gm_put (f x) (g x) acc"] snd_gm_put [of "f x" "g x" acc] show ?case
    unfolding fold_Cons comp_def list.set image_insert by blast
qed simp

lemma nodes_of_mesh:
  "set (mesh_nodes mesh) \<subseteq> (\<lambda>n. n\<lparr>Tombstone := False\<rparr>) ` set (TP_AsList zeroNode (store mesh))"
  using snd_put_loop [of fst "\<lambda>p. (snd p)\<lparr>Tombstone := False\<rparr>" "DS_GetMesh mesh" "[]"]
    snd_put_loop [of PublicKey "\<lambda>n. n" "TP_AsList zeroNode (store mesh)" "[]"]
  by (auto simp: mesh_nodes_def MapValues_eq GetNodes_def gm_build_def DS_GetMesh_def case_prod_unfold)

lemma demo_loaded_host:
  assumes "node \<in> set (mesh_nodes (fst (DS_Load now (DS_Save demo_remote, None :: mm_error option) (Factory_CreateMesh cfg params))))"
  shows "GetWgHost node \<noteq> None"
proof -
  let ?m = "fst (DS_Load now (DS_Save demo_remote, None :: mm_error option) (Factory_CreateMesh cfg params))"
  have "same_views (store ?m) (store demo_remote)"
    using demo_remote_store(3) demo_remote_snapshot(1)
    by (simp add: DS_Load_def DS_Save_def Factory_CreateMesh_def loaded_views)
  then have "TP_get zeroNode key (store ?m) = demo_node\<lparr>WgHost := ''::7/128''\<rparr>"
    if "TP_contains zeroNode key (store ?m)" for key
    using that same_views_contains [of "store ?m" "store demo_remote" zeroNode key]
      same_views_get [of "store ?m" "store demo_remote" zeroNode key] demo_remote_store(1)
    by (simp add: TP_contains_iff [of _ _ "store demo_remote"] TP_get_eq [of _ _ "store demo_remote"] split: if_splits)
  moreover have "ParseAddr ''::7'' = Some (replicate 15 0 @ [7])" by code_simp
  with ParseCIDR_host [of "''::7''"] have "ParseCIDR ''::7/128'' \<noteq> None" by auto
  ultimately show ?thesis
    using assms nodes_of_mesh [of ?m] by (auto simp: set_TP_AsList GetWgHost_def)
qed

lemma demo_conf:
  "\<exists>cfg. getConf E (Some (getOverrideConfiguration (ja_WgArgs demo_join))) (cs_MeshManager (demo_server key)) = Inr cfg
    \<and> cfg_Role cfg = Some ''peer'' \<and> commands (cfg_PreUp cfg) = [] \<and> commands (cfg_PostUp cfg) = []"
  if "env_valid E = (\<lambda>_. True)"
  using that
  by (simp add: getConf_def MergeMeshConfiguration_def ValidateMeshConfiguration_def demo_server_def Let_def
    NewMeshManager_def demo_daemon_def demo_join_def getOverrideConfiguration_def zeroConfiguration_def
    merge_step_def override_def commands_def non_nil_def)

lemma demo_server_simps [simp]:
  "mm_conf (cs_MeshManager (demo_server key)) = demo_daemon" "mm_hasCmdRunner (cs_MeshManager (demo_server key))"
  "mm_PublicKey (cs_MeshManager (demo_server key)) = key" "mm_meshes (cs_MeshManager (demo_server key)) = []"
  "dc_StubWg demo_daemon" "cs_ConnectionManager (demo_server key) = \<lparr>clientConnections = []\<rparr>"
  by (simp_all add: demo_server_def NewMeshManager_def demo_daemon_def)

text \<open>The part of the example before the node adds itself.\<close>

lemma demo_added:
  obtains mesh cfg where "MM_AddMesh demo_env ''mesh'' 0 (DS_Save demo_remote, None)
      (Some (getOverrideConfiguration (ja_WgArgs demo_join))) (cs_MeshManager (demo_server ''k2''))
      = (set_mesh ''mesh'' mesh (cs_MeshManager (demo_server ''k2'')), [], Inr ())"
    "\<forall>node \<in> set (mesh_nodes mesh). GetWgHost node \<noteq> None" "MConf mesh = cfg" "cfg_Role cfg = Some ''peer''"
proof -
  let ?m = "cs_MeshManager (demo_server ''k2'')"
  have E: "env_valid demo_env = (\<lambda>_. True)" "env_now demo_env = 7" by (simp_all add: demo_env_def)
  obtain cfg where cfg: "getConf demo_env (Some (getOverrideConfiguration (ja_WgArgs demo_join))) ?m = Inr cfg"
    "cfg_Role cfg = Some ''peer''" "commands (cfg_PreUp cfg) = []" "commands (cfg_PostUp cfg) = []"
    using demo_conf [OF E(1)] by blast
  let ?mesh = "fst (DS_Load 7 (DS_Save demo_remote, None :: mm_error option)
    (Factory_CreateMesh demo_daemon (provider_params [] ''mesh'' cfg ?m)))"
  show thesis
  proof (rule that)
    show "MM_AddMesh demo_env ''mesh'' 0 (DS_Save demo_remote, None)
      (Some (getOverrideConfiguration (ja_WgArgs demo_join))) ?m = (set_mesh ''mesh'' ?mesh ?m, [], Inr ())"
      by (simp add: MM_AddMesh_def cfg run_hook_def create_interface_def E DS_Load_def Let_def)
    show "\<forall>node \<in> set (mesh_nodes ?mesh). GetWgHost node \<noteq> None" using demo_loaded_host by blast
    show "MConf ?mesh = cfg" by (simp add: DS_Load_def Factory_CreateMesh_def provider_params_def)
  qed (rule cfg)
qed

lemma demo_fetch: "fetch_mesh demo_peer demo_join \<lparr>clientConnections = []\<rparr>
    = (\<lparr>clientConnections = [(''peer'', 1)]\<rparr>, Inr (DS_Save demo_remote, None))"
  by (simp add: MM_GetMesh_def fetch_mesh_def demo_peer_def peer_answer_def Rpc_GetMesh_def create_frame
    GetConnection_def AddConnection_def demo_join_def)

lemma demo_join_runs:
  "\<exists>n' lg. CP_JoinMesh (\<lambda>_. demo_env) demo_peer demo_join (demo_server ''k2'')
     = Some (n', lg, Inr ''Successfully Joined: mesh'')"
proof -
  let ?m = "cs_MeshManager (demo_server ''k2'')"
  obtain mesh cfg where add: "MM_AddMesh demo_env ''mesh'' 0 (DS_Save demo_remote, None)
      (Some (getOverrideConfiguration (ja_WgArgs demo_join))) ?m = (set_mesh ''mesh'' mesh ?m, [], Inr ())"
    and hosts: "\<forall>node \<in> set (mesh_nodes mesh). GetWgHost node \<noteq> None"
    and cfg: "MConf mesh = cfg" "cfg_Role cfg = Some ''peer''" by (rule demo_added)
  have "env_random demo_env 255 = Some (replicate 16 3)" by (simp add: demo_env_def)
  from detection_first_round [OF hosts this] obtain a where
    "detect_duplicates demo_env (mm_KeyBytes ?m) ''mesh'' (mesh_nodes mesh) 256 0 = Some (Inr a)" by blast
  then have "\<exists>m' lg. MM_AddSelf demo_env ''mesh'' 0 ''host'' (set_mesh ''mesh'' mesh ?m) = Some (m', lg, Inr ())"
    by (simp add: MM_AddSelf_def MM_GetMesh_def create_frame Let_def Factory_Build_def getAddress_def cfg DS_AddNode_def)
  then show ?thesis
    using add by (auto simp: CP_JoinMesh_def Let_def MM_GetMesh_def demo_fetch) (auto simp: demo_join_def)
qed

theorem join_copies_the_mesh_of_the_peer_witness:
  "\<exists>n' lg mesh. CP_JoinMesh (\<lambda>_. demo_env) demo_peer demo_join (demo_server ''k2'')
      = Some (n', lg, Inr ''Successfully Joined: mesh'')
    \<and> MM_GetMesh ''mesh'' (cs_MeshManager n') = Some mesh
    \<and> DS_GetNode ''k1'' mesh = Inr (demo_node\<lparr>WgHost := ''::7/128''\<rparr>)"
proof -
  obtain n' lg where run: "CP_JoinMesh (\<lambda>_. demo_env) demo_peer demo_join (demo_server ''k2'')
     = Some (n', lg, Inr ''Successfully Joined: mesh'')" using demo_join_runs by blast
  have "fnv64a ''k1'' \<noteq> fnv64a ''k2''" by code_simp
  moreover have "DS_GetNode ''k1'' demo_remote = Inr (demo_node\<lparr>WgHost := ''::7/128''\<rparr>)"
    using demo_remote_store
    by (simp add: DS_GetNode_def TP_Contains_def TP_contains_iff TP_Get_eq TP_get_eq vector_at_def)
  moreover have id: "ja_MeshId demo_join = ''mesh''" by (simp add: demo_join_def)
  ultimately show ?thesis
    using run join_copies_the_mesh_of_the_peer [OF run _ _ _ demo_remote_store(3,4) demo_remote_snapshot, of 1
      "(demo_server ''k1'')\<lparr>cs_MeshManager := set_mesh ''mesh'' demo_remote (cs_MeshManager (demo_server ''k1''))\<rparr>"]
    by (auto simp: demo_peer_def GetConnection_def AddConnection_def MM_GetMesh_def create_frame)
qed

section \<open>Failures\<close>

text \<open>C30: a request to join that fails with an error either leaves the meshes of the node as they were, or
  (the own node could not be added after the mesh was) leaves a mesh behind that the node did not
  have before, and from then on every request to join that mesh is refused because the node is
  already part of it.\<close>

theorem failed_join_may_leave_the_mesh:
  assumes "CP_JoinMesh E J args n = Some (n', lg, Inl err)" and "err \<noteq> HandlerPanic"
  shows "mm_meshes (cs_MeshManager n') = mm_meshes (cs_MeshManager n)
    \<or> MM_GetMesh (ja_MeshId args) (cs_MeshManager n) = None
      \<and> (\<forall>E' J' args'. ja_MeshId args' = ja_MeshId args
          \<longrightarrow> CP_JoinMesh E' J' args' n' = Some (n', [], Inl AlreadyPartOfMesh))"
  using CP_JoinMesh_error [OF assms(1)] assms(2) by (auto simp: CP_JoinMesh_def)

lemma demo_join_fails:
  "\<exists>n' lg. CP_JoinMesh (\<lambda>i. if i = 0 then demo_env else demo_env\<lparr>env_random := \<lambda>_. None\<rparr>) demo_peer demo_join
     (demo_server ''k2'') = Some (n', lg, Inl (CouldNotJoinMesh ''mesh''))
     \<and> mm_meshes (cs_MeshManager n') \<noteq> []"
proof -
  let ?m = "cs_MeshManager (demo_server ''k2'')" and ?E = "demo_env\<lparr>env_random := \<lambda>_. None\<rparr>"
  obtain mesh cfg where add: "MM_AddMesh demo_env ''mesh'' 0 (DS_Save demo_remote, None)
      (Some (getOverrideConfiguration (ja_WgArgs demo_join))) ?m = (set_mesh ''mesh'' mesh ?m, [], Inr ())"
    by (rule demo_added)
  have "detect_duplicates ?E key meshId nodes (Suc 255) c = Some (Inl RandomError)" for key meshId nodes c
    by (simp add: ULA_GetIP_def NewCga_def del: Suc_numeral)
  then have "MM_AddSelf ?E ''mesh'' 0 ''host'' (set_mesh ''mesh'' mesh ?m) = Some (set_mesh ''mesh'' mesh ?m, [], Inl RandomError)"
    by (simp add: MM_AddSelf_def MM_GetMesh_def create_frame Let_def)
  then show ?thesis
    using add by (auto simp: CP_JoinMesh_def Let_def MM_GetMesh_def demo_fetch) (auto simp: demo_join_def report_def set_mesh_def)
qed

theorem failed_join_may_leave_the_mesh_witness:
  "\<exists>n' lg. CP_JoinMesh (\<lambda>i. if i = 0 then demo_env else demo_env\<lparr>env_random := \<lambda>_. None\<rparr>) demo_peer demo_join
     (demo_server ''k2'') = Some (n', lg, Inl (CouldNotJoinMesh ''mesh''))
     \<and> CP_JoinMesh (\<lambda>_. demo_env) demo_peer demo_join n' = Some (n', [], Inl AlreadyPartOfMesh)"
proof -
  obtain n' lg where run: "CP_JoinMesh (\<lambda>i. if i = 0 then demo_env else demo_env\<lparr>env_random := \<lambda>_. None\<rparr>) demo_peer
     demo_join (demo_server ''k2'') = Some (n', lg, Inl (CouldNotJoinMesh ''mesh''))"
    and kept: "mm_meshes (cs_MeshManager n') \<noteq> []" using demo_join_fails by blast
  from failed_join_may_leave_the_mesh [OF run] kept
  have "CP_JoinMesh (\<lambda>_. demo_env) demo_peer demo_join n' = Some (n', [], Inl AlreadyPartOfMesh)" by simp
  with run show ?thesis by blast
qed

lemma GetMeshes_build: "GetMeshes m = gm_build (\<lambda>mesh. mesh) (mm_meshes m)"
  by (simp add: GetMeshes_def gm_build_def)

lemma GetMeshes_lookup:
  assumes "gm_wf (mm_meshes m)"
  shows "map_of (GetMeshes m) = map_of (mm_meshes m)" "gm_wf (GetMeshes m)"
  using assms by (auto simp: GetMeshes_build map_of_gm_build option.map_ident fun_eq_iff)

lemma set_CP_ListMeshes:
  "gm_wf (mm_meshes (cs_MeshManager n)) \<Longrightarrow> meshId \<in> set (CP_ListMeshes n) \<longleftrightarrow> MM_GetMesh meshId (cs_MeshManager n) \<noteq> None"
  by (auto simp: CP_ListMeshes_def MM_GetMesh_def GetMeshes_lookup(1) [symmetric] map_of_eq_None_iff
    simp del: not_None_eq)

lemma distinct_CP_ListMeshes: "gm_wf (mm_meshes (cs_MeshManager n)) \<Longrightarrow> distinct (CP_ListMeshes n)"
  using GetMeshes_lookup(2) by (simp add: CP_ListMeshes_def gm_wf_def)

lemma CP_CreateMesh_returns: "CP_CreateMesh E args n \<noteq> None"
  by (auto simp: CP_CreateMesh_def MM_AddSelf_returns simp del: not_None_eq split: prod.splits sum.splits option.splits)

lemma CP_JoinMesh_returns: "CP_JoinMesh E J args n \<noteq> None"
  by (auto simp: CP_JoinMesh_def Let_def MM_AddSelf_returns simp del: not_None_eq
    split: prod.splits sum.splits option.splits)

text \<open>The handlers that search for a free address always return, and the list of meshes that the
  daemon reports is strictly sorted and holds exactly the meshes of its manager.\<close>

lemma handlers_return:
  assumes "gm_wf (mm_meshes (cs_MeshManager n))"
  shows "CP_CreateMesh E args n \<noteq> None \<and> CP_JoinMesh E J jargs n \<noteq> None
    \<and> sorted_wrt (<) (CP_ListMeshes n)
    \<and> (\<forall>meshId. meshId \<in> set (CP_ListMeshes n) \<longleftrightarrow> MM_GetMesh meshId (cs_MeshManager n) \<noteq> None)"
  using distinct_CP_ListMeshes [OF assms] set_CP_ListMeshes [OF assms] CP_CreateMesh_returns [of E args n]
    CP_JoinMesh_returns [of E J jargs n]
  by (simp add: CP_ListMeshes_def strict_sorted_iff)


end
