(* ===== verification/Ipc.thy ===== *)
theory Ipc
  imports Ctrl_Plane
begin

text \<open>
  \<open>src/pkg/ipc/ipc.go\<close>: the client of the control socket, as the API server and the command line tool use
  it. The record \<open>ipc_client\<close> holds its methods over a state \<open>'s\<close> of the daemon; \<open>SmegmeshIpc\<close> is the client
  of a running daemon: \<open>net/rpc\<close> dispatches each call by its name to the handler of \<open>Ctrl_Plane\<close>, and its
  reply, or the error, comes back. A panic of a handler reaches the client as an error.

  The locale \<open>mesh_client\<close> is what users of the client rely on when they read: the list names exactly the
  meshes that can be fetched. It is interpreted on \<open>SmegmeshIpc\<close>.
\<close>

section \<open>The client\<close>

record 's ipc_client =
  ic_CreateMesh :: "WireGuardArgs \<Rightarrow> 's \<Rightarrow> 's \<times> (ipc_error + string)"
  ic_ListMeshes :: "'s \<Rightarrow> ipc_error + string list"
  ic_JoinMesh :: "JoinMeshArgs \<Rightarrow> 's \<Rightarrow> 's \<times> (ipc_error + string)"
  ic_LeaveMesh :: "string \<Rightarrow> 's \<Rightarrow> 's \<times> (ipc_error + string)"
  ic_GetMesh :: "string \<Rightarrow> 's \<Rightarrow> ipc_error + CtrlNode list"
  ic_Query :: "string \<Rightarrow> string \<Rightarrow> 's \<Rightarrow> ipc_error + string"
  ic_PutDescription :: "string \<Rightarrow> string \<Rightarrow> 's \<Rightarrow> 's \<times> (ipc_error + string)"
  ic_PutAlias :: "string \<Rightarrow> string \<Rightarrow> 's \<Rightarrow> 's \<times> (ipc_error + string)"
  ic_PutService :: "string \<Rightarrow> string \<Rightarrow> string \<Rightarrow> 's \<Rightarrow> 's \<times> (ipc_error + string)"
  ic_DeleteService :: "string \<Rightarrow> string \<Rightarrow> 's \<Rightarrow> 's \<times> (ipc_error + string)"

text \<open>What the surroundings of the daemon answer while it serves a call, by the kind of call.\<close>

record ('c, 'j) daemon_env =
  de_env :: "nat \<Rightarrow> env"
  de_join :: "'c join_env"
  de_leave :: env
  de_alias :: u64
  de_description :: u64
  de_service :: u64
  de_delete :: u64
  de_keys :: wg_keys
  de_device :: "string \<Rightarrow> StatsPeer list option"
  de_search :: "string \<Rightarrow> QueryNode list \<Rightarrow> rpc_error + 'j"
  de_marshal :: "'j \<Rightarrow> rpc_error + string"

text \<open>A daemon with the effects it had so far.\<close>

type_synonym 'c daemon = "'c MeshCtrlServer \<times> effect list"

definition called :: "effect list \<Rightarrow> ('c, 'a) handled \<Rightarrow> 'c daemon \<times> (ipc_error + 'a)" where
  "called lg h = (case h of (n, lg', r) \<Rightarrow> ((n, lg @ lg'), r))"

definition SmegmeshIpc :: "('c, 'j) daemon_env \<Rightarrow> 'c daemon ipc_client" where
  "SmegmeshIpc D =
     \<lparr>ic_CreateMesh = (\<lambda>args (n, lg). called lg (the (CP_CreateMesh (de_env D) args n))),
      ic_ListMeshes = (\<lambda>(n, lg). Inr (CP_ListMeshes n)),
      ic_JoinMesh = (\<lambda>args (n, lg). called lg (the (CP_JoinMesh (de_env D) (de_join D) args n))),
      ic_LeaveMesh = (\<lambda>meshId (n, lg). called lg (CP_LeaveMesh (de_leave D) meshId n)),
      ic_GetMesh = (\<lambda>meshId (n, lg). CP_GetMesh (de_keys D) (de_device D) meshId n),
      ic_Query = (\<lambda>meshId query (n, lg). CP_Query (de_keys D) (de_search D) (de_marshal D) meshId query n),
      ic_PutDescription = (\<lambda>meshId description (n, lg). called lg (CP_PutDescription (de_description D) meshId description n)),
      ic_PutAlias = (\<lambda>meshId alias (n, lg). called lg (CP_PutAlias (de_alias D) meshId alias n)),
      ic_PutService = (\<lambda>meshId service value (n, lg). called lg (CP_PutService (de_service D) meshId service value n)),
      ic_DeleteService = (\<lambda>meshId service (n, lg). called lg (CP_DeleteService (de_delete D) meshId service n))\<rparr>"

section \<open>The socket\<close>

definition SockAddr :: string where
  "SockAddr = ''/tmp/smeg.sock''"

datatype 'e handler_error = CouldNotFindAddress | CannotListen 'e

text \<open>The sockets that are served, by their path. \<open>remove\<close> and \<open>listen\<close> are the errors of the system; an old
  socket at the path is removed before the new one is opened.\<close>

definition RunIpcHandler ::
  "(string \<Rightarrow> 'e option) \<Rightarrow> (string \<Rightarrow> 'e option) \<Rightarrow> string set \<Rightarrow> string set \<times> 'e handler_error option" where
  "RunIpcHandler remove listen socks =
     (if remove SockAddr \<noteq> None then (socks, Some CouldNotFindAddress)
      else case listen SockAddr of
        Some e \<Rightarrow> (socks - {SockAddr}, Some (CannotListen e))
      | None \<Rightarrow> (insert SockAddr (socks - {SockAddr}), None))"

text \<open>A client can be opened when its socket is served; \<open>refused\<close> is the error otherwise.\<close>

definition NewClientIpc :: "'e \<Rightarrow> ('c, 'j) daemon_env \<Rightarrow> string set \<Rightarrow> 'e + 'c daemon ipc_client" where
  "NewClientIpc refused D socks = (if SockAddr \<in> socks then Inr (SmegmeshIpc D) else Inl refused)"

text \<open>The tools reach the daemon that serves, and only then.\<close>

lemma client_reaches_handler:
  assumes "RunIpcHandler remove listen socks = (socks', err)"
  shows "err = None \<Longrightarrow> NewClientIpc refused D socks' = Inr (SmegmeshIpc D)"
    and "err = Some (CannotListen e) \<Longrightarrow> NewClientIpc refused D socks' = Inl refused"
  using assms by (auto simp: RunIpcHandler_def NewClientIpc_def split: if_splits option.splits)

section \<open>What readers rely on\<close>

text \<open>The loop over the listed meshes that the API server and the command line tool run: fetch each mesh in
  turn, stop at the first error.\<close>

fun fetch_all :: "(string \<Rightarrow> 's \<Rightarrow> 'e + 'n) \<Rightarrow> string list \<Rightarrow> 's \<Rightarrow> 'e + (string \<times> 'n) list" where
  "fetch_all get [] s = Inr []"
| "fetch_all get (meshId # ids) s =
     (case get meshId s of
        Inl err \<Rightarrow> Inl err
      | Inr nodes \<Rightarrow> (case fetch_all get ids s of Inl err \<Rightarrow> Inl err | Inr rest \<Rightarrow> Inr ((meshId, nodes) # rest)))"

locale mesh_client =
  fixes listed :: "'s \<Rightarrow> 'e + string list" and get :: "string \<Rightarrow> 's \<Rightarrow> 'e + 'n" and ok :: "'s \<Rightarrow> bool"
  assumes list_ok: "ok s \<Longrightarrow> \<exists>ids. listed s = Inr ids \<and> distinct ids
    \<and> (\<forall>meshId. meshId \<in> set ids \<longleftrightarrow> (\<exists>nodes. get meshId s = Inr nodes))"
begin

lemma fetch_all_listed:
  "\<forall>meshId \<in> set ids. \<exists>nodes. get meshId s = Inr nodes
    \<Longrightarrow> \<exists>ms. fetch_all get ids s = Inr ms \<and> map fst ms = ids \<and> (\<forall>(meshId, nodes) \<in> set ms. get meshId s = Inr nodes)"
  by (induction ids) auto

text \<open>The whole read succeeds and returns every mesh once.\<close>

lemma read_all:
  assumes "ok s"
  obtains ids ms where "listed s = Inr ids" "fetch_all get ids s = Inr ms" "distinct (map fst ms)"
    "\<forall>meshId nodes. (meshId, nodes) \<in> set ms \<longleftrightarrow> get meshId s = Inr nodes"
proof -
  obtain ids where ids: "listed s = Inr ids" "distinct ids"
    "\<forall>meshId. meshId \<in> set ids \<longleftrightarrow> (\<exists>nodes. get meshId s = Inr nodes)" using list_ok [OF assms] by blast
  then obtain ms where ms: "fetch_all get ids s = Inr ms" "map fst ms = ids"
    "\<forall>(meshId, nodes) \<in> set ms. get meshId s = Inr nodes" using fetch_all_listed [of ids s] by auto
  have "(meshId, nodes) \<in> set ms \<longleftrightarrow> get meshId s = Inr nodes" for meshId nodes
  proof
    assume g: "get meshId s = Inr nodes"
    then have "meshId \<in> fst ` set ms" using ids(3) ms(2) by (metis image_set)
    then show "(meshId, nodes) \<in> set ms" using ms(3) g by force
  qed (use ms(3) in auto)
  then show thesis using that ids(1,2) ms(1,2) by simp
qed

end

interpretation smeg: mesh_client "ic_ListMeshes (SmegmeshIpc D)" "ic_GetMesh (SmegmeshIpc D)"
  "\<lambda>(n, lg). gm_wf (mm_meshes (cs_MeshManager n))" for D :: "('c, 'j) daemon_env"
proof (unfold_locales, clarify)
  fix n :: "'c MeshCtrlServer" and lg assume wf: "gm_wf (mm_meshes (cs_MeshManager n))"
  show "\<exists>ids. ic_ListMeshes (SmegmeshIpc D) (n, lg) = Inr ids \<and> distinct ids
      \<and> (\<forall>meshId. meshId \<in> set ids \<longleftrightarrow> (\<exists>nodes. ic_GetMesh (SmegmeshIpc D) meshId (n, lg) = Inr nodes))"
    by (auto simp: SmegmeshIpc_def CP_GetMesh_def distinct_CP_ListMeshes [OF wf] set_CP_ListMeshes [OF wf]
      split: option.splits)
qed

text \<open>The surroundings of a daemon for the examples.\<close>

definition demo_daemon_env :: "(nat, string) daemon_env" where
  "demo_daemon_env = \<lparr>de_env = (\<lambda>_. demo_env), de_join = demo_peer, de_leave = demo_env, de_alias = 8, de_description = 9,
     de_service = 8, de_delete = 8, de_keys = demo_keys, de_device = (\<lambda>_. None),
     de_search = (\<lambda>q _. Inr q), de_marshal = Inr\<rparr>"

end
