(* ===== verification/Api.thy ===== *)
theory Api
  imports Ipc What8words
begin

text \<open>
  \<open>src/pkg/api/apiserver.go\<close> and \<open>src/pkg/api/types.go\<close>: the HTTP server on top of the client of the control
  socket. A handler gets the request that the web framework bound (or its error) and returns the
  state of the daemon and a response. A panic while a response is built is answered with status 500
  by the recovery of the framework. Routing, JSON and listening belong to the framework.
\<close>

section \<open>Types\<close>

record ApiRoute =
  ar_Prefix :: string
  ar_Path :: "string list"

record SmegStats =
  ss_TotalTransmit :: int
  ss_TotalReceived :: int
  ss_KeepAliveInterval :: int
  ss_AllowedIps :: "string list"

record SmegNode =
  sn_Alias :: string
  sn_WgHost :: string
  sn_WgEndpoint :: string
  sn_Endpoint :: string
  sn_Timestamp :: int
  sn_Description :: string
  sn_PublicKey :: string
  sn_Routes :: "ApiRoute list"
  sn_Services :: "(string, string) gomap"
  sn_Stats :: SmegStats

record SmegMesh =
  sm_MeshId :: string
  sm_Nodes :: "(string, SmegNode) gomap"

record CreateMeshRequest =
  cq_WgPort :: int
  cq_Role :: string
  cq_AdvertiseRoutes :: bool
  cq_AdvertiseDefaults :: bool
  cq_Alias :: string
  cq_Description :: string
  cq_PublicEndpoint :: string

record JoinMeshRequest = CreateMeshRequest +
  jq_Bootstrap :: string
  jq_MeshId :: string

datatype 'b response =
    StatusOK 'b
  | StatusBadRequest
  | StatusNotFound
  | StatusInternalServerError

section \<open>Conversions\<close>

definition routeToApiRoute :: "CtrlNode \<Rightarrow> ApiRoute list" where
  "routeToApiRoute meshNode = map (\<lambda>route. \<lparr>ar_Prefix = cr_Destination route, ar_Path = cr_Path route\<rparr>) (cn_Routes meshNode)"

text \<open>\<open>None\<close> is a panic of the word encoding; its errors leave the alias empty.\<close>

definition meshNodeToAPIMeshNode :: "string list \<Rightarrow> CtrlNode \<Rightarrow> SmegNode option" where
  "meshNodeToAPIMeshNode wordlist meshNode =
     (let alias = (if cn_Alias meshNode = [] then
                     (case ConvertIdentifier wordlist (cn_WgHost meshNode) of
                        Inr a \<Rightarrow> Some a | Inl WordPanic \<Rightarrow> None | Inl _ \<Rightarrow> Some [])
                   else Some (cn_Alias meshNode)) in
      map_option (\<lambda>alias.
        \<lparr>sn_Alias = alias, sn_WgHost = cn_WgHost meshNode, sn_WgEndpoint = cn_WgEndpoint meshNode,
         sn_Endpoint = cn_HostEndpoint meshNode, sn_Timestamp = cn_Timestamp meshNode,
         sn_Description = cn_Description meshNode, sn_PublicKey = cn_PublicKey meshNode,
         sn_Routes = routeToApiRoute meshNode, sn_Services = cn_Services meshNode,
         sn_Stats = \<lparr>ss_TotalTransmit = ws_TransmitBytes (cn_Stats meshNode),
           ss_TotalReceived = ws_ReceivedBytes (cn_Stats meshNode),
           ss_KeepAliveInterval = ws_KeepAliveInterval (cn_Stats meshNode),
           ss_AllowedIps = ws_AllowedIPs (cn_Stats meshNode)\<rparr>\<rparr>) alias)"

fun api_nodes :: "string list \<Rightarrow> CtrlNode list \<Rightarrow> (string, SmegNode) gomap \<Rightarrow> (string, SmegNode) gomap option" where
  "api_nodes wordlist [] acc = Some acc"
| "api_nodes wordlist (node # nodes) acc =
     (case meshNodeToAPIMeshNode wordlist node of
        None \<Rightarrow> None
      | Some n \<Rightarrow> api_nodes wordlist nodes (gm_put (cn_WgHost node) n acc))"

definition meshToAPIMesh :: "string list \<Rightarrow> string \<Rightarrow> CtrlNode list \<Rightarrow> SmegMesh option" where
  "meshToAPIMesh wordlist meshId nodes =
     map_option (\<lambda>ns. \<lparr>sm_MeshId = meshId, sm_Nodes = ns\<rparr>) (api_nodes wordlist nodes [])"

section \<open>Handlers\<close>

definition putAlias :: "'s ipc_client \<Rightarrow> string \<Rightarrow> string \<Rightarrow> 's \<Rightarrow> 's \<times> (ipc_error + string)" where
  "putAlias client meshId alias s = ic_PutAlias client meshId alias s"

definition putDescription :: "'s ipc_client \<Rightarrow> string \<Rightarrow> string \<Rightarrow> 's \<Rightarrow> 's \<times> (ipc_error + string)" where
  "putDescription client meshId description s = ic_PutDescription client meshId description s"

text \<open>After a mesh was created or joined: both setters are optional and their errors are dropped.\<close>

definition put_optional :: "'s ipc_client \<Rightarrow> string \<Rightarrow> string \<Rightarrow> string \<Rightarrow> 's \<Rightarrow> 's" where
  "put_optional client meshId alias description s =
     (let s1 = (if alias \<noteq> [] then fst (putAlias client meshId alias s) else s)
      in if description \<noteq> [] then fst (putDescription client meshId description s1) else s1)"

definition request_args :: "('a CreateMeshRequest_scheme) \<Rightarrow> WireGuardArgs" where
  "request_args q =
     \<lparr>wa_WgPort = cq_WgPort q, wa_KeepAliveWg = 0, wa_AdvertiseRoutes = cq_AdvertiseRoutes q,
      wa_AdvertiseDefaultRoute = cq_AdvertiseDefaults q, wa_Endpoint = cq_PublicEndpoint q, wa_Role = cq_Role q\<rparr>"

definition API_CreateMesh ::
  "'s ipc_client \<Rightarrow> 'e + CreateMeshRequest \<Rightarrow> 's \<Rightarrow> 's \<times> string response" where
  "API_CreateMesh client bound s =
     (case bound of
        Inl _ \<Rightarrow> (s, StatusBadRequest)
      | Inr createMesh \<Rightarrow>
          (case ic_CreateMesh client (request_args createMesh) s of
             (s1, Inl _) \<Rightarrow> (s1, StatusBadRequest)
           | (s1, Inr reply) \<Rightarrow>
               (put_optional client reply (cq_Alias createMesh) (cq_Description createMesh) s1, StatusOK reply)))"

definition API_JoinMesh ::
  "'s ipc_client \<Rightarrow> 'e + JoinMeshRequest \<Rightarrow> 's \<Rightarrow> 's \<times> string response" where
  "API_JoinMesh client bound s =
     (case bound of
        Inl _ \<Rightarrow> (s, StatusBadRequest)
      | Inr joinMesh \<Rightarrow>
          (case ic_JoinMesh client \<lparr>ja_MeshId = jq_MeshId joinMesh, ja_IpAddress = jq_Bootstrap joinMesh,
                  ja_WgArgs = request_args joinMesh\<rparr> s of
             (s1, Inl _) \<Rightarrow> (s1, StatusBadRequest)
           | (s1, Inr reply) \<Rightarrow>
               (put_optional client reply (cq_Alias joinMesh) (cq_Description joinMesh) s1, StatusOK ''success'')))"

definition API_GetMesh :: "string list \<Rightarrow> 's ipc_client \<Rightarrow> string \<Rightarrow> 's \<Rightarrow> SmegMesh response" where
  "API_GetMesh wordlist client meshid s =
     (case ic_GetMesh client meshid s of
        Inl _ \<Rightarrow> StatusNotFound
      | Inr nodes \<Rightarrow>
          (case meshToAPIMesh wordlist meshid nodes of None \<Rightarrow> StatusInternalServerError | Some mesh \<Rightarrow> StatusOK mesh))"

text \<open>The loop converts each mesh before it fetches the next.\<close>

fun api_meshes :: "string list \<Rightarrow> 's ipc_client \<Rightarrow> string list \<Rightarrow> 's \<Rightarrow> SmegMesh list \<Rightarrow> SmegMesh list response" where
  "api_meshes wordlist client [] s meshes = StatusOK meshes"
| "api_meshes wordlist client (mesh # ids) s meshes =
     (case ic_GetMesh client mesh s of
        Inl _ \<Rightarrow> StatusBadRequest
      | Inr nodes \<Rightarrow>
          (case meshToAPIMesh wordlist mesh nodes of
             None \<Rightarrow> StatusInternalServerError
           | Some m \<Rightarrow> api_meshes wordlist client ids s (meshes @ [m])))"

definition API_GetMeshes :: "string list \<Rightarrow> 's ipc_client \<Rightarrow> 's \<Rightarrow> SmegMesh list response" where
  "API_GetMeshes wordlist client s =
     (case ic_ListMeshes client s of
        Inl _ \<Rightarrow> StatusBadRequest
      | Inr meshes \<Rightarrow> api_meshes wordlist client meshes s [])"

section \<open>Reading\<close>

lemma api_meshes_ok:
  "api_meshes wordlist client ids s acc = StatusOK ms \<Longrightarrow>
    \<exists>new. ms = acc @ new \<and> map sm_MeshId new = ids
      \<and> (\<forall>m \<in> set new. API_GetMesh wordlist client (sm_MeshId m) s = StatusOK m)"
proof (induction ids arbitrary: acc)
  case (Cons meshId ids)
  then obtain nodes m where "ic_GetMesh client meshId s = Inr nodes" "meshToAPIMesh wordlist meshId nodes = Some m"
    "api_meshes wordlist client ids s (acc @ [m]) = StatusOK ms"
    by (auto split: sum.splits option.splits)
  moreover from this have "sm_MeshId m = meshId" by (auto simp: meshToAPIMesh_def)
  ultimately show ?case using Cons.IH [of "acc @ [m]"] by (auto simp: API_GetMesh_def)
qed simp

lemma api_meshes_fetched:
  "fetch_all (ic_GetMesh client) ids s = Inr ms \<Longrightarrow> api_meshes wordlist client ids s acc \<noteq> StatusBadRequest"
  by (induction ids arbitrary: ms acc) (auto split: sum.splits option.splits)


lemma api_nodes_distinct:
  "api_nodes wordlist nodes acc = Some ns \<Longrightarrow> distinct (map cn_WgHost nodes) \<Longrightarrow>
    map_of ns k = (case find (\<lambda>n. cn_WgHost n = k) nodes of
      Some node \<Rightarrow> meshNodeToAPIMeshNode wordlist node | None \<Rightarrow> map_of acc k)"
proof (induction nodes arbitrary: acc)
  case (Cons node nodes)
  then obtain n where n: "meshNodeToAPIMeshNode wordlist node = Some n"
    "api_nodes wordlist nodes (gm_put (cn_WgHost node) n acc) = Some ns" by (auto split: option.splits)
  have "find (\<lambda>n. cn_WgHost n = cn_WgHost node) nodes = None"
    using Cons.prems(2) by (auto simp: find_None_iff image_iff)
  with Cons.IH [OF n(2)] Cons.prems(2) n(1) show ?case by (auto split: option.splits)
qed simp

lemma api_mesh_has_every_node:
  assumes "meshToAPIMesh wordlist meshId nodes = Some m" and "distinct (map cn_WgHost nodes)" and "node \<in> set nodes"
  shows "map_of (sm_Nodes m) (cn_WgHost node) = meshNodeToAPIMeshNode wordlist node"
proof -
  have "find (\<lambda>n. cn_WgHost n = cn_WgHost node) nodes = Some node"
    using assms(2,3) by (induction nodes) auto
  then show ?thesis using assms(1,2) by (auto simp: meshToAPIMesh_def api_nodes_distinct)
qed

section \<open>Creating and joining\<close>

lemma MM_CreateMesh_ok:
  assumes "MM_CreateMesh E port ovr m = (m', lg, Inr meshId)"
  obtains ifName cfg where "m' = set_mesh meshId (Factory_CreateMesh (mm_conf m) (provider_params ifName meshId cfg m)) m"
  using assms
  by (auto simp: MM_CreateMesh_def Let_def split: option.splits sum.splits if_splits prod.splits)

lemma CP_CreateMesh_ok:
  assumes "CP_CreateMesh E args n = Some (n', lg, Inr meshId)"
  obtains mesh where "MM_GetMesh meshId (cs_MeshManager n') = Some mesh" "ds_ready 2 mesh"
    "ds_contains (mm_PublicKey (cs_MeshManager n')) mesh" "mm_PublicKey (cs_MeshManager n') = mm_PublicKey (cs_MeshManager n)"
proof -
  let ?m = "cs_MeshManager n"
  from assms obtain m1 log1 log2 where "MM_CreateMesh (E 0) (wa_WgPort args) (Some (getOverrideConfiguration args)) ?m
      = (m1, log1, Inr meshId)"
    and self: "MM_AddSelf (E 1) meshId (wa_WgPort args) (wa_Endpoint args) m1 = Some (cs_MeshManager n', log2, Inr ())"
    by (auto simp: CP_CreateMesh_def split: option.splits sum.splits prod.splits)
  then obtain ifName cfg where
    m1: "m1 = set_mesh meshId (Factory_CreateMesh (mm_conf ?m) (provider_params ifName meshId cfg ?m)) ?m"
    by (auto elim: MM_CreateMesh_ok)
  obtain mesh node where mesh: "MM_GetMesh meshId m1 = Some mesh" "PublicKey node = mm_PublicKey m1"
    and n': "cs_MeshManager n' = set_mesh meshId (ds_put (env_now (E 1)) (mm_PublicKey m1) (added (env_now (E 1)) node) mesh) m1"
    by (rule MM_AddSelf_ok [OF self])
  have r: "ds_ready (Suc 2) mesh"
    using mesh(1) by (simp add: m1 MM_GetMesh_def create_frame) (auto simp: Factory_CreateMesh_def New_ready)
  let ?mesh = "ds_put (env_now (E 1)) (mm_PublicKey m1) (added (env_now (E 1)) node) mesh"
  have "ds_ready 2 ?mesh" using tp_ready_Put [OF r] by (simp add: ds_put_def)
  moreover have "ds_contains (mm_PublicKey m1) ?mesh" by (subst ds_put_get(1) [OF r]) simp
  ultimately show thesis using that by (simp add: n' MM_GetMesh_def create_frame m1)
qed

text \<open>What the setters do to a running daemon.\<close>

definition after_set :: "mm_error + MeshManagerImpl \<Rightarrow> 'c MeshCtrlServer \<Rightarrow> 'c MeshCtrlServer" where
  "after_set r n = (case r of Inl _ \<Rightarrow> n | Inr m \<Rightarrow> n\<lparr>cs_MeshManager := m\<rparr>)"

lemma putAlias_daemon:
  "alias \<noteq> [] \<Longrightarrow> fst (putAlias (SmegmeshIpc D) meshId alias (n, lg))
    = (after_set (MM_SetAlias (de_alias D) meshId alias (cs_MeshManager n)) n, lg)"
  by (simp add: putAlias_def SmegmeshIpc_def called_def CP_PutAlias_def reply_with_def after_set_def split: sum.splits)

lemma putDescription_daemon:
  "fst (putDescription (SmegmeshIpc D) meshId descr (n, lg))
    = (after_set (MM_SetDescription (de_description D) meshId descr (cs_MeshManager n)) n, lg)"
  by (simp add: putDescription_def SmegmeshIpc_def called_def CP_PutDescription_def reply_with_def after_set_def split: sum.splits)

definition own_node :: "string \<Rightarrow> MeshManagerImpl \<Rightarrow> nat \<Rightarrow> MeshNode \<Rightarrow> bool" where
  "own_node meshId m k node \<longleftrightarrow> (\<exists>mesh. MM_GetMesh meshId m = Some mesh \<and> ds_ready k mesh
     \<and> ds_contains (mm_PublicKey m) mesh \<and> ds_get (mm_PublicKey m) mesh = node)"

lemma on_self_own:
  assumes "own_node meshId m (Suc k) node"
    and "\<And>mesh. ds_contains (mm_PublicKey m) mesh \<Longrightarrow> op (mm_PublicKey m) mesh
      = Inr (ds_put now (mm_PublicKey m) (f (ds_get (mm_PublicKey m) mesh)) mesh)"
  shows "\<exists>m'. on_self op meshId m = Inr m' \<and> mm_PublicKey m' = mm_PublicKey m \<and> own_node meshId m' k (f node)"
proof -
  obtain mesh where mesh: "MM_GetMesh meshId m = Some mesh" and r: "ds_ready (Suc k) mesh"
    and has: "ds_contains (mm_PublicKey m) mesh" "ds_get (mm_PublicKey m) mesh = node"
    using assms(1) by (auto simp: own_node_def)
  let ?mesh = "ds_put now (mm_PublicKey m) (f node) mesh"
  have "on_self op meshId m = Inr (set_mesh meshId ?mesh m)"
    using mesh has assms(2) by (simp add: on_self_def DS_NodeExists_def)
  moreover have "ds_ready k ?mesh" using tp_ready_Put [OF r] by (simp add: ds_put_def)
  moreover have "ds_contains (mm_PublicKey m) ?mesh" "ds_get (mm_PublicKey m) ?mesh = f node"
    by (subst ds_put_get [OF r], simp)+
  ultimately show ?thesis by (auto simp: own_node_def MM_GetMesh_def create_frame)
qed

lemma set_alias_own:
  assumes "own_node meshId (cs_MeshManager n) (Suc k) node"
  shows "own_node meshId (cs_MeshManager (after_set (MM_SetAlias now meshId alias (cs_MeshManager n)) n)) k (node\<lparr>Alias := alias\<rparr>)
    \<and> mm_PublicKey (cs_MeshManager (after_set (MM_SetAlias now meshId alias (cs_MeshManager n)) n)) = mm_PublicKey (cs_MeshManager n)"
  using on_self_own [OF assms, of "\<lambda>k. DS_SetAlias now k alias" now "Alias_update (\<lambda>_. alias)"]
  by (auto simp: MM_SetAlias_def DS_SetAlias_def Let_def after_set_def)

lemma set_description_own:
  assumes "own_node meshId (cs_MeshManager n) (Suc k) node"
  shows "own_node meshId (cs_MeshManager (after_set (MM_SetDescription now meshId d (cs_MeshManager n)) n)) k (node\<lparr>Description := d\<rparr>)
    \<and> mm_PublicKey (cs_MeshManager (after_set (MM_SetDescription now meshId d (cs_MeshManager n)) n)) = mm_PublicKey (cs_MeshManager n)"
  using on_self_own [OF assms, of "\<lambda>k. DS_SetDescription now k d" now "Description_update (\<lambda>_. d)"]
  by (auto simp: MM_SetDescription_def DS_SetDescription_def Let_def after_set_def)

lemma own_node_mono: "own_node meshId m (Suc k) node \<Longrightarrow> own_node meshId m k node"
  by (auto simp: own_node_def tp_ready_def tp_room_def)

lemma put_optional_own:
  assumes "own_node meshId (cs_MeshManager n) 2 node"
  shows "\<exists>node'. own_node meshId (cs_MeshManager (fst (put_optional (SmegmeshIpc D) meshId a d (n, lg)))) 0 node'
    \<and> mm_PublicKey (cs_MeshManager (fst (put_optional (SmegmeshIpc D) meshId a d (n, lg)))) = mm_PublicKey (cs_MeshManager n)
    \<and> (a \<noteq> [] \<longrightarrow> Alias node' = a) \<and> (d \<noteq> [] \<longrightarrow> Description node' = d)"
proof -
  define n1 where "n1 = (if a \<noteq> [] then after_set (MM_SetAlias (de_alias D) meshId a (cs_MeshManager n)) n else n)"
  have own: "own_node meshId (cs_MeshManager n) (Suc (Suc 0)) node" using assms by (simp add: numeral_2_eq_2)
  then obtain node1 where n1: "own_node meshId (cs_MeshManager n1) (Suc 0) node1" "a \<noteq> [] \<longrightarrow> Alias node1 = a"
    "mm_PublicKey (cs_MeshManager n1) = mm_PublicKey (cs_MeshManager n)"
    using set_alias_own [OF own, of "de_alias D" a] own_node_mono [OF own] that [of "node\<lparr>Alias := a\<rparr>"] that [of node]
    by (cases "a = []") (simp_all add: n1_def)
  have "fst (put_optional (SmegmeshIpc D) meshId a d (n, lg))
    = (if d \<noteq> [] then after_set (MM_SetDescription (de_description D) meshId d (cs_MeshManager n1)) n1 else n1)"
    by (simp add: put_optional_def Let_def putAlias_daemon putDescription_daemon n1_def)
  then show ?thesis
    using n1 set_description_own [OF n1(1), of "de_description D" d] own_node_mono [OF n1(1)]
    by (cases "d = []") (auto intro: exI [of _ node1] exI [of _ "node1\<lparr>Description := d\<rparr>"])
qed

text \<open>C31: a request to create a mesh that the API answers with success has created a mesh under the returned
  identifier that contains the own node, with the alias and the description of the request where
  it gives them.\<close>

theorem api_create_sets_alias:
  assumes "API_CreateMesh (SmegmeshIpc D) (Inr q :: 'e + CreateMeshRequest) (n, lg) = (s, StatusOK meshId)"
  shows "\<exists>mesh node. MM_GetMesh meshId (cs_MeshManager (fst s)) = Some mesh
    \<and> DS_GetNode (mm_PublicKey (cs_MeshManager n)) mesh = Inr node
    \<and> (cq_Alias q \<noteq> [] \<longrightarrow> Alias node = cq_Alias q) \<and> (cq_Description q \<noteq> [] \<longrightarrow> Description node = cq_Description q)"
proof -
  obtain n1 log1 where create: "the (CP_CreateMesh (de_env D) (request_args q) n) = (n1, log1, Inr meshId)"
    and s: "s = put_optional (SmegmeshIpc D) meshId (cq_Alias q) (cq_Description q) (n1, lg @ log1)"
    using assms by (auto simp: API_CreateMesh_def SmegmeshIpc_def called_def split: prod.splits sum.splits)
  have "CP_CreateMesh (de_env D) (request_args q) n = Some (n1, log1, Inr meshId)"
    using create CP_CreateMesh_returns [of "de_env D" "request_args q" n] by auto
  then obtain mesh where "own_node meshId (cs_MeshManager n1) 2 (ds_get (mm_PublicKey (cs_MeshManager n1)) mesh)"
    and key: "mm_PublicKey (cs_MeshManager n1) = mm_PublicKey (cs_MeshManager n)"
    by (rule CP_CreateMesh_ok) (auto simp: own_node_def)
  from put_optional_own [OF this(1), of D "cq_Alias q" "cq_Description q" "lg @ log1"] key
  show ?thesis by (auto simp: s own_node_def DS_GetNode_def)
qed

text \<open>C32: a request to join a mesh that the API answers with success ignores the alias and the description of
  the request: the daemon is left exactly as after the join alone. The setters are sent the reply of
  the daemon, \<open>Successfully Joined: <id>\<close>, in place of the identifier of the mesh.\<close>

theorem api_join_ignores_alias:
  assumes "API_JoinMesh (SmegmeshIpc D) (Inr q :: 'e + JoinMeshRequest) (n, lg) = (s, StatusOK r)"
    and "MM_GetMesh (''Successfully Joined: '' @ jq_MeshId q) (cs_MeshManager n) = None"
  shows "CP_JoinMesh (de_env D) (de_join D) \<lparr>ja_MeshId = jq_MeshId q, ja_IpAddress = jq_Bootstrap q,
      ja_WgArgs = request_args q\<rparr> n = Some (fst s, drop (length lg) (snd s), Inr (''Successfully Joined: '' @ jq_MeshId q))"
proof -
  let ?args = "\<lparr>ja_MeshId = jq_MeshId q, ja_IpAddress = jq_Bootstrap q, ja_WgArgs = request_args q\<rparr>"
  obtain n1 log1 reply where "the (CP_JoinMesh (de_env D) (de_join D) ?args n) = (n1, log1, Inr reply)"
    and s: "s = put_optional (SmegmeshIpc D) reply (cq_Alias q) (cq_Description q) (n1, lg @ log1)"
    using assms(1) by (auto simp: API_JoinMesh_def SmegmeshIpc_def called_def split: prod.splits sum.splits)
  then have run: "CP_JoinMesh (de_env D) (de_join D) ?args n = Some (n1, log1, Inr reply)"
    using CP_JoinMesh_returns [of "de_env D" "de_join D" ?args n] by auto
  have reply: "reply = ''Successfully Joined: '' @ jq_MeshId q" and "MM_GetMesh reply (cs_MeshManager n1) = None"
    using CP_JoinMesh_frame [OF run] assms(2) by auto
  then have "put_optional (SmegmeshIpc D) reply (cq_Alias q) (cq_Description q) (n1, lg @ log1) = (n1, lg @ log1)"
    by (simp add: put_optional_def Let_def putAlias_daemon putDescription_daemon after_set_def MM_SetAlias_def
      MM_SetDescription_def on_self_def)
  with run reply s show ?thesis by simp
qed

subsection \<open>An example\<close>

definition demo_request :: CreateMeshRequest where
  "demo_request = \<lparr>cq_WgPort = 0, cq_Role = ''peer'', cq_AdvertiseRoutes = False, cq_AdvertiseDefaults = False,
     cq_Alias = ''bob'', cq_Description = [], cq_PublicEndpoint = ''host''\<rparr>"

lemma demo_create_runs:
  "\<exists>n' lg. CP_CreateMesh (\<lambda>_. demo_env) (request_args demo_request) (demo_server ''k1'') = Some (n', lg, Inr ''mesh'')"
proof -
  let ?m = "cs_MeshManager (demo_server ''k1'')"
  have args: "request_args demo_request = ja_WgArgs demo_join"
    by (simp add: request_args_def demo_request_def demo_join_def)
  have E: "env_valid demo_env = (\<lambda>_. True)" "env_id demo_env = Some ''mesh''" by (simp_all add: demo_env_def)
  obtain cfg where cfg: "getConf demo_env (Some (getOverrideConfiguration (ja_WgArgs demo_join))) ?m = Inr cfg"
    "cfg_Role cfg = Some ''peer''" using demo_conf [OF E(1)] by blast
  have base: "cfg_PreUp (dc_BaseConfiguration demo_daemon) = None" "cfg_PostUp (dc_BaseConfiguration demo_daemon) = None"
    by (simp_all add: demo_daemon_def zeroConfiguration_def)
  let ?mesh = "Factory_CreateMesh demo_daemon (provider_params [] ''mesh'' cfg ?m)"
  have create: "MM_CreateMesh demo_env 0 (Some (getOverrideConfiguration (ja_WgArgs demo_join))) ?m
      = (set_mesh ''mesh'' ?mesh ?m, [], Inr ''mesh'')"
    by (simp add: MM_CreateMesh_def cfg E CLIENT_ROLE_def run_hook_def create_interface_def base commands_def Let_def)
  have "mesh_nodes ?mesh = []" by (simp add: mesh_nodes_def new_mesh_empty GetNodes_def gm_build_def)
  moreover have "env_random demo_env 255 = Some (replicate 16 3)" by (simp add: demo_env_def)
  ultimately obtain a where "detect_duplicates demo_env (mm_KeyBytes ?m) ''mesh'' (mesh_nodes ?mesh) 256 0 = Some (Inr a)"
    using detection_first_round [of "[]" demo_env "replicate 16 3" "mm_KeyBytes ?m" "''mesh''"] by auto
  moreover have "MConf ?mesh = cfg" by (simp add: Factory_CreateMesh_def provider_params_def)
  ultimately have "\<exists>m' lg. MM_AddSelf demo_env ''mesh'' 0 ''host'' (set_mesh ''mesh'' ?mesh ?m) = Some (m', lg, Inr ())"
    by (simp add: MM_AddSelf_def MM_GetMesh_def create_frame Let_def Factory_Build_def getAddress_def cfg DS_AddNode_def)
  then show ?thesis using create by (auto simp: CP_CreateMesh_def args) (auto simp: demo_join_def)
qed

theorem api_create_sets_alias_witness:
  "\<exists>s mesh node. API_CreateMesh (SmegmeshIpc demo_daemon_env) (Inr demo_request :: unit + CreateMeshRequest) (demo_server ''k1'', [])
      = (s, StatusOK ''mesh'') \<and> MM_GetMesh ''mesh'' (cs_MeshManager (fst s)) = Some mesh
    \<and> DS_GetNode ''k1'' mesh = Inr node \<and> Alias node = ''bob''"
proof -
  obtain n' lg where "CP_CreateMesh (\<lambda>_. demo_env) (request_args demo_request) (demo_server ''k1'') = Some (n', lg, Inr ''mesh'')"
    using demo_create_runs by blast
  then obtain s where run: "API_CreateMesh (SmegmeshIpc demo_daemon_env) (Inr demo_request :: unit + CreateMeshRequest) (demo_server ''k1'', [])
      = (s, StatusOK ''mesh'')"
    by (auto simp: API_CreateMesh_def SmegmeshIpc_def called_def demo_daemon_env_def)
  from api_create_sets_alias [OF this] run show ?thesis by (auto simp: demo_request_def)
qed

text \<open>The join of \<open>Ctrl_Plane\<close> through the API, with an alias.\<close>

definition demo_join_request :: JoinMeshRequest where
  "demo_join_request = CreateMeshRequest.extend demo_request (JoinMeshRequest.fields ''peer'' ''mesh'')"

lemma demo_join_request:
  "\<lparr>ja_MeshId = ''mesh'', ja_IpAddress = jq_Bootstrap demo_join_request,
    ja_WgArgs = request_args demo_join_request\<rparr> = demo_join" "cq_Alias demo_join_request = ''bob''"
  "jq_MeshId demo_join_request = ''mesh''"
  by (simp_all add: demo_join_request_def demo_request_def request_args_def demo_join_def CreateMeshRequest.defs
    JoinMeshRequest.defs)

theorem api_join_ignores_alias_witness:
  "\<exists>s lg. API_JoinMesh (SmegmeshIpc demo_daemon_env) (Inr demo_join_request :: unit + JoinMeshRequest) (demo_server ''k2'', [])
      = (s, StatusOK ''success'')
    \<and> CP_JoinMesh (\<lambda>_. demo_env) demo_peer demo_join (demo_server ''k2'') = Some (fst s, lg, Inr ''Successfully Joined: mesh'')
    \<and> cq_Alias demo_join_request = ''bob''"
proof -
  obtain n' lg where "CP_JoinMesh (\<lambda>_. demo_env) demo_peer demo_join (demo_server ''k2'')
     = Some (n', lg, Inr ''Successfully Joined: mesh'')" using demo_join_runs by blast
  then obtain s where run: "API_JoinMesh (SmegmeshIpc demo_daemon_env) (Inr demo_join_request :: unit + JoinMeshRequest) (demo_server ''k2'', [])
      = (s, StatusOK ''success'')"
    by (auto simp: API_JoinMesh_def demo_join_request SmegmeshIpc_def called_def demo_daemon_env_def)
  from api_join_ignores_alias [OF this] run show ?thesis
    by (auto simp: demo_join_request MM_GetMesh_def) (auto simp: demo_daemon_env_def)
qed


end
