(* ===== verification/Dot.thy ===== *)
theory Dot
  imports Ipc
begin

text \<open>
  \<open>src/pkg/dot/dot.go\<close> (graphs and their text in the DOT language) and \<open>src/pkg/dot/wg.go\<close> (the graph of the
  meshes of a node). \<open>None\<close> is the panic of a slice out of range. Writing to a string builder cannot
  fail, so the errors of \<open>GetDOT\<close> never occur and are left out.

  Shown: every edge of the graph joins two nodes that the graph declares, unless a route has an empty
  path; and every mesh, node and service is drawn.
\<close>

section \<open>Graphs\<close>

datatype GraphType = GRAPH | DIGRAPH

datatype Shape = CIRCLE | STAR | HEXAGON | PARALLELOGRAM

fun type_text :: "GraphType \<Rightarrow> string" where
  "type_text GRAPH = ''graph''"
| "type_text DIGRAPH = ''digraph''"

fun shape_text :: "Shape \<Rightarrow> string" where
  "shape_text CIRCLE = ''circle''"
| "shape_text STAR = ''star''"
| "shape_text HEXAGON = ''hexagon''"
| "shape_text PARALLELOGRAM = ''parallelogram''"

record DotNode =
  dn_Name :: string
  dn_Label :: string
  dn_Shape :: Shape
  dn_Size :: nat

datatype Edge =
    DirectedEdge (edge_Name: string) (edge_Label: string) (edge_From: string) (edge_To: string)
  | UndirectedEdge (edge_Name: string) (edge_Label: string) (edge_From: string) (edge_To: string)

record Cluster =
  cl_Type :: GraphType
  cl_Name :: string
  cl_Label :: string
  cl_nodes :: "(string, DotNode) gomap"
  cl_edges :: "(string, Edge) gomap"

record RootGraph =
  rg_Type :: GraphType
  rg_Label :: string
  rg_nodes :: "(string, DotNode) gomap"
  rg_clusters :: "(string, Cluster) gomap"
  rg_edges :: "(string, Edge) gomap"

text \<open>Both \<open>PutNode\<close> methods: a name that exists is left alone.\<close>

definition put_node ::
  "string \<Rightarrow> string \<Rightarrow> nat \<Rightarrow> Shape \<Rightarrow> (string, DotNode) gomap \<Rightarrow> (string, DotNode) gomap" where
  "put_node name label sz shape nodes =
     (if map_of nodes name \<noteq> None then nodes
      else gm_put name \<lparr>dn_Name = name, dn_Label = label, dn_Shape = shape, dn_Size = sz\<rparr> nodes)"

definition RG_PutNode :: "string \<Rightarrow> string \<Rightarrow> nat \<Rightarrow> Shape \<Rightarrow> RootGraph \<Rightarrow> RootGraph" where
  "RG_PutNode name label sz shape g = g\<lparr>rg_nodes := put_node name label sz shape (rg_nodes g)\<rparr>"

definition CL_PutNode :: "string \<Rightarrow> string \<Rightarrow> nat \<Rightarrow> Shape \<Rightarrow> Cluster \<Rightarrow> Cluster" where
  "CL_PutNode name label sz shape g = g\<lparr>cl_nodes := put_node name label sz shape (cl_nodes g)\<rparr>"

definition PutCluster :: "Cluster \<Rightarrow> RootGraph \<Rightarrow> RootGraph" where
  "PutCluster graph g = g\<lparr>rg_clusters := gm_put (cl_Label graph) graph (rg_clusters g)\<rparr>"

fun constructEdge :: "GraphType \<Rightarrow> string \<Rightarrow> string \<Rightarrow> string \<Rightarrow> string \<Rightarrow> Edge" where
  "constructEdge DIGRAPH name label from to = DirectedEdge name label from to"
| "constructEdge GRAPH name label from to = UndirectedEdge name label from to"

definition RG_AddEdge :: "string \<Rightarrow> string \<Rightarrow> string \<Rightarrow> string \<Rightarrow> RootGraph \<Rightarrow> RootGraph" where
  "RG_AddEdge name label from to g =
     g\<lparr>rg_edges := gm_put name (constructEdge (rg_Type g) name label from to) (rg_edges g)\<rparr>"

definition CL_AddEdge :: "string \<Rightarrow> string \<Rightarrow> string \<Rightarrow> string \<Rightarrow> Cluster \<Rightarrow> Cluster" where
  "CL_AddEdge name label from to g =
     g\<lparr>cl_edges := gm_put name (constructEdge (cl_Type g) name label from to) (cl_edges g)\<rparr>"

definition NewSubGraph :: "string \<Rightarrow> string \<Rightarrow> GraphType \<Rightarrow> Cluster" where
  "NewSubGraph name label graphType =
     \<lparr>cl_Type = graphType, cl_Name = name, cl_Label = name, cl_nodes = [], cl_edges = []\<rparr>"

definition NewGraph :: "string \<Rightarrow> GraphType \<Rightarrow> RootGraph" where
  "NewGraph label graphType =
     \<lparr>rg_Type = graphType, rg_Label = label, rg_nodes = [], rg_clusters = [], rg_edges = []\<rparr>"

section \<open>Text\<close>

definition quoted :: "string \<Rightarrow> string" where
  "quoted s = CHR 0x22 # s @ [CHR 0x22]"

definition line :: "string \<Rightarrow> string" where
  "line s = s @ [CHR 0x0A]"

definition numColours :: nat where
  "numColours = 12"

definition node_hash :: "DotNode \<Rightarrow> nat" where
  "node_hash n = unat (fnv32a (dn_Name n)) mod numColours + 1"

definition node_DOT :: "DotNode \<Rightarrow> string" where
  "node_DOT n = line (''node[label='' @ quoted (dn_Label n) @ '',shape='' @ shape_text (dn_Shape n) @
     '', style='' @ quoted ''filled'' @ '', fillcolor='' @ itoa (node_hash n) @ '', width='' @ itoa (dn_Size n) @
     '', height='' @ itoa (dn_Size n) @ '', fixedsize=true] '' @ quoted (dn_Name n) @ '';'')"

fun edge_DOT :: "Edge \<Rightarrow> string" where
  "edge_DOT (DirectedEdge name label from to) =
     line (quoted from @ '' -> '' @ quoted to @ '' [label='' @ quoted label @ ''];'')"
| "edge_DOT (UndirectedEdge name label from to) =
     line (quoted from @ '' -- '' @ quoted to @ '' [label='' @ quoted label @ ''];'')"

fun writeContituents :: "('d \<Rightarrow> string) \<Rightarrow> string \<Rightarrow> 'd list \<Rightarrow> string" where
  "writeContituents dot result [] = result"
| "writeContituents dot result (x # elements) = writeContituents dot (result @ dot x) elements"

definition cluster_DOT :: "Cluster \<Rightarrow> string" where
  "cluster_DOT g =
     (let builder = line (''subgraph '' @ quoted (''cluster'' @ cl_Label g) @ '' {'') @ line (''label = '' @ quoted (cl_Label g));
          builder = writeContituents node_DOT builder (MapValues (cl_nodes g));
          builder = writeContituents edge_DOT builder (MapValues (cl_edges g))
      in builder @ line ''}'')"

definition RG_GetDOT :: "RootGraph \<Rightarrow> string" where
  "RG_GetDOT g =
     (let result = line (type_text (rg_Type g) @ '' {'') @ line ''node [colorscheme=set312];'' @ line ''layout = fdp;'';
          result = writeContituents node_DOT result (MapValues (rg_nodes g));
          result = writeContituents edge_DOT result (MapValues (rg_edges g));
          result = fold (\<lambda>(_, cluster) result. result @ cluster_DOT cluster) (rg_clusters g) result
      in result @ ''}'')"

section \<open>The graph of the meshes\<close>

record MeshDOTConverter =
  mc_meshes :: "(string, CtrlNode list) gomap"
  mc_destinations :: "(string, unit) gomap"

definition NewMeshGraphConverter :: "(string, CtrlNode list) gomap \<Rightarrow> MeshDOTConverter" where
  "NewMeshGraphConverter meshes = \<lparr>mc_meshes = meshes, mc_destinations = []\<rparr>"

abbreviation to_text :: "string \<Rightarrow> string \<Rightarrow> string" where
  "to_text a b \<equiv> a @ '' to '' @ b"

definition put_destination :: "string \<Rightarrow> MeshDOTConverter \<Rightarrow> MeshDOTConverter" where
  "put_destination d c = c\<lparr>mc_destinations := gm_put d () (mc_destinations c)\<rparr>"

text \<open>The edges along a path, between each element and the next.\<close>

fun path_edges :: "string list \<Rightarrow> RootGraph \<Rightarrow> RootGraph" where
  "path_edges (a # b # path) g = path_edges (b # path) (RG_AddEdge (to_text a b) [] a b g)"
| "path_edges _ g = g"

definition graph_route :: "CtrlNode \<Rightarrow> CtrlRoute \<Rightarrow> MeshDOTConverter \<times> RootGraph \<Rightarrow> MeshDOTConverter \<times> RootGraph" where
  "graph_route node route = (\<lambda>(c, g).
     if cr_Path route = [] then
       (c, RG_AddEdge (cr_Destination route) [] (cn_PublicKey node) (cr_Destination route) g)
     else
       let reversedPath = rev (cr_Path route);
           g = RG_AddEdge (to_text (cn_PublicKey node) (hd reversedPath)) [] (cn_PublicKey node) (hd reversedPath) g;
           c = fold (\<lambda>mesh c. if map_of (mc_meshes c) mesh = None then put_destination mesh c else c) (cr_Path route) c;
           g = path_edges reversedPath g
       in if cr_Destination route = ''::/0'' then
            (put_destination (cr_Destination route) c,
             RG_AddEdge (to_text (last reversedPath) (cr_Destination route)) [] (last reversedPath) (cr_Destination route) g)
          else (c, g))"

definition service_id :: "string \<Rightarrow> CtrlNode \<Rightarrow> string \<Rightarrow> string" where
  "service_id key node meshId = key @ cn_PublicKey node @ meshId"

definition putService :: "string \<Rightarrow> string \<Rightarrow> CtrlNode \<Rightarrow> RootGraph \<Rightarrow> RootGraph" where
  "putService key meshId node g =
     (let serviceID = service_id key node meshId
      in RG_AddEdge (to_text (cn_PublicKey node) serviceID) [] (cn_PublicKey node) serviceID
           (RG_PutNode serviceID key 1 PARALLELOGRAM g))"

text \<open>The label of a node without alias: its address, without the first character, on two lines.\<close>

definition node_label :: "CtrlNode \<Rightarrow> string option" where
  "node_label node =
     (let host = cn_WgHost node in
      if cn_Alias node \<noteq> [] then Some (cn_Alias node)
      else if length host < 21 then None
      else Some (drop 1 (take (length host - 20) host) @ [CHR 0x5C, CHR ''n''] @ drop (length host - 20) host))"

definition graphNode :: "CtrlNode \<Rightarrow> string \<Rightarrow> MeshDOTConverter \<times> RootGraph \<Rightarrow> (MeshDOTConverter \<times> RootGraph) option" where
  "graphNode node meshId cg =
     (case node_label node of
        None \<Rightarrow> None
      | Some alias \<Rightarrow>
          let cg1 = (fst cg, RG_PutNode (cn_PublicKey node) alias 2 CIRCLE (snd cg));
              cg2 = fold (graph_route node) (cn_Routes node) cg1
          in Some (fst cg2, fold (\<lambda>(service, _). putService service meshId node) (cn_Services node) (snd cg2)))"

fun graph_nodes ::
  "CtrlNode list \<Rightarrow> string \<Rightarrow> MeshDOTConverter \<times> RootGraph \<Rightarrow> (MeshDOTConverter \<times> RootGraph) option" where
  "graph_nodes [] meshId cg = Some cg"
| "graph_nodes (node # nodes) meshId cg =
     (case graphNode node meshId cg of None \<Rightarrow> None | Some cg1 \<Rightarrow> graph_nodes nodes meshId cg1)"

definition generateMesh :: "string \<Rightarrow> MeshDOTConverter \<times> RootGraph \<Rightarrow> (MeshDOTConverter \<times> RootGraph) option" where
  "generateMesh meshId cg =
     (let nodes = (case map_of (mc_meshes (fst cg)) meshId of None \<Rightarrow> [] | Some ns \<Rightarrow> ns) in
      case graph_nodes nodes meshId (fst cg, RG_PutNode meshId meshId 1 CIRCLE (snd cg)) of
        None \<Rightarrow> None
      | Some (c, g) \<Rightarrow>
          Some (c, fold (\<lambda>node. RG_AddEdge (to_text (cn_PublicKey node) meshId) [] (cn_PublicKey node) meshId) nodes g))"

fun generate_meshes :: "string list \<Rightarrow> MeshDOTConverter \<times> RootGraph \<Rightarrow> (MeshDOTConverter \<times> RootGraph) option" where
  "generate_meshes [] cg = Some cg"
| "generate_meshes (meshId # ids) cg =
     (case generateMesh meshId cg of None \<Rightarrow> None | Some cg1 \<Rightarrow> generate_meshes ids cg1)"

definition mesh_graph :: "MeshDOTConverter \<Rightarrow> RootGraph option" where
  "mesh_graph c =
     map_option (\<lambda>(c1, g).
         fold (\<lambda>d. RG_PutNode d d 1 HEXAGON) (map fst (mc_destinations c1))
           (fold (\<lambda>m. RG_PutNode m m 1 CIRCLE) (map fst (mc_meshes c1)) g))
       (generate_meshes (map fst (mc_meshes c)) (c, NewGraph ''Smegmesh'' GRAPH))"

definition Generate :: "MeshDOTConverter \<Rightarrow> string option" where
  "Generate c = map_option RG_GetDOT (mesh_graph c)"

section \<open>Every edge joins declared nodes\<close>

abbreviation node_names :: "RootGraph \<Rightarrow> string set" where
  "node_names g \<equiv> dom (map_of (rg_nodes g))"

text \<open>Names that are or will be declared, and edges between them.\<close>

definition drawn :: "MeshDOTConverter \<Rightarrow> RootGraph \<Rightarrow> string set" where
  "drawn c g = node_names g \<union> dom (map_of (mc_meshes c)) \<union> dom (map_of (mc_destinations c))"

definition edges_within :: "string set \<Rightarrow> RootGraph \<Rightarrow> bool" where
  "edges_within S g \<longleftrightarrow> (\<forall>e \<in> snd ` set (rg_edges g). edge_From e \<in> S \<and> edge_To e \<in> S)"

lemma graph_frame [frame_simps, simp]:
  "rg_nodes (RG_AddEdge n l a b g) = rg_nodes g" "rg_edges (RG_PutNode n l z s g) = rg_edges g"
  "node_names (RG_PutNode n l z s g) = insert n (node_names g)"
  "mc_meshes (put_destination d c) = mc_meshes c"
  "dom (map_of (mc_destinations (put_destination d c))) = insert d (dom (map_of (mc_destinations c)))"
  by (auto simp: RG_AddEdge_def RG_PutNode_def put_node_def put_destination_def)

lemma drawn_frame [frame_simps, simp]:
  "drawn c (RG_AddEdge n l a b g) = drawn c g" "drawn c (RG_PutNode n l z s g) = insert n (drawn c g)"
  "drawn (put_destination d c) g = insert d (drawn c g)"
  by (auto simp: drawn_def)

lemma edges_within_mono: "edges_within S g \<Longrightarrow> S \<subseteq> T \<Longrightarrow> edges_within T g"
  by (auto simp: edges_within_def)

lemma edges_within_PutNode [simp]: "edges_within S (RG_PutNode n l z s g) = edges_within S g"
  by (simp add: edges_within_def)

lemma edges_within_AddEdge:
  assumes "edges_within S g" and "a \<in> S" and "b \<in> S"
  shows "edges_within S (RG_AddEdge n l a b g)"
proof -
  have "edge_From (constructEdge (rg_Type g) n l a b) = a" "edge_To (constructEdge (rg_Type g) n l a b) = b"
    by (cases "rg_Type g", simp_all)+
  moreover have "snd ` set (rg_edges (RG_AddEdge n l a b g)) \<subseteq> insert (constructEdge (rg_Type g) n l a b) (snd ` set (rg_edges g))"
    using snd_gm_put by (simp add: RG_AddEdge_def)
  ultimately show ?thesis using assms unfolding edges_within_def by (metis insertE subsetD)
qed

lemma path_edges_frame [frame_simps, simp]:
  "rg_nodes (path_edges path g) = rg_nodes g" "drawn c (path_edges path g) = drawn c g"
proof -
  show "rg_nodes (path_edges path g) = rg_nodes g" by (induction path g rule: path_edges.induct) simp_all
  then show "drawn c (path_edges path g) = drawn c g" by (simp add: drawn_def)
qed

lemma path_edges_within: "edges_within S g \<Longrightarrow> set path \<subseteq> S \<Longrightarrow> edges_within S (path_edges path g)"
  by (induction path g rule: path_edges.induct) (simp_all add: edges_within_AddEdge)

text \<open>A step keeps the meshes, draws what was drawn, and keeps edges between drawn names.\<close>

definition draws :: "MeshDOTConverter \<times> RootGraph \<Rightarrow> MeshDOTConverter \<times> RootGraph \<Rightarrow> bool" where
  "draws cg cg' \<longleftrightarrow> mc_meshes (fst cg') = mc_meshes (fst cg) \<and> drawn (fst cg) (snd cg) \<subseteq> drawn (fst cg') (snd cg')
     \<and> node_names (snd cg) \<subseteq> node_names (snd cg')"

definition sound :: "MeshDOTConverter \<times> RootGraph \<Rightarrow> bool" where
  "sound cg \<longleftrightarrow> edges_within (drawn (fst cg) (snd cg)) (snd cg)"

lemma draws_refl [simp]: "draws cg cg"
  by (simp add: draws_def)

lemma draws_trans: "draws a b \<Longrightarrow> draws b c \<Longrightarrow> draws a c"
  unfolding draws_def by (intro conjI) (simp, blast+)

lemma draws_fold: "(\<And>x cg. x \<in> set xs \<Longrightarrow> draws cg (f x cg)) \<Longrightarrow> draws cg (fold f xs cg)"
proof (induction xs arbitrary: cg)
  case (Cons x xs)
  then have "draws cg (f x cg)" "draws (f x cg) (fold f xs (f x cg))" by simp_all
  then show ?case by (auto intro: draws_trans)
qed simp

lemma mark_destinations:
  "mc_meshes (fold (\<lambda>mesh c. if map_of (mc_meshes c) mesh = None then put_destination mesh c else c) path c) = mc_meshes c
    \<and> drawn c g \<union> set path \<subseteq> drawn (fold (\<lambda>mesh c. if map_of (mc_meshes c) mesh = None then put_destination mesh c else c) path c) g"
proof (induction path arbitrary: c)
  case (Cons m path)
  let ?c = "if map_of (mc_meshes c) m = None then put_destination m c else c"
  have "mc_meshes ?c = mc_meshes c" "insert m (drawn c g) \<subseteq> drawn ?c g" by (auto simp: drawn_def)
  with Cons [of ?c] show ?case by auto
qed simp

lemma draws_route: "draws cg (graph_route node route cg)"
  using mark_destinations [of "cr_Path route" "fst cg" "snd cg"]
  by (cases cg) (auto simp: draws_def graph_route_def Let_def)

lemma sound_route:
  assumes "sound (c, g)" and "cn_PublicKey node \<in> drawn c g" and "cr_Path route \<noteq> []"
  shows "sound (graph_route node route (c, g))"
proof -
  let ?path = "rev (cr_Path route)"
  define c1 where "c1 = fold (\<lambda>mesh c. if map_of (mc_meshes c) mesh = None then put_destination mesh c else c) (cr_Path route) c"
  define g1 where "g1 = path_edges ?path (RG_AddEdge (to_text (cn_PublicKey node) (hd ?path)) [] (cn_PublicKey node) (hd ?path) g)"
  have path: "drawn c g \<union> set ?path \<subseteq> drawn c1 g" using mark_destinations [of "cr_Path route" c g] by (simp add: c1_def)
  have ends: "hd ?path \<in> set ?path" "last ?path \<in> set ?path" using assms(3) by (metis hd_in_set rev_is_Nil_conv, metis last_in_set rev_is_Nil_conv)
  have "edges_within (drawn c1 g) g" using assms(1) path by (auto simp: sound_def intro: edges_within_mono)
  then have "edges_within (drawn c1 g) (RG_AddEdge (to_text (cn_PublicKey node) (hd ?path)) [] (cn_PublicKey node) (hd ?path) g)"
    using path ends(1) assms(2) by (intro edges_within_AddEdge) auto
  from path_edges_within [OF this, of ?path] have g1: "edges_within (drawn c1 g) g1" "drawn c1 g1 = drawn c1 g"
    using path by (simp_all add: g1_def)
  have "edges_within (insert (cr_Destination route) (drawn c1 g)) (RG_AddEdge n [] (last ?path) (cr_Destination route) g1)" for n
    using g1(1) path ends(2) by (intro edges_within_AddEdge) (auto intro: edges_within_mono)
  moreover have "graph_route node route (c, g) = (if cr_Destination route = ''::/0'' then
      (put_destination (cr_Destination route) c1,
       RG_AddEdge (to_text (last ?path) (cr_Destination route)) [] (last ?path) (cr_Destination route) g1) else (c1, g1))"
    using assms(3) by (simp only: graph_route_def Let_def c1_def g1_def prod.case if_False)
  ultimately show ?thesis using g1 by (simp only: sound_def fst_conv snd_conv drawn_frame simp_thms split: if_split)
qed

lemma draws_service: "draws (c, g) (c, putService key meshId node g)"
  by (auto simp: draws_def putService_def Let_def)

lemma sound_service: "sound (c, g) \<Longrightarrow> cn_PublicKey node \<in> drawn c g \<Longrightarrow> sound (c, putService key meshId node g)"
  by (auto simp: sound_def putService_def Let_def intro!: edges_within_AddEdge elim: edges_within_mono)

lemma services_drawn:
  "draws (c, g) (c, fold (\<lambda>(service, _). putService service meshId node) services g)
    \<and> (sound (c, g) \<and> cn_PublicKey node \<in> drawn c g \<longrightarrow> sound (c, fold (\<lambda>(service, _). putService service meshId node) services g))
    \<and> (\<forall>(service, v) \<in> set services. service_id service node meshId
        \<in> node_names (fold (\<lambda>(service, _). putService service meshId node) services g))"
  (is "?P services g")
proof (induction services arbitrary: g)
  case (Cons sv services)
  obtain key v where sv: "sv = (key, v)" by force
  let ?g = "putService key meshId node g"
  have "draws (c, g) (c, ?g)" and names: "service_id key node meshId \<in> node_names ?g"
    by (rule draws_service) (simp add: putService_def Let_def)
  moreover note IH = Cons [of ?g]
  ultimately have "draws (c, g) (c, fold (\<lambda>(service, _). putService service meshId node) services ?g)"
    by (blast intro: draws_trans)
  moreover have "cn_PublicKey node \<in> drawn c ?g" if "cn_PublicKey node \<in> drawn c g"
    using that draws_service [of c g key meshId node] by (auto simp: draws_def)
  moreover have "service_id key node meshId \<in> node_names (fold (\<lambda>(service, _). putService service meshId node) services ?g)"
    using IH names by (auto simp: draws_def simp del: domIff)
  ultimately show ?case using IH by (auto simp: sv sound_service simp del: domIff)
qed (simp add: sound_def)

definition node_drawn :: "string \<Rightarrow> CtrlNode \<Rightarrow> RootGraph \<Rightarrow> bool" where
  "node_drawn meshId node g \<longleftrightarrow> cn_PublicKey node \<in> node_names g
     \<and> (\<forall>(service, v) \<in> set (cn_Services node). service_id service node meshId \<in> node_names g)"

lemma node_drawn_mono: "node_drawn meshId node g \<Longrightarrow> node_names g \<subseteq> node_names g' \<Longrightarrow> node_drawn meshId node g'"
  unfolding node_drawn_def by blast

abbreviation full_paths :: "CtrlNode \<Rightarrow> bool" where
  "full_paths node \<equiv> \<forall>route \<in> set (cn_Routes node). cr_Path route \<noteq> []"

lemma routes_drawn:
  "draws cg (fold (graph_route node) routes cg)"
  "sound cg \<Longrightarrow> cn_PublicKey node \<in> drawn (fst cg) (snd cg) \<Longrightarrow> \<forall>route \<in> set routes. cr_Path route \<noteq> []
    \<Longrightarrow> sound (fold (graph_route node) routes cg)"
proof -
  show "draws cg (fold (graph_route node) routes cg)" by (intro draws_fold draws_route)
  show "sound (fold (graph_route node) routes cg)"
    if "sound cg" "cn_PublicKey node \<in> drawn (fst cg) (snd cg)" "\<forall>route \<in> set routes. cr_Path route \<noteq> []"
    using that
  proof (induction routes arbitrary: cg)
    case (Cons r routes)
    have "draws cg (graph_route node r cg)" by (rule draws_route)
    with Cons.prems have "cn_PublicKey node \<in> drawn (fst (graph_route node r cg)) (snd (graph_route node r cg))"
      by (auto simp: draws_def)
    moreover have "sound (graph_route node r cg)" using Cons.prems by (cases cg) (auto intro: sound_route)
    ultimately show ?case using Cons by simp
  qed simp
qed

lemma graphNode_drawn:
  assumes "graphNode node meshId cg = Some cg'"
  shows "draws cg cg' \<and> node_drawn meshId node (snd cg') \<and> (sound cg \<and> full_paths node \<longrightarrow> sound cg')"
proof -
  obtain label where "node_label node = Some label" using assms by (auto simp: graphNode_def split: option.splits)
  define cg1 where "cg1 = (fst cg, RG_PutNode (cn_PublicKey node) label 2 CIRCLE (snd cg))"
  define cg2 where "cg2 = fold (graph_route node) (cn_Routes node) cg1"
  have cg': "cg' = (fst cg2, fold (\<lambda>(service, _). putService service meshId node) (cn_Services node) (snd cg2))"
    using assms \<open>node_label node = Some label\<close> by (simp add: graphNode_def Let_def cg1_def cg2_def)
  have 1: "draws cg cg1" "cn_PublicKey node \<in> node_names (snd cg1)" "sound cg \<longrightarrow> sound cg1"
    by (auto simp: draws_def cg1_def sound_def elim: edges_within_mono)
  have 2: "draws cg1 cg2" "sound cg1 \<and> full_paths node \<longrightarrow> sound cg2"
    using routes_drawn [of cg1 node "cn_Routes node"] 1(2) by (auto simp: cg2_def drawn_def)
  have 3: "cn_PublicKey node \<in> node_names (snd cg2)" using 1(2) 2(1) unfolding draws_def by blast
  then have "cn_PublicKey node \<in> drawn (fst cg2) (snd cg2)" by (simp add: drawn_def)
  with services_drawn [where c = "fst cg2" and g = "snd cg2" and meshId = meshId and node = node and services = "cn_Services node"]
  have 4: "draws cg2 cg'" "sound cg2 \<longrightarrow> sound cg'"
    "\<forall>(service, v) \<in> set (cn_Services node). service_id service node meshId \<in> node_names (snd cg')"
    by (simp_all add: cg')
  have "cn_PublicKey node \<in> node_names (snd cg')" using 3 4(1) unfolding draws_def by blast
  then show ?thesis using 1 2 4 unfolding node_drawn_def by (blast intro: draws_trans)
qed

lemma graph_nodes_drawn:
  "graph_nodes nodes meshId cg = Some cg' \<Longrightarrow>
    draws cg cg' \<and> (\<forall>node \<in> set nodes. node_drawn meshId node (snd cg'))
    \<and> (sound cg \<and> (\<forall>node \<in> set nodes. full_paths node) \<longrightarrow> sound cg')"
proof (induction nodes arbitrary: cg)
  case (Cons node nodes)
  then obtain cg1 where cg1: "graphNode node meshId cg = Some cg1" "graph_nodes nodes meshId cg1 = Some cg'"
    by (auto split: option.splits)
  note IH = Cons.IH [OF cg1(2)] and step = graphNode_drawn [OF cg1(1)]
  have "node_drawn meshId node (snd cg')" using IH step by (auto intro: node_drawn_mono simp: draws_def)
  then show ?case using IH step by (auto intro: draws_trans)
qed simp

lemma mesh_edges:
  "sound (c, g) \<Longrightarrow> meshId \<in> drawn c g \<Longrightarrow> \<forall>node \<in> set nodes. cn_PublicKey node \<in> drawn c g \<Longrightarrow>
    sound (c, fold (\<lambda>node. RG_AddEdge (to_text (cn_PublicKey node) meshId) [] (cn_PublicKey node) meshId) nodes g)"
  by (induction nodes arbitrary: g) (auto simp: sound_def edges_within_AddEdge)

lemma mesh_edges_nodes [simp]:
  "rg_nodes (fold (\<lambda>node. RG_AddEdge (f node) [] (a node) (b node)) nodes g) = rg_nodes g"
  by (induction nodes arbitrary: g) simp_all

definition mesh_drawn :: "string \<Rightarrow> CtrlNode list \<Rightarrow> RootGraph \<Rightarrow> bool" where
  "mesh_drawn meshId nodes g \<longleftrightarrow> meshId \<in> node_names g \<and> (\<forall>node \<in> set nodes. node_drawn meshId node g)"

lemma mesh_drawn_mono: "mesh_drawn meshId nodes g \<Longrightarrow> node_names g \<subseteq> node_names g' \<Longrightarrow> mesh_drawn meshId nodes g'"
  unfolding mesh_drawn_def by (blast intro: node_drawn_mono)

lemma generateMesh_drawn:
  assumes "generateMesh meshId cg = Some cg'" and "map_of (mc_meshes (fst cg)) meshId = Some nodes"
  shows "draws cg cg' \<and> mesh_drawn meshId nodes (snd cg') \<and> (sound cg \<and> (\<forall>node \<in> set nodes. full_paths node) \<longrightarrow> sound cg')"
proof -
  let ?cg = "(fst cg, RG_PutNode meshId meshId 1 CIRCLE (snd cg))"
  let ?edges = "fold (\<lambda>node. RG_AddEdge (to_text (cn_PublicKey node) meshId) [] (cn_PublicKey node) meshId) nodes"
  obtain c g where run: "graph_nodes nodes meshId ?cg = Some (c, g)" and cg': "cg' = (c, ?edges g)"
    using assms by (auto simp: generateMesh_def Let_def split: option.splits)
  note nodes = graph_nodes_drawn [OF run, unfolded snd_conv]
  have start: "draws cg ?cg" "sound cg \<Longrightarrow> sound ?cg"
    by (auto simp: draws_def sound_def elim: edges_within_mono)
  have "drawn c (?edges g) = drawn c g" by (simp add: drawn_def)
  with nodes have "draws ?cg cg'" by (simp add: draws_def cg')
  moreover have "meshId \<in> node_names g" using nodes by (simp add: draws_def)
  then have "mesh_drawn meshId nodes (snd cg')" using nodes by (simp add: mesh_drawn_def node_drawn_def cg')
  moreover have "sound cg'" if "sound (c, g)"
    unfolding cg' using that nodes \<open>meshId \<in> node_names g\<close>
    by (intro mesh_edges) (auto simp: drawn_def node_drawn_def)
  ultimately show ?thesis using start nodes by (blast intro: draws_trans)
qed

lemma generate_meshes_drawn:
  assumes "generate_meshes ids cg = Some cg'" and "set ids \<subseteq> dom (map_of (mc_meshes (fst cg)))"
  shows "draws cg cg' \<and> (\<forall>meshId \<in> set ids. mesh_drawn meshId (the (map_of (mc_meshes (fst cg)) meshId)) (snd cg'))
    \<and> (sound cg \<and> (\<forall>meshId \<in> set ids. \<forall>node \<in> set (the (map_of (mc_meshes (fst cg)) meshId)). full_paths node) \<longrightarrow> sound cg')"
  using assms
proof (induction ids arbitrary: cg)
  case (Cons meshId ids)
  then obtain cg1 nodes where cg1: "generateMesh meshId cg = Some cg1" "generate_meshes ids cg1 = Some cg'"
    and nodes: "map_of (mc_meshes (fst cg)) meshId = Some nodes" by (auto split: option.splits)
  note step = generateMesh_drawn [OF cg1(1) nodes]
  then have same: "mc_meshes (fst cg1) = mc_meshes (fst cg)" by (simp add: draws_def)
  note IH = Cons.IH [OF cg1(2), unfolded same]
  have "mesh_drawn meshId nodes (snd cg')" using IH step Cons.prems(2) by (auto intro: mesh_drawn_mono simp: draws_def)
  then show ?case using IH step nodes Cons.prems(2) by (auto intro: draws_trans)
qed simp

lemma put_all:
  "node_names (fold (\<lambda>d. RG_PutNode d d k shape) ds g) = set ds \<union> node_names g"
  "rg_edges (fold (\<lambda>d. RG_PutNode d d k shape) ds g) = rg_edges g"
  by (induction ds arbitrary: g) auto

text \<open>C34: the graph of the meshes, when no route has an empty path. Every edge joins two nodes that the graph
  declares, so the layout program never invents a node; and every mesh, every node of a mesh and
  every service of a node is declared.\<close>

theorem graph_edges_join_declared_nodes:
  assumes "mesh_graph (NewMeshGraphConverter meshes) = Some g" and "gm_wf meshes"
    and "\<forall>(meshId, nodes) \<in> set meshes. \<forall>node \<in> set nodes. \<forall>route \<in> set (cn_Routes node). cr_Path route \<noteq> []"
  shows "(\<forall>(name, e) \<in> set (rg_edges g). edge_From e \<in> node_names g \<and> edge_To e \<in> node_names g)
    \<and> (\<forall>(meshId, nodes) \<in> set meshes. meshId \<in> node_names g \<and> (\<forall>node \<in> set nodes. cn_PublicKey node \<in> node_names g
        \<and> (\<forall>(service, v) \<in> set (cn_Services node). service_id service node meshId \<in> node_names g)))"
proof -
  let ?c = "NewMeshGraphConverter meshes" and ?g = "NewGraph ''Smegmesh'' GRAPH"
  obtain c1 g1 where run: "generate_meshes (map fst meshes) (?c, ?g) = Some (c1, g1)"
    and g: "g = fold (\<lambda>d. RG_PutNode d d 1 HEXAGON) (map fst (mc_destinations c1))
      (fold (\<lambda>m. RG_PutNode m m 1 CIRCLE) (map fst (mc_meshes c1)) g1)"
    using assms(1) by (auto simp: mesh_graph_def NewMeshGraphConverter_def)
  have look: "(meshId, nodes) \<in> set meshes \<longleftrightarrow> map_of meshes meshId = Some nodes" for meshId nodes
    using assms(2) by (simp add: gm_entry)
  have names: "node_names g = drawn c1 g1" and edges: "rg_edges g = rg_edges g1"
    unfolding g put_all drawn_def by (simp_all add: dom_map_of_conv_image_fst Un_ac)
  have "set (map fst meshes) \<subseteq> dom (map_of (mc_meshes ?c))"
    by (simp add: NewMeshGraphConverter_def dom_map_of_conv_image_fst)
  from generate_meshes_drawn [OF run] this
  have all: "\<forall>meshId \<in> fst ` set meshes. mesh_drawn meshId (the (map_of meshes meshId)) g1"
    and snd: "(\<forall>meshId \<in> fst ` set meshes. \<forall>node \<in> set (the (map_of meshes meshId)). full_paths node) \<Longrightarrow> sound (c1, g1)"
    by (simp_all add: NewMeshGraphConverter_def sound_def edges_within_def NewGraph_def)
  have "sound (c1, g1)" using assms(3) look by (intro snd) fastforce
  then have "\<forall>(name, e) \<in> set (rg_edges g). edge_From e \<in> node_names g \<and> edge_To e \<in> node_names g"
    unfolding names edges sound_def edges_within_def by force
  moreover have "mesh_drawn meshId nodes g" if "(meshId, nodes) \<in> set meshes" for meshId nodes
  proof -
    have "mesh_drawn meshId nodes g1" using all that look by (metis fst_conv image_eqI option.sel)
    then show ?thesis by (rule mesh_drawn_mono) (auto simp: names drawn_def)
  qed
  ultimately show ?thesis unfolding mesh_drawn_def node_drawn_def by blast
qed

definition demo_ctrl_node :: CtrlNode where
  "demo_ctrl_node = \<lparr>cn_HostEndpoint = ''h'', cn_WgEndpoint = ''w'', cn_PublicKey = ''k1'', cn_WgHost = [], cn_Timestamp = 0,
     cn_Routes = [\<lparr>cr_Destination = ''::/0'', cr_Path = [''other'', ''m'']\<rparr>], cn_Description = [], cn_Alias = ''bob'',
     cn_Services = [(''web'', ''80'')], cn_Stats = zeroStats\<rparr>"

theorem graph_edges_join_declared_nodes_witness:
  "\<exists>g. mesh_graph (NewMeshGraphConverter [(''m'', [demo_ctrl_node])]) = Some g \<and> length (rg_edges g) = 4
    \<and> (\<forall>(name, e) \<in> set (rg_edges g). edge_From e \<in> node_names g \<and> edge_To e \<in> node_names g)"
proof -
  have "map_option (\<lambda>g. length (rg_edges g)) (mesh_graph (NewMeshGraphConverter [(''m'', [demo_ctrl_node])])) = Some 4"
    by code_simp
  then obtain g where g: "mesh_graph (NewMeshGraphConverter [(''m'', [demo_ctrl_node])]) = Some g" "length (rg_edges g) = 4"
    by auto
  with graph_edges_join_declared_nodes [OF g(1)] show ?thesis by (auto simp: gm_wf_def demo_ctrl_node_def)
qed

lemma graph_nodes_panics: "graph_nodes nodes meshId cg = None \<longleftrightarrow> (\<exists>node \<in> set nodes. node_label node = None)"
  by (induction nodes arbitrary: cg) (auto simp: graphNode_def Let_def split: option.splits)

lemma generateMesh_panics:
  "generateMesh meshId cg = None \<longleftrightarrow>
    (\<exists>nodes. map_of (mc_meshes (fst cg)) meshId = Some nodes \<and> (\<exists>node \<in> set nodes. node_label node = None))"
proof (cases "map_of (mc_meshes (fst cg)) meshId")
  case (Some nodes)
  then have "generateMesh meshId cg = None
      \<longleftrightarrow> graph_nodes nodes meshId (fst cg, RG_PutNode meshId meshId 1 CIRCLE (snd cg)) = None"
    by (auto simp: generateMesh_def split: option.splits)
  with Some show ?thesis by (simp only: graph_nodes_panics) simp
qed (simp add: generateMesh_def)

lemma generate_meshes_panics:
  assumes "set ids \<subseteq> dom (map_of (mc_meshes (fst cg)))"
  shows "generate_meshes ids cg = None \<longleftrightarrow>
    (\<exists>meshId \<in> set ids. \<exists>node \<in> set (the (map_of (mc_meshes (fst cg)) meshId)). node_label node = None)"
  using assms
proof (induction ids arbitrary: cg)
  case (Cons meshId ids)
  then obtain nodes where nodes: "map_of (mc_meshes (fst cg)) meshId = Some nodes" by auto
  show ?case
  proof (cases "generateMesh meshId cg")
    case None
    then show ?thesis using nodes generateMesh_panics [of meshId cg] by auto
  next
    case (Some cg1)
    then have "mc_meshes (fst cg1) = mc_meshes (fst cg)"
      using generateMesh_drawn [OF Some nodes] by (simp add: draws_def)
    moreover have "\<not> (\<exists>node \<in> set nodes. node_label node = None)" using nodes generateMesh_panics [of meshId cg] Some by auto
    ultimately show ?thesis using Cons Some nodes by auto
  qed
qed simp

text \<open>Drawing the meshes panics exactly when some node has no alias and the text of its address has fewer
  than 21 characters; otherwise the text of the graph is produced.\<close>

lemma graph_panics_on_short_addresses:
  assumes "gm_wf meshes"
  shows "Generate (NewMeshGraphConverter meshes) = None \<longleftrightarrow>
    (\<exists>(meshId, nodes) \<in> set meshes. \<exists>node \<in> set nodes. cn_Alias node = [] \<and> length (cn_WgHost node) < 21)"
proof -
  have label: "node_label node = None \<longleftrightarrow> cn_Alias node = [] \<and> length (cn_WgHost node) < 21" for node
    by (simp add: node_label_def Let_def)
  have ids: "set (map fst meshes) \<subseteq> dom (map_of (mc_meshes (fst (NewMeshGraphConverter meshes, g))))" for g :: RootGraph
    by (simp add: NewMeshGraphConverter_def dom_map_of_conv_image_fst)
  have look: "map_of meshes (fst p) = Some (snd p)" if "p \<in> set meshes" for p
    using that assms gm_entry [of meshes "fst p" "snd p"] by simp
  have "Generate (NewMeshGraphConverter meshes) = None \<longleftrightarrow>
      (\<exists>p \<in> set meshes. \<exists>node \<in> set (the (map_of meshes (fst p))). node_label node = None)"
    using generate_meshes_panics [OF ids, of "NewGraph ''Smegmesh'' GRAPH"]
    by (simp add: Generate_def mesh_graph_def NewMeshGraphConverter_def)
  also have "\<dots> \<longleftrightarrow> (\<exists>p \<in> set meshes. \<exists>node \<in> set (snd p). node_label node = None)"
    by (intro bex_cong refl) (simp add: look)
  finally show ?thesis by (simp only: label case_prod_unfold)
qed


end
