(* ===== verification/Dns.thy ===== *)
theory Dns
  imports Ipc Ip_Text
begin

text \<open>
  \<open>src/pkg/dns/dns.go\<close> and \<open>src/pkg/lib/regex.go\<close>: names \<open>meshId.alias.smeg.\<close> resolved through queries to the
  daemon. The regular expression of the resolver is modelled by what Go's engine returns for it: the
  leftmost match, the first group as long as possible, then the second. Decoding of the reply and
  the construction of a resource record belong to libraries and are arguments; \<open>alias_law\<close> is what the resolver relies on
  of the query engine and of JSON. \<open>None\<close> is a panic.
\<close>

section \<open>The regular expression\<close>

definition newline :: char where
  "newline = CHR 0x0A"

text \<open>A prefix that \<open>.+\<close> can match, the longest first, such that \<open>rest\<close> accepts what follows.\<close>

fun greedy :: "string \<Rightarrow> (string \<Rightarrow> 'a option) \<Rightarrow> nat \<Rightarrow> (string \<times> 'a) option" where
  "greedy s rest 0 = None"
| "greedy s rest (Suc n) =
     (if Suc n \<le> length s \<and> newline \<notin> set (take (Suc n) s) then
        (case rest (drop (Suc n) s) of Some r \<Rightarrow> Some (take (Suc n) s, r) | None \<Rightarrow> greedy s rest n)
      else greedy s rest n)"

definition dot_plus :: "(string \<Rightarrow> 'a option) \<Rightarrow> string \<Rightarrow> (string \<times> 'a) option" where
  "dot_plus rest s = greedy s rest (length s)"

definition lit :: "string \<Rightarrow> (string \<Rightarrow> 'a option) \<Rightarrow> string \<Rightarrow> 'a option" where
  "lit w rest s = (if take (length w) s = w then rest (drop (length w) s) else None)"

definition match_here :: "string \<Rightarrow> (string \<times> string) option" where
  "match_here = dot_plus (lit ''.'' (\<lambda>s. map_option fst (dot_plus (lit ''.smeg.'' (\<lambda>_. Some ())) s)))"

text \<open>\<open>FindStringSubmatch\<close>: the groups \<open>meshId\<close> and \<open>alias\<close> of the leftmost match.\<close>

fun find_submatch :: "string \<Rightarrow> (string \<times> string) option" where
  "find_submatch [] = None"
| "find_submatch (c # s) = (case match_here (c # s) of Some g \<Rightarrow> Some g | None \<Rightarrow> find_submatch s)"

text \<open>Without a match the slice of groups is nil, and indexing it panics.\<close>

definition MatchCaptureGroup :: "string \<Rightarrow> (string, string) gomap option" where
  "MatchCaptureGroup payload =
     map_option (\<lambda>(m, a). gm_put ''alias'' a (gm_put ''meshId'' m [])) (find_submatch payload)"

section \<open>The resolver\<close>

definition alias_query :: "string \<Rightarrow> string" where
  "alias_query name = ''[?alias == '' @ [CHR 0x27] @ name @ [CHR 0x27] @ ''] | [0]''"

text \<open>The decoder returns an error, JSON's \<open>null\<close>, or a node; a nil address is the empty list.\<close>

definition queryMesh ::
  "'s ipc_client \<Rightarrow> (string \<Rightarrow> 'e + QueryNode option) \<Rightarrow> 's \<Rightarrow> string \<Rightarrow> string \<Rightarrow> ip" where
  "queryMesh client unmarshal s meshId name =
     (case ic_Query client meshId (alias_query name) s of
        Inl _ \<Rightarrow> []
      | Inr reply \<Rightarrow>
          (case unmarshal reply of
             Inl _ \<Rightarrow> []
           | Inr None \<Rightarrow> []
           | Inr (Some node) \<Rightarrow> (case ParseCIDR (qn_WgHost node) of None \<Rightarrow> [] | Some (a, _) \<Rightarrow> a)))"

definition TypeAAAA :: nat where
  "TypeAAAA = 28"

record Question =
  q_Name :: string
  q_Qtype :: nat

definition answer_text :: "string \<Rightarrow> ip \<Rightarrow> string" where
  "answer_text name a = name @ '' AAAA '' @ ip_string a"

fun handleQuery ::
  "'s ipc_client \<Rightarrow> (string \<Rightarrow> 'e + QueryNode option) \<Rightarrow> (string \<Rightarrow> 'r option) \<Rightarrow> 's \<Rightarrow> Question list \<Rightarrow> 'r list \<Rightarrow> 'r list option" where
  "handleQuery client unmarshal newRR s [] answers = Some answers"
| "handleQuery client unmarshal newRR s (q # questions) answers =
     (if q_Qtype q = TypeAAAA then
        (case MatchCaptureGroup (q_Name q) of
           None \<Rightarrow> None
         | Some captured \<Rightarrow>
             if captured = [] then handleQuery client unmarshal newRR s questions answers
             else let ip = queryMesh client unmarshal s (the (map_of captured ''meshId'')) (the (map_of captured ''alias'')) in
               handleQuery client unmarshal newRR s questions
                 (case newRR (answer_text (q_Name q) ip) of None \<Rightarrow> answers | Some rr \<Rightarrow> answers @ [rr]))
      else handleQuery client unmarshal newRR s questions answers)"

record 'r Msg =
  msg_Opcode :: nat
  msg_Question :: "Question list"
  msg_Answer :: "'r list"
  msg_Authoritative :: bool

definition OpcodeQuery :: nat where
  "OpcodeQuery = 0"

text \<open>\<open>SetReply\<close> of the DNS library, which starts the reply from the request, is an argument.\<close>

definition handleDnsRequest ::
  "('r Msg \<Rightarrow> 'r Msg) \<Rightarrow> 's ipc_client \<Rightarrow> (string \<Rightarrow> 'e + QueryNode option) \<Rightarrow> (string \<Rightarrow> 'r option) \<Rightarrow> 's \<Rightarrow> 'r Msg \<Rightarrow> 'r Msg option" where
  "handleDnsRequest setReply client unmarshal newRR s r =
     (let msg = (setReply r)\<lparr>msg_Authoritative := True\<rparr>
      in if msg_Opcode r = OpcodeQuery then
           map_option (\<lambda>answers. msg\<lparr>msg_Answer := answers\<rparr>)
             (handleQuery client unmarshal newRR s (msg_Question msg) (msg_Answer msg))
         else Some msg)"

section \<open>What the expression matches\<close>

lemma greedy_None:
  "greedy s rest n = None \<longleftrightarrow> (\<forall>k. 0 < k \<and> k \<le> n \<and> k \<le> length s \<and> newline \<notin> set (take k s) \<longrightarrow> rest (drop k s) = None)"
proof (induction n)
  case (Suc n)
  then show ?case by (auto simp: le_Suc_eq split: option.splits)
qed simp

lemma greedy_longest:
  assumes "s = p @ t" and "p \<noteq> []" and "newline \<notin> set p" and "rest t = Some r" and "length p \<le> n"
    and "\<And>k. length p < k \<Longrightarrow> k \<le> length s \<Longrightarrow> rest (drop k s) = None"
  shows "greedy s rest n = Some (p, r)"
  using assms(5)
proof (induction n)
  case (Suc n)
  show ?case
  proof (cases "length p = Suc n")
    case True
    then have "take (Suc n) s = p" "drop (Suc n) s = t" using assms(1) by simp_all
    then show ?thesis using assms True by simp
  next
    case False
    then have "length p < Suc n" using Suc.prems by simp
    then have "Suc n \<le> length s \<Longrightarrow> rest (drop (Suc n) s) = None" using assms(6) by blast
    then show ?thesis using Suc False by (auto split: option.splits)
  qed
qed (use assms(2) in simp)

lemma dot_plus_None:
  "dot_plus rest s = None \<longleftrightarrow> (\<forall>p t. s = p @ t \<and> p \<noteq> [] \<and> newline \<notin> set p \<longrightarrow> rest t = None)"
proof -
  have "dot_plus rest s = None \<longleftrightarrow> (\<forall>k. 0 < k \<and> k \<le> length s \<and> newline \<notin> set (take k s) \<longrightarrow> rest (drop k s) = None)"
    by (auto simp: dot_plus_def greedy_None)
  also have "\<dots> \<longleftrightarrow> (\<forall>p t. s = p @ t \<and> p \<noteq> [] \<and> newline \<notin> set p \<longrightarrow> rest t = None)"
  proof (intro iffI allI impI; elim conjE)
    fix p t assume "s = p @ t" "p \<noteq> []" "newline \<notin> set p"
      "\<forall>k. 0 < k \<and> k \<le> length s \<and> newline \<notin> set (take k s) \<longrightarrow> rest (drop k s) = None"
    then show "rest t = None" by (auto dest!: spec [of _ "length p"])
  next
    fix k assume "0 < k" "k \<le> length s" "newline \<notin> set (take k s)"
      "\<forall>p t. s = p @ t \<and> p \<noteq> [] \<and> newline \<notin> set p \<longrightarrow> rest t = None"
    moreover from \<open>0 < k\<close> \<open>k \<le> length s\<close> have "take k s \<noteq> []" by auto
    ultimately show "rest (drop k s) = None" by (metis append_take_drop_id)
  qed
  finally show ?thesis .
qed

lemma lit_None: "lit w rest s = None \<longleftrightarrow> (\<forall>t. s = w @ t \<longrightarrow> rest t = None)"
  by (auto simp: lit_def) (metis append_take_drop_id)

text \<open>The part of a name that the expression needs.\<close>

definition named :: "string \<Rightarrow> string \<Rightarrow> string \<Rightarrow> bool" where
  "named m a s \<longleftrightarrow> m \<noteq> [] \<and> a \<noteq> [] \<and> newline \<notin> set m \<and> newline \<notin> set a \<and> (\<exists>post. s = m @ ''.'' @ a @ ''.smeg.'' @ post)"

lemma match_here_None: "match_here s = None \<longleftrightarrow> (\<forall>m a. \<not> named m a s)"
proof -
  have "match_here s = None \<longleftrightarrow> (\<forall>m t. s = m @ t \<and> m \<noteq> [] \<and> newline \<notin> set m \<longrightarrow> (\<forall>u. t = ''.'' @ u \<longrightarrow>
      (\<forall>a v. u = a @ v \<and> a \<noteq> [] \<and> newline \<notin> set a \<longrightarrow> (\<forall>post. v \<noteq> ''.smeg.'' @ post))))"
    unfolding match_here_def dot_plus_None lit_None option.map_disc_iff by blast
  then show ?thesis unfolding named_def by blast
qed

text \<open>A name of a mesh and an alias without dots: the expression splits it at the dot before the alias.\<close>

lemma match_here_name:
  assumes "m \<noteq> []" and "a \<noteq> []" and "newline \<notin> set m" and "newline \<notin> set a" and "CHR ''.'' \<notin> set a"
  shows "match_here (m @ ''.'' @ a @ ''.smeg.'') = Some (m, a)"
proof -
  let ?inner = "lit ''.smeg.'' (\<lambda>_. Some ())" and ?s = "m @ ''.'' @ a @ ''.smeg.''"
  have short: "?inner t = None" if "length t < 6" for t
    using that by (auto simp: lit_None)
  have "?inner (drop k (a @ ''.smeg.'')) = None" if "length a < k" for k by (rule short) (use that in simp)
  then have inner: "dot_plus ?inner (a @ ''.smeg.'') = Some (a, ())"
    unfolding dot_plus_def using assms by (intro greedy_longest [where t = "''.smeg.''"]) (auto simp: lit_def)
  have none: "dot_plus ?inner u = None" if "length u < 7" for u
    using that by (auto simp: dot_plus_None neq_Nil_conv intro!: short)
  have "lit ''.'' (\<lambda>s. map_option fst (dot_plus ?inner s)) (drop k ?s) = None" if "length m < k" for k
    unfolding lit_None
  proof (intro allI impI)
    fix u assume u: "drop k ?s = ''.'' @ u"
    let ?i = "k - length m - 1"
    have d: "drop ?i (a @ ''.smeg.'') = ''.'' @ u" using u that by (simp add: drop_Cons')
    have "a ! ?i = CHR ''.''" if "?i < length a" using d that by (simp add: Cons_nth_drop_Suc [symmetric])
    then have "\<not> ?i < length a" using assms(5) by (metis nth_mem)
    moreover have "length (drop ?i (a @ ''.smeg.'')) = Suc (length u)" unfolding d by simp
    ultimately have "length u < 7" by simp
    from none [OF this] show "map_option fst (dot_plus ?inner u) = None" by simp
  qed
  with inner show ?thesis
    unfolding match_here_def dot_plus_def [of _ ?s] using assms
    by (intro greedy_longest [where t = "''.'' @ a @ ''.smeg.''"]) (auto simp: lit_def)
qed

lemma find_submatch_None: "find_submatch s = None \<longleftrightarrow> (\<forall>pre t m a. s = pre @ t \<longrightarrow> \<not> named m a t)"
proof (induction s)
  case (Cons c s)
  have "(\<forall>pre t m a. c # s = pre @ t \<longrightarrow> \<not> named m a t) \<longleftrightarrow>
      (\<forall>m a. \<not> named m a (c # s)) \<and> (\<forall>pre t m a. s = pre @ t \<longrightarrow> \<not> named m a t)"
    by (metis append_eq_Cons_conv append_Cons append_Nil)
  with Cons show ?case using match_here_None [of "c # s"] by (auto split: option.splits)
qed (simp add: named_def)

lemma find_submatch_here: "match_here s = Some g \<Longrightarrow> find_submatch s = Some g"
  by (cases s) (simp_all add: match_here_def dot_plus_def)

lemma handleQuery_name:
  assumes "m \<noteq> []" and "a \<noteq> []" and "newline \<notin> set m" and "newline \<notin> set a" and "CHR ''.'' \<notin> set a"
    and "q_Name q = m @ ''.'' @ a @ ''.smeg.''" and "q_Qtype q = TypeAAAA"
  shows "handleQuery client unmarshal newRR s (q # qs) answers = handleQuery client unmarshal newRR s qs
    (answers @ (case newRR (answer_text (q_Name q) (queryMesh client unmarshal s m a)) of None \<Rightarrow> [] | Some rr \<Rightarrow> [rr]))"
  using assms(6,7) find_submatch_here [OF match_here_name [OF assms(1-5)]]
  by (simp add: MatchCaptureGroup_def Let_def split: option.splits)

section \<open>Names of nodes\<close>

text \<open>An alias that stands for itself between the quotes of a query.\<close>

definition plain_alias :: "string \<Rightarrow> bool" where
  "plain_alias a \<longleftrightarrow> CHR 0x27 \<notin> set a \<and> CHR 0x5C \<notin> set a"

text \<open>What the resolver relies on: the expression selects the first node with the alias, or null, and the
  address in its JSON text is read back by the decoder.\<close>

definition alias_law ::
  "(string \<Rightarrow> QueryNode list \<Rightarrow> rpc_error + 'j) \<Rightarrow> ('j \<Rightarrow> rpc_error + string) \<Rightarrow> (string \<Rightarrow> 'e + QueryNode option) \<Rightarrow> bool" where
  "alias_law search marshal unmarshal \<longleftrightarrow> (\<forall>a nodes. plain_alias a \<longrightarrow>
     (\<exists>j reply node. search (alias_query a) nodes = Inr j \<and> marshal j = Inr reply \<and> unmarshal reply = Inr node
       \<and> map_option qn_WgHost node = map_option qn_WgHost (find (\<lambda>n. qn_Alias n = a) nodes)))"

text \<open>The address the resolver should find.\<close>

definition named_address :: "(MeshNode \<Rightarrow> ip) \<Rightarrow> string \<Rightarrow> string \<Rightarrow> MeshManagerImpl \<Rightarrow> ip" where
  "named_address addr meshId a m =
     (case MM_GetMesh meshId m of
        None \<Rightarrow> []
      | Some mesh \<Rightarrow> (case find (\<lambda>n. Alias n = a) (mesh_nodes mesh) of None \<Rightarrow> [] | Some n \<Rightarrow> addr n))"

lemma find_map: "find P (map f xs) = map_option f (find (P \<circ> f) xs)"
  by (induction xs) auto

text \<open>A node that carries the text of an address is asked for that address.\<close>

abbreviation addressed :: "(MeshNode \<Rightarrow> ip) \<Rightarrow> MeshNode \<Rightarrow> bool" where
  "addressed addr n \<equiv> length (addr n) = 16 \<and> To4 (addr n) = [] \<and> WgHost n = ip_string (addr n) @ ''/128''"

lemma addressed_query_node:
  "addressed addr n \<Longrightarrow> ParseCIDR (qn_WgHost (MeshNodeToQueryNode W n)) = Some (addr n, host_net (addr n))"
  by (simp add: MeshNodeToQueryNode_def GetWgHost_def host_text_roundtrip host_net_text)

lemma map_of_GetMeshes: "gm_wf (mm_meshes m) \<Longrightarrow> map_of (GetMeshes m) meshId = MM_GetMesh meshId m"
  using map_of_gm_build [of "mm_meshes m" id meshId] by (simp add: GetMeshes_def gm_build_def MM_GetMesh_def option.map_id)

lemma queryMesh_named:
  assumes "alias_law (de_search D) (de_marshal D) unmarshal" and "plain_alias a"
    and "\<forall>mesh. MM_GetMesh meshId (cs_MeshManager n) = Some mesh \<longrightarrow> (\<forall>node \<in> set (mesh_nodes mesh). addressed addr node)"
    and wf: "gm_wf (mm_meshes (cs_MeshManager n))"
  shows "queryMesh (SmegmeshIpc D) unmarshal (n, lg) meshId a = named_address addr meshId a (cs_MeshManager n)"
proof (cases "MM_GetMesh meshId (cs_MeshManager n)")
  case None
  then show ?thesis
    by (simp add: queryMesh_def SmegmeshIpc_def CP_Query_def JmesQuery_def named_address_def map_of_GetMeshes [OF wf])
next
  case (Some mesh)
  let ?nodes = "map (MeshNodeToQueryNode (de_keys D)) (mesh_nodes mesh)"
  obtain j reply node where run: "de_search D (alias_query a) ?nodes = Inr j" "de_marshal D j = Inr reply" "unmarshal reply = Inr node"
    "map_option qn_WgHost node = map_option qn_WgHost (find (\<lambda>n. qn_Alias n = a) ?nodes)"
    using assms(1,2) unfolding alias_law_def by blast
  have "ic_Query (SmegmeshIpc D) meshId (alias_query a) (n, lg) = Inr reply"
    using Some run(1,2)
    by (simp add: SmegmeshIpc_def CP_Query_def JmesQuery_def map_of_GetMeshes [OF wf] mesh_nodes_def Let_def)
  moreover have "find (\<lambda>n. qn_Alias n = a) ?nodes = map_option (MeshNodeToQueryNode (de_keys D)) (find (\<lambda>n. Alias n = a) (mesh_nodes mesh))"
    by (simp add: find_map comp_def MeshNodeToQueryNode_def)
  moreover have "addressed addr x" if "find (\<lambda>n. Alias n = a) (mesh_nodes mesh) = Some x" for x
    using that assms(3) Some by (auto simp: find_Some_iff)
  then have "ParseCIDR (qn_WgHost (MeshNodeToQueryNode (de_keys D) x)) = Some (addr x, host_net (addr x))"
    if "find (\<lambda>n. Alias n = a) (mesh_nodes mesh) = Some x" for x
    using that addressed_query_node by blast
  ultimately show ?thesis
    using run(3,4) Some
    by (cases node; cases "find (\<lambda>n. Alias n = a) (mesh_nodes mesh)") (simp_all add: queryMesh_def named_address_def)
qed

text \<open>C36: a running daemon resolves the names of its nodes. A query for the address of \<open>meshId.alias.smeg.\<close>, with an
  alias without dots, quotes and backslashes, adds the record of the address of the first node with
  that alias in that mesh; for an unknown mesh or alias the address is nil. Whatever zeros the text of
  the address shortens, it is the address the node was built with. The rest of the message is answered
  as before.\<close>

theorem dns_resolves_alias_in_mesh:
  assumes "m \<noteq> []" and "a \<noteq> []" and "newline \<notin> set m" and "newline \<notin> set a" and "CHR ''.'' \<notin> set a"
    and "q_Name q = m @ ''.'' @ a @ ''.smeg.''" and "q_Qtype q = TypeAAAA"
    and "alias_law (de_search D) (de_marshal D) unmarshal" and "plain_alias a"
    and "\<forall>mesh. MM_GetMesh m (cs_MeshManager n) = Some mesh \<longrightarrow> (\<forall>node \<in> set (mesh_nodes mesh). addressed addr node)"
    and "gm_wf (mm_meshes (cs_MeshManager n))"
  shows "handleQuery (SmegmeshIpc D) unmarshal newRR (n, lg) (q # qs) answers = handleQuery (SmegmeshIpc D) unmarshal newRR (n, lg) qs
    (answers @ (case newRR (answer_text (q_Name q) (named_address addr m a (cs_MeshManager n))) of None \<Rightarrow> [] | Some rr \<Rightarrow> [rr]))"
  unfolding handleQuery_name [OF assms(1-7)] queryMesh_named [OF assms(8-11)] ..

text \<open>A daemon with one named node, and a decoder that reads back the address.\<close>

definition demo_host :: ip where
  "demo_host = 0xfd # replicate 14 0 @ [1]"

lemma demo_host_bytes: "length demo_host = 16" "To4 demo_host = []"
  by code_simp+

definition demo_named :: MeshNode where
  "demo_named = demo_node\<lparr>Alias := ''bob'', WgHost := ip_string demo_host @ ''/128''\<rparr>"

definition demo_dns_env :: "(nat, QueryNode option) daemon_env" where
  "demo_dns_env = \<lparr>de_env = (\<lambda>_. demo_env), de_join = demo_peer, de_leave = demo_env, de_alias = 8, de_description = 9,
     de_service = 8, de_delete = 8, de_keys = demo_keys, de_device = (\<lambda>_. None),
     de_search = (\<lambda>q nodes. Inr (find (\<lambda>n. alias_query (qn_Alias n) = q) nodes)),
     de_marshal = (\<lambda>node. Inr (case node of None \<Rightarrow> ''null'' | Some n \<Rightarrow> ''#'' @ qn_WgHost n))\<rparr>"

definition demo_decode :: "string \<Rightarrow> unit + QueryNode option" where
  "demo_decode reply = Inr (if reply = ''null'' then None
     else Some ((MeshNodeToQueryNode demo_keys zeroNode)\<lparr>qn_WgHost := tl reply\<rparr>))"

lemma demo_alias_law: "alias_law (de_search demo_dns_env) (de_marshal demo_dns_env) demo_decode"
  by (auto simp: alias_law_def demo_dns_env_def demo_decode_def alias_query_def split: option.splits)

abbreviation demo_dns_server :: "nat MeshCtrlServer" where
  "demo_dns_server \<equiv> (demo_server ''k1'')\<lparr>cs_MeshManager :=
     set_mesh ''mesh'' (ds_put 5 ''k1'' demo_named demo_empty) (cs_MeshManager (demo_server ''k1''))\<rparr>"

lemma demo_named_nodes: "mesh_nodes (ds_put 5 ''k1'' demo_named demo_empty) = [demo_named\<lparr>Tombstone := False\<rparr>]"
  by (simp add: mesh_nodes_def GetNodes_def gm_build_def DS_GetMesh_def TP_AsList_eq TP_keys_eq TP_contains_def TP_get_def
    GM_contains_def GM_get_def ds_put_def TP_Put_def GM_Put_def demo_empty_def Factory_CreateMesh_def NewTwoPhaseMap_def
    NewGMap_def Let_def split: prod.splits)

theorem dns_resolves_alias_in_mesh_witness:
  "handleQuery (SmegmeshIpc demo_dns_env) demo_decode Some (demo_dns_server, [])
     [\<lparr>q_Name = ''mesh.bob.smeg.'', q_Qtype = TypeAAAA\<rparr>] [] = Some [''mesh.bob.smeg. AAAA '' @ ip_string demo_host]"
proof -
  let ?n = "demo_dns_server" let ?addr = "\<lambda>_. demo_host"
  have get: "MM_GetMesh ''mesh'' (cs_MeshManager ?n) = Some (ds_put 5 ''k1'' demo_named demo_empty)"
    by (simp add: MM_GetMesh_def set_mesh_def)
  have "named_address ?addr ''mesh'' ''bob'' (cs_MeshManager ?n) = demo_host"
    unfolding named_address_def get by (simp add: demo_named_nodes) (simp add: demo_named_def)
  moreover have "\<forall>mesh. MM_GetMesh ''mesh'' (cs_MeshManager ?n) = Some mesh
      \<longrightarrow> (\<forall>node \<in> set (mesh_nodes mesh). addressed ?addr node)"
    unfolding get by (simp add: demo_named_nodes)
      (simp add: demo_named_def demo_host_bytes)
  moreover have "gm_wf (mm_meshes (cs_MeshManager ?n))" by (simp add: set_mesh_def gm_wf_def)
  ultimately show ?thesis
    using dns_resolves_alias_in_mesh [of "''mesh''" "''bob''" "\<lparr>q_Name = ''mesh.bob.smeg.'', q_Qtype = TypeAAAA\<rparr>"
      demo_dns_env demo_decode ?n ?addr Some "[]" "[]" "[]", OF _ _ _ _ _ _ _ demo_alias_law]
    by (simp add: newline_def answer_text_def plain_alias_def del: handleQuery.simps(2))
qed

text \<open>C37: a query for an address under a name that does not have the expected form (two non-empty parts before
  \<open>.smeg.\<close>, anywhere in the name) makes the resolver panic; the check for an empty set of groups after
  the match is never reached with one.\<close>

theorem dns_panics_on_other_names:
  assumes "q_Qtype q = TypeAAAA"
    and "\<not> (\<exists>pre m a post. q_Name q = pre @ m @ ''.'' @ a @ ''.smeg.'' @ post \<and> m \<noteq> [] \<and> a \<noteq> []
      \<and> newline \<notin> set m \<and> newline \<notin> set a)"
  shows "handleQuery client unmarshal newRR s (q # qs) answers = None"
proof -
  have "find_submatch (q_Name q) = None"
    unfolding find_submatch_None named_def using assms(2) by blast
  then show ?thesis using assms(1) by (simp add: MatchCaptureGroup_def)
qed

theorem dns_panics_on_other_names_witness:
  "handleQuery (SmegmeshIpc demo_daemon_env) (\<lambda>_. Inr None :: unit + QueryNode option) Some (demo_server ''k1'', [])
     [\<lparr>q_Name = ''bob.smeg.'', q_Qtype = TypeAAAA\<rparr>] [] = None"
proof (rule dns_panics_on_other_names)
  show "\<not> (\<exists>pre m a post. q_Name \<lparr>q_Name = ''bob.smeg.'', q_Qtype = TypeAAAA\<rparr> = pre @ m @ ''.'' @ a @ ''.smeg.'' @ post
      \<and> m \<noteq> [] \<and> a \<noteq> [] \<and> newline \<notin> set m \<and> newline \<notin> set a)"
    by (auto simp: Cons_eq_append_conv append_eq_Cons_conv)
qed simp

end
