(* ===== verification/Ctl.thy ===== *)
theory Ctl
  imports Dot
begin

text \<open>
  \<open>src/cmd/smegctl/main.go\<close>: the command line tool, on top of the client of \<open>Ipc\<close> and the graphs of \<open>Dot\<close>. The
  argument parser is a parameter that gives the chosen command with its arguments or the usage text;
  \<open>errText\<close> is the text of an error as it arrives over the control socket. A command returns the state of
  the daemon and what it prints; \<open>None\<close> is a panic.
\<close>

section \<open>The commands\<close>

text \<open>Most commands print the reply or the error, some of them without ending the line of the error.\<close>

definition printed :: "('e \<Rightarrow> string) \<Rightarrow> 's \<times> ('e + string) \<Rightarrow> 's \<times> string" where
  "printed errText = (\<lambda>(s, r). (s, case r of Inl err \<Rightarrow> errText err | Inr reply \<Rightarrow> line reply))"

definition Ctl_createMesh :: "(ipc_error \<Rightarrow> string) \<Rightarrow> 's ipc_client \<Rightarrow> WireGuardArgs \<Rightarrow> 's \<Rightarrow> 's \<times> string" where
  "Ctl_createMesh errText client args s = printed (\<lambda>err. line (errText err)) (ic_CreateMesh client args s)"

text \<open>The error is logged.\<close>

definition Ctl_listMeshes :: "'s ipc_client \<Rightarrow> 's \<Rightarrow> string" where
  "Ctl_listMeshes client s =
     (case ic_ListMeshes client s of Inl err \<Rightarrow> [] | Inr ids \<Rightarrow> concat (map line ids))"

text \<open>After an error the empty reply is printed, too.\<close>

definition Ctl_joinMesh :: "(ipc_error \<Rightarrow> string) \<Rightarrow> 's ipc_client \<Rightarrow> JoinMeshArgs \<Rightarrow> 's \<Rightarrow> 's \<times> string" where
  "Ctl_joinMesh errText client args s = printed (\<lambda>err. errText err @ line []) (ic_JoinMesh client args s)"

definition Ctl_leaveMesh :: "(ipc_error \<Rightarrow> string) \<Rightarrow> 's ipc_client \<Rightarrow> string \<Rightarrow> 's \<Rightarrow> 's \<times> string" where
  "Ctl_leaveMesh errText client meshId s = printed errText (ic_LeaveMesh client meshId s)"

text \<open>The loop that fetches the meshes to draw.\<close>

fun graph_loop ::
  "'s ipc_client \<Rightarrow> string list \<Rightarrow> 's \<Rightarrow> (string, CtrlNode list) gomap \<Rightarrow> ipc_error + (string, CtrlNode list) gomap" where
  "graph_loop client [] s meshes = Inr meshes"
| "graph_loop client (meshId # ids) s meshes =
     (case ic_GetMesh client meshId s of
        Inl err \<Rightarrow> Inl err
      | Inr nodes \<Rightarrow> graph_loop client ids s (gm_put meshId nodes meshes))"

definition getGraph :: "(ipc_error \<Rightarrow> string) \<Rightarrow> 's ipc_client \<Rightarrow> 's \<Rightarrow> string option" where
  "getGraph errText client s =
     (case ic_ListMeshes client s of
        Inl err \<Rightarrow> Some (errText err)
      | Inr ids \<Rightarrow>
          (case graph_loop client ids s [] of
             Inl err \<Rightarrow> Some (line (errText err))
           | Inr meshes \<Rightarrow> map_option line (Generate (NewMeshGraphConverter meshes))))"

definition Ctl_queryMesh :: "(ipc_error \<Rightarrow> string) \<Rightarrow> 's ipc_client \<Rightarrow> string \<Rightarrow> string \<Rightarrow> 's \<Rightarrow> string" where
  "Ctl_queryMesh errText client meshId query s =
     (case ic_Query client meshId query s of Inl err \<Rightarrow> line (errText err) | Inr reply \<Rightarrow> line reply)"

definition Ctl_putDescription :: "(ipc_error \<Rightarrow> string) \<Rightarrow> 's ipc_client \<Rightarrow> string \<Rightarrow> string \<Rightarrow> 's \<Rightarrow> 's \<times> string" where
  "Ctl_putDescription errText client meshId description s =
     printed (\<lambda>err. line (errText err)) (ic_PutDescription client meshId description s)"

definition Ctl_putAlias :: "(ipc_error \<Rightarrow> string) \<Rightarrow> 's ipc_client \<Rightarrow> string \<Rightarrow> string \<Rightarrow> 's \<Rightarrow> 's \<times> string" where
  "Ctl_putAlias errText client meshId alias s = printed errText (ic_PutAlias client meshId alias s)"

definition setService :: "(ipc_error \<Rightarrow> string) \<Rightarrow> 's ipc_client \<Rightarrow> string \<Rightarrow> string \<Rightarrow> string \<Rightarrow> 's \<Rightarrow> 's \<times> string" where
  "setService errText client meshId service value s = printed errText (ic_PutService client meshId service value s)"

definition deleteService :: "(ipc_error \<Rightarrow> string) \<Rightarrow> 's ipc_client \<Rightarrow> string \<Rightarrow> string \<Rightarrow> 's \<Rightarrow> 's \<times> string" where
  "deleteService errText client meshId service s =
     printed (\<lambda>err. line (errText err)) (ic_DeleteService client meshId service s)"

section \<open>Running a command\<close>

datatype command =
    Cmd_NewMesh WireGuardArgs
  | Cmd_ListMeshes
  | Cmd_JoinMesh JoinMeshArgs
  | Cmd_GetGraph
  | Cmd_LeaveMesh string
  | Cmd_QueryMesh string string
  | Cmd_PutDescription string string
  | Cmd_PutAlias string string
  | Cmd_SetService string string string
  | Cmd_DeleteService string string

fun run_command :: "(ipc_error \<Rightarrow> string) \<Rightarrow> 's ipc_client \<Rightarrow> command \<Rightarrow> 's \<Rightarrow> ('s \<times> string) option" where
  "run_command errText client (Cmd_NewMesh args) s = Some (Ctl_createMesh errText client args s)"
| "run_command errText client Cmd_ListMeshes s = Some (s, Ctl_listMeshes client s)"
| "run_command errText client (Cmd_JoinMesh args) s = Some (Ctl_joinMesh errText client args s)"
| "run_command errText client Cmd_GetGraph s = map_option (Pair s) (getGraph errText client s)"
| "run_command errText client (Cmd_LeaveMesh meshId) s = Some (Ctl_leaveMesh errText client meshId s)"
| "run_command errText client (Cmd_QueryMesh meshId query) s = Some (s, Ctl_queryMesh errText client meshId query s)"
| "run_command errText client (Cmd_PutDescription meshId description) s =
     Some (Ctl_putDescription errText client meshId description s)"
| "run_command errText client (Cmd_PutAlias meshId alias) s = Some (Ctl_putAlias errText client meshId alias s)"
| "run_command errText client (Cmd_SetService meshId service value) s = Some (setService errText client meshId service value s)"
| "run_command errText client (Cmd_DeleteService meshId service) s = Some (deleteService errText client meshId service s)"

text \<open>The tool panics when the control socket cannot be reached.\<close>

definition ctl_main ::
  "(ipc_error \<Rightarrow> string) \<Rightarrow> (string list \<Rightarrow> string + command) \<Rightarrow> 's ipc_client option \<Rightarrow> string list \<Rightarrow> 's \<Rightarrow> ('s \<times> string) option" where
  "ctl_main errText parse opened argv s =
     (case parse argv of
        Inl usage \<Rightarrow> Some (s, usage)
      | Inr cmd \<Rightarrow> (case opened of None \<Rightarrow> None | Some client \<Rightarrow> run_command errText client cmd s))"

section \<open>The graph of a running daemon\<close>

lemma graph_loop_fetched:
  "fetch_all (ic_GetMesh client) ids s = Inr ms \<Longrightarrow> distinct (map fst meshes @ ids)
    \<Longrightarrow> graph_loop client ids s meshes = Inr (meshes @ ms)"
proof (induction ids arbitrary: meshes ms)
  case (Cons meshId ids)
  then obtain nodes rest where get: "ic_GetMesh client meshId s = Inr nodes"
    and rest: "fetch_all (ic_GetMesh client) ids s = Inr rest" "ms = (meshId, nodes) # rest"
    by (auto split: sum.splits)
  have "gm_put meshId nodes meshes = meshes @ [(meshId, nodes)]"
    using Cons.prems(2) by (intro gm_put_fresh) auto
  with Cons.IH [OF rest(1), of "meshes @ [(meshId, nodes)]"] get rest(2) Cons.prems(2) show ?case by simp
qed simp


lemma SmegmeshIpc_GetMesh: "ic_GetMesh (SmegmeshIpc D) meshId (n, lg) = CP_GetMesh (de_keys D) (de_device D) meshId n"
  by (simp add: SmegmeshIpc_def)

lemma getGraph_daemon:
  assumes "gm_wf (mm_meshes (cs_MeshManager n))"
  obtains meshes where "gm_wf meshes"
    "\<forall>meshId nodes. map_of meshes meshId = Some nodes \<longleftrightarrow> CP_GetMesh (de_keys D) (de_device D) meshId n = Inr nodes"
    "getGraph errText (SmegmeshIpc D) (n, lg) = map_option line (Generate (NewMeshGraphConverter meshes))"
proof -
  obtain ids ms where ids: "ic_ListMeshes (SmegmeshIpc D) (n, lg) = Inr ids"
    and all: "fetch_all (ic_GetMesh (SmegmeshIpc D)) ids (n, lg) = Inr ms" and wf: "distinct (map fst ms)"
    and get: "\<forall>meshId nodes. (meshId, nodes) \<in> set ms \<longleftrightarrow> ic_GetMesh (SmegmeshIpc D) meshId (n, lg) = Inr nodes"
    by (rule smeg.read_all [where D = D, of "(n, lg)"]) (use assms in auto)
  have "map fst ms = ids" using all
    by (induction ids arbitrary: ms) (auto split: sum.splits)
  then have "graph_loop (SmegmeshIpc D) ids (n, lg) [] = Inr ms"
    using graph_loop_fetched [OF all, of "[]"] wf by simp
  moreover have "map_of ms meshId = Some nodes \<longleftrightarrow> CP_GetMesh (de_keys D) (de_device D) meshId n = Inr nodes" for meshId nodes
    using get wf by (simp add: SmegmeshIpc_GetMesh)
  ultimately show thesis using that [of ms] wf ids by (simp add: getGraph_def gm_wf_def)
qed

text \<open>C35: the graph of a running daemon. The command never ends with an error of the control socket. It panics
  exactly when some mesh of the daemon has a node without alias whose address has a text of fewer
  than 21 characters; otherwise it prints the text of the graph of all meshes of the daemon, each with
  its nodes.\<close>

theorem graph_command_draws_the_daemon:
  assumes "gm_wf (mm_meshes (cs_MeshManager n))"
  shows "(getGraph errText (SmegmeshIpc D) (n, lg) = None \<longleftrightarrow>
      (\<exists>meshId nodes. CP_GetMesh (de_keys D) (de_device D) meshId n = Inr nodes
        \<and> (\<exists>node \<in> set nodes. cn_Alias node = [] \<and> length (cn_WgHost node) < 21)))
    \<and> (\<forall>out. getGraph errText (SmegmeshIpc D) (n, lg) = Some out \<longrightarrow>
      (\<exists>meshes dot. (\<forall>meshId nodes. map_of meshes meshId = Some nodes \<longleftrightarrow> CP_GetMesh (de_keys D) (de_device D) meshId n = Inr nodes)
        \<and> Generate (NewMeshGraphConverter meshes) = Some dot \<and> out = line dot))"
proof -
  obtain meshes where wf: "gm_wf meshes"
    and get: "\<forall>meshId nodes. map_of meshes meshId = Some nodes \<longleftrightarrow> CP_GetMesh (de_keys D) (de_device D) meshId n = Inr nodes"
    and run: "getGraph errText (SmegmeshIpc D) (n, lg) = map_option line (Generate (NewMeshGraphConverter meshes))"
    by (rule getGraph_daemon [OF assms])
  have "(meshId, nodes) \<in> set meshes \<longleftrightarrow> CP_GetMesh (de_keys D) (de_device D) meshId n = Inr nodes" for meshId nodes
    using get wf by (simp add: gm_entry)
  then have "Generate (NewMeshGraphConverter meshes) = None \<longleftrightarrow>
      (\<exists>meshId nodes. CP_GetMesh (de_keys D) (de_device D) meshId n = Inr nodes
        \<and> (\<exists>node \<in> set nodes. cn_Alias node = [] \<and> length (cn_WgHost node) < 21))"
    using graph_panics_on_short_addresses [OF wf] by auto
  with run get show ?thesis by auto
qed

theorem graph_command_draws_the_daemon_witness:
  "\<exists>dot. getGraph (\<lambda>_. []) (SmegmeshIpc demo_daemon_env) (demo_server ''k1'', []) = Some (line dot)"
proof -
  have empty: "mm_meshes (cs_MeshManager (demo_server ''k1'')) = []" by simp
  then have "CP_GetMesh W dev meshId (demo_server ''k1'') = Inl (NoMesh meshId)" for W dev meshId
    by (simp add: CP_GetMesh_def MM_GetMesh_def)
  with graph_command_draws_the_daemon [of "demo_server ''k1''" "\<lambda>_. []" demo_daemon_env "[]"] empty
  show ?thesis by (cases "getGraph (\<lambda>_. []) (SmegmeshIpc demo_daemon_env) (demo_server ''k1'', [])") (auto simp: gm_wf_def)
qed

text \<open>The commands that only read leave the daemon as it is.\<close>

lemma reading_commands_change_nothing:
  "cmd \<in> {Cmd_ListMeshes, Cmd_GetGraph, Cmd_QueryMesh meshId query} \<Longrightarrow> run_command errText client cmd s = Some (s', out) \<Longrightarrow> s' = s"
  by auto

end
