(* ===== verification/Timer.thy ===== *)
theory Timer
  imports Main
begin

text \<open>
  \<open>src/pkg/lib/timer.go\<close>: a function that is called at a fixed rate. \<open>Run\<close> is driven by the cases that \<open>select\<close>
  picks: a tick, or the quit channel once it is closed (then always ready). The function acts on a
  state and may return an error, which ends the loop. \<open>break\<close> in the quit case leaves the \<open>select\<close>, not
  the loop.
\<close>

record Timer =
  updateRate :: int
  quit :: "bool option"

text \<open>The channel is nil until \<open>Run\<close> makes it; \<open>Some True\<close> is closed. Closing nil or a closed channel panics.\<close>

definition NewTimer :: "int \<Rightarrow> Timer" where
  "NewTimer rate = \<lparr>updateRate = rate, quit = None\<rparr>"

definition Run_start :: "Timer \<Rightarrow> Timer" where
  "Run_start t = t\<lparr>quit := Some False\<rparr>"

definition Stop :: "Timer \<Rightarrow> Timer option" where
  "Stop t = (if quit t = Some False then Some (t\<lparr>quit := Some True\<rparr>) else None)"

datatype ready = Tick | Quit

text \<open>The loop over the picked cases; \<open>Some err\<close> is the returned error, \<open>None\<close> means it is still running.\<close>

fun Run :: "('s \<Rightarrow> 's \<times> 'e option) \<Rightarrow> ready list \<Rightarrow> 's \<Rightarrow> 's \<times> 'e option" where
  "Run f [] s = (s, None)"
| "Run f (Tick # picked) s = (case f s of (s1, Some err) \<Rightarrow> (s1, Some err) | (s1, None) \<Rightarrow> Run f picked s1)"
| "Run f (Quit # picked) s = Run f picked s"

lemma Run_ticks: "Run f picked s = Run f (filter ((=) Tick) picked) s"
  by (induction f picked s rule: Run.induct) (auto split: prod.splits option.splits)

lemma Run_no_error:
  assumes "\<And>s. snd (f s) = None"
  shows "Run f picked s = (((\<lambda>s. fst (f s)) ^^ length (filter ((=) Tick) picked)) s, None)"
  using assms
proof (induction f picked s rule: Run.induct)
  case (2 f picked s)
  then have "snd (f s) = None" by blast
  then show ?case using 2 by (cases "f s") (simp add: funpow_Suc_right del: funpow.simps)
qed simp_all



end
