(* ===== verification/Daemon.thy ===== *)
theory Daemon
  imports Ctrl_Plane Timer
begin

text \<open>
  \<open>src/pkg/ctrlserver/ctrlserver.go\<close> (how the parts of the daemon are put together, closed, and driven by
  two timers), \<open>src/pkg/conn/connectionserver.go\<close> (its start), the loop of \<open>SyncMesh\<close> in
  \<open>src/pkg/sync/syncservice.go\<close> over a whole stream, and the start of \<open>src/cmd/smegd/main.go\<close>.

  The running daemon is the step relation \<open>daemon_step\<close>: ticks of the two timers, requests of the user,
  sessions that other nodes open. Each step is atomic. The invariant of every reachable state is
  proved by rule induction: the meshes are filed under their own identifiers in a well-formed map,
  their stores are well formed, the syncer counts within its bounds, and the key and the
  configuration never change.
\<close>

section \<open>Starting and closing\<close>

text \<open>\<open>NewConnectionServer\<close>; the certificates are checked as for the connection manager. \<open>sv_listener\<close> says that the
  server has a listening socket.\<close>

record ConnectionServer =
  sv_GrpcPort :: int
  sv_VerifyClientCert :: bool
  sv_listener :: bool
  sv_stopped :: bool

definition NewConnectionServer ::
  "(string \<Rightarrow> string \<Rightarrow> 'e option) \<Rightarrow> (string \<Rightarrow> 'e + 'b) \<Rightarrow> ('b \<Rightarrow> bool) \<Rightarrow> DaemonConfiguration
    \<Rightarrow> 'e new_error + ConnectionServer" where
  "NewConnectionServer loadKeyPair readFile parsePEM cfg =
     (case loadKeyPair (dc_CertificatePath cfg) (dc_PrivateKeyPath cfg) of
        Some err \<Rightarrow> Inl (LoadKeyPair err)
      | None \<Rightarrow>
          if dc_CaCertificatePath cfg = [] then Inl CaCertNotSpecified
          else case readFile (dc_CaCertificatePath cfg) of
            Inl err \<Rightarrow> Inl (ReadCaCert err)
          | Inr caCert \<Rightarrow>
              if \<not> parsePEM caCert then Inl CouldNotParsePEM
              else Inr \<lparr>sv_GrpcPort = dc_GrpcPort cfg, sv_VerifyClientCert = \<not> dc_SkipCertVerification cfg,
                        sv_listener = False, sv_stopped = False\<rparr>)"

text \<open>\<open>listen\<close> opens the socket of a port; \<open>served\<close> is what serving on it returned in the end.\<close>

definition Listen :: "(int \<Rightarrow> 'e option) \<Rightarrow> 'e option \<Rightarrow> ConnectionServer \<Rightarrow> ConnectionServer \<times> 'e option" where
  "Listen listen served s =
     (case listen (sv_GrpcPort s) of
        Some err \<Rightarrow> (s\<lparr>sv_listener := False\<rparr>, Some err)
      | None \<Rightarrow> (s\<lparr>sv_listener := True\<rparr>, served))"

definition CloseServer :: "'e option \<Rightarrow> ConnectionServer \<Rightarrow> ConnectionServer \<times> 'e option" where
  "CloseServer closeErr s = (s\<lparr>sv_stopped := True\<rparr>, if sv_listener s then closeErr else None)"

record 'c Daemon =
  d_server :: "'c MeshCtrlServer"
  d_syncer :: SyncerImpl
  d_connServer :: ConnectionServer
  d_syncTimer :: Timer
  d_heartbeatTimer :: Timer

definition conn_params :: "DaemonConfiguration \<Rightarrow> NewConnectionManagerParams" where
  "conn_params cfg = \<lparr>cm_CertificatePath = dc_CertificatePath cfg, cm_PrivateKey = dc_PrivateKeyPath cfg,
     cm_SkipCertVerification = dc_SkipCertVerification cfg, cm_CaCert = dc_CaCertificatePath cfg\<rparr>"

text \<open>The key pair of the manager is generated by the WireGuard library. The timers are running.\<close>

definition NewCtrlServer ::
  "(string \<Rightarrow> string \<Rightarrow> 'e option) \<Rightarrow> (string \<Rightarrow> 'e + 'b) \<Rightarrow> ('b \<Rightarrow> bool) \<Rightarrow> string \<times> u8 list \<Rightarrow> DaemonConfiguration
    \<Rightarrow> 'e new_error + 'c Daemon" where
  "NewCtrlServer loadKeyPair readFile parsePEM key cfg =
     (case NewConnectionManager loadKeyPair readFile parsePEM (conn_params cfg) of
        Inl err \<Rightarrow> Inl err
      | Inr connMgr \<Rightarrow>
          (case NewConnectionServer loadKeyPair readFile parsePEM cfg of
             Inl err \<Rightarrow> Inl err
           | Inr connServer \<Rightarrow>
               Inr \<lparr>d_server = \<lparr>cs_MeshManager = NewMeshManager (fst key) (snd key) cfg False True,
                      cs_ConnectionManager = connMgr, cs_Conf = cfg\<rparr>,
                    d_syncer = NewSyncer cfg, d_connServer = connServer,
                    d_syncTimer = Run_start (NewTimer 1),
                    d_heartbeatTimer = Run_start (NewTimer (dc_Heartbeat cfg))\<rparr>))"

text \<open>\<open>Close\<close> goes through all parts and only logs errors; closing the connections leaves the cache as it is. \<open>None\<close> is the panic of stopping a timer twice.\<close>

definition CS_Close ::
  "env \<Rightarrow> 'e option \<Rightarrow> 'c Daemon \<Rightarrow> ('c Daemon \<times> effect list) option" where
  "CS_Close E closeErr d =
     (let lg = fst (MM_Close E (cs_MeshManager (d_server d)));
          d1 = d\<lparr>d_connServer := fst (CloseServer closeErr (d_connServer d))\<rparr> in
      case Stop (d_syncTimer d1) of
        None \<Rightarrow> None
      | Some t1 \<Rightarrow>
          (case Stop (d_heartbeatTimer d1) of
             None \<Rightarrow> None
           | Some t2 \<Rightarrow> Some (d1\<lparr>d_syncTimer := t1, d_heartbeatTimer := t2\<rparr>, lg)))"

text \<open>Closing a daemon that just started stops the server and closes both timers; closing it again panics.\<close>

lemma close_twice_panics:
  assumes "NewCtrlServer loadKeyPair readFile parsePEM key cfg = Inr d"
  shows "\<exists>d' lg. CS_Close E closeErr d = Some (d', lg) \<and> sv_stopped (d_connServer d') \<and> CS_Close E closeErr' d' = None"
  using assms
  by (auto simp: NewCtrlServer_def CS_Close_def CloseServer_def Stop_def Run_start_def Let_def split: sum.splits)

section \<open>Sessions that other nodes open\<close>

text \<open>The server's loop over the messages of a stream; it ends with the stream, at an error, or when there
  is nothing more to send. \<open>None\<close> is a panic.\<close>

fun serve_stream ::
  "(string \<Rightarrow> (string, MeshNode) TwoPhaseSyncer option) \<Rightarrow> (u64 \<times> string \<times> MeshNode SyncMsg option) list
    \<Rightarrow> (string, MeshNode) TwoPhaseSyncer server \<Rightarrow> (string, MeshNode) TwoPhaseSyncer server option" where
  "serve_stream getMesh [] sv = Some sv"
| "serve_stream getMesh ((now, inMeshId, changes) # stream) sv =
     (case serve (TS_GenerateMessage zeroNode) TS_RecvMessage getMesh now inMeshId changes sv of
        ServeError _ \<Rightarrow> Some sv
      | ServePanic _ \<Rightarrow> None
      | Served sv1 _ moreMessages \<Rightarrow> if moreMessages then serve_stream getMesh stream sv1 else Some sv1)"

text \<open>The syncer works on the store of the mesh itself.\<close>

definition SyncService_SyncMesh ::
  "(u64 \<times> string \<times> MeshNode SyncMsg option) list \<Rightarrow> MeshManagerImpl \<Rightarrow> MeshManagerImpl option" where
  "SyncService_SyncMesh stream m =
     map_option (\<lambda>sv.
         case (sv_syncer sv, MM_GetMesh (sv_meshId sv) m) of
           (Some syncer, Some mesh) \<Rightarrow> set_mesh (sv_meshId sv) (mesh\<lparr>store := ts_store syncer\<rparr>) m
         | _ \<Rightarrow> m)
       (serve_stream (\<lambda>meshId. map_option DS_GetSyncer (MM_GetMesh meshId m)) stream NewServer)"

section \<open>Leaving, with the announcement\<close>

text \<open>\<open>OnDelete\<close> of the manager synchronises the mesh, from which the own node is already removed.\<close>

definition D_LeaveMesh ::
  "env \<Rightarrow> 'c gossip_env \<Rightarrow> string \<Rightarrow> 'c Daemon \<Rightarrow> ('c Daemon \<times> effect list \<times> (ipc_error + string)) option" where
  "D_LeaveMesh E G meshId d =
     (let n = d_server d; m = cs_MeshManager n in
      case CP_LeaveMesh E meshId n of (n1, lg, r) \<Rightarrow>
      (case MM_GetMesh meshId m of
         None \<Rightarrow> Some (d\<lparr>d_server := n1\<rparr>, lg, r)
       | Some mesh \<Rightarrow>
           let mesh1 = (case DS_RemoveNode (env_now E) (mm_PublicKey m) mesh of Inl _ \<Rightarrow> mesh | Inr mesh1 \<Rightarrow> mesh1) in
           (case Sync G (mm_PublicKey m) (d_syncer d) (mesh1, cs_ConnectionManager n) of
              None \<Rightarrow> None
            | Some (s1, (_, conns1), _, _) \<Rightarrow>
                Some (d\<lparr>d_server := n1\<lparr>cs_ConnectionManager := conns1\<rparr>, d_syncer := s1\<rparr>, lg, r))))"

section \<open>What every operation keeps\<close>

text \<open>A mesh keeps its identifier and a well-formed store.\<close>

definition keeps :: "TwoPhaseStoreMeshManager \<Rightarrow> TwoPhaseStoreMeshManager \<Rightarrow> bool" where
  "keeps mesh mesh' \<longleftrightarrow> MeshId mesh' = MeshId mesh \<and> (tp_wf (store mesh) \<longrightarrow> tp_wf (store mesh'))"

lemma keeps_refl [simp]: "keeps mesh mesh"
  by (simp add: keeps_def)

lemma keeps_trans: "keeps a b \<Longrightarrow> keeps b c \<Longrightarrow> keeps a c"
  by (simp add: keeps_def)

lemma TP_Mark_wf [inv_intros]: "tp_wf m \<Longrightarrow> tp_wf (TP_Mark zero key m)"
  by (auto simp: tp_wf_def) (auto simp: TP_Mark_def)

lemma keeps_ops:
  "keeps mesh (ds_put now k x mesh)" "keeps mesh (DS_Mark k mesh)" "keeps mesh (DS_Prune mesh)"
  "keeps mesh (DS_SaveChanges mesh)" "keeps mesh (fst (DS_Load now bytes mesh))"
  "DS_RemoveNode now k mesh = Inr mesh' \<Longrightarrow> keeps mesh mesh'"
  by (auto simp: keeps_def ds_put_def DS_Mark_def DS_Prune_def DS_SaveChanges_def DS_Load_def DS_RemoveNode_def
    case_prod_unfold intro: inv_intros split: if_splits)

lemma keeps_setters:
  "DS_SetDescription now k v mesh = Inr mesh' \<Longrightarrow> keeps mesh mesh'"
  "DS_SetAlias now k v mesh = Inr mesh' \<Longrightarrow> keeps mesh mesh'"
  "DS_AddService now k s v mesh = Inr mesh' \<Longrightarrow> keeps mesh mesh'"
  "DS_RemoveService now k s mesh = Inr mesh' \<Longrightarrow> keeps mesh mesh'"
  "DS_AddRoutes now k rs mesh = Inr mesh' \<Longrightarrow> keeps mesh mesh'"
  "DS_RemoveRoutes now k rs mesh = Inr mesh' \<Longrightarrow> keeps mesh mesh'"
  "DS_AddNode now node mesh = Inr mesh' \<Longrightarrow> keeps mesh mesh'"
  by (auto simp: DS_SetDescription_def DS_SetAlias_def DS_AddService_def DS_RemoveService_def DS_AddRoutes_def
    DS_RemoveRoutes_def DS_AddNode_def Let_def keeps_ops split: if_splits option.splits sum.splits prod.splits)

lemma keeps_heartbeat: "DS_UpdateTimeStamp now k mesh = Inr mesh' \<Longrightarrow> keeps mesh mesh'"
  by (auto simp: DS_UpdateTimeStamp_def Let_def keeps_ops split: if_splits option.splits list.splits
    intro: keeps_trans [OF keeps_ops(2) keeps_ops(1)])

text \<open>A manager keeps its configuration and key, and its meshes filed under their identifiers.\<close>

definition meshes_ok :: "MeshManagerImpl \<Rightarrow> bool" where
  "meshes_ok m \<longleftrightarrow> gm_wf (mm_meshes m)
     \<and> (\<forall>meshId mesh. MM_GetMesh meshId m = Some mesh \<longrightarrow> MeshId mesh = meshId \<and> tp_wf (store mesh))"

definition mm_keeps :: "MeshManagerImpl \<Rightarrow> MeshManagerImpl \<Rightarrow> bool" where
  "mm_keeps m m' \<longleftrightarrow> mm_conf m' = mm_conf m \<and> mm_PublicKey m' = mm_PublicKey m \<and> mm_KeyBytes m' = mm_KeyBytes m
     \<and> (meshes_ok m \<longrightarrow> meshes_ok m')"

lemma mm_keeps_refl [simp]: "mm_keeps m m"
  by (simp add: mm_keeps_def)

lemma mm_keeps_trans: "mm_keeps a b \<Longrightarrow> mm_keeps b c \<Longrightarrow> mm_keeps a c"
  by (simp add: mm_keeps_def)

lemma mm_keeps_set_new:
  assumes "MeshId mesh' = meshId" and "tp_wf (store mesh')"
  shows "mm_keeps m (set_mesh meshId mesh' m)"
  using assms by (auto simp: mm_keeps_def meshes_ok_def MM_GetMesh_def create_frame) (simp add: set_mesh_def)

lemma mm_keeps_set:
  assumes "MM_GetMesh meshId m = Some mesh" and "keeps mesh mesh'"
  shows "mm_keeps m (set_mesh meshId mesh' m)"
proof (cases "meshes_ok m")
  case True
  with assms show ?thesis by (intro mm_keeps_set_new) (auto simp: meshes_ok_def keeps_def)
qed (simp add: mm_keeps_def)

lemma mm_keeps_delete: "mm_keeps m (m\<lparr>mm_meshes := gm_del meshId (mm_meshes m)\<rparr>)"
  by (auto simp: mm_keeps_def meshes_ok_def MM_GetMesh_def)

lemma mm_keeps_on_self:
  assumes "on_self op meshId m = Inr m'" and "\<And>k mesh mesh'. op k mesh = Inr mesh' \<Longrightarrow> keeps mesh mesh'"
  shows "mm_keeps m m'"
  using assms by (auto simp: on_self_def mm_keeps_set split: option.splits if_splits sum.splits)

lemma mm_keeps_setters:
  "MM_SetDescription now meshId v m = Inr m' \<Longrightarrow> mm_keeps m m'"
  "MM_SetAlias now meshId v m = Inr m' \<Longrightarrow> mm_keeps m m'"
  "MM_SetService now meshId k v m = Inr m' \<Longrightarrow> mm_keeps m m'"
  "MM_RemoveService now meshId k m = Inr m' \<Longrightarrow> mm_keeps m m'"
  by (auto simp: MM_SetDescription_def MM_SetAlias_def MM_SetService_def MM_RemoveService_def
    elim!: mm_keeps_on_self dest: keeps_setters)

lemma mm_keeps_update_all: "update_all now ids m = (m', err) \<Longrightarrow> mm_keeps m m'"
proof (induction now ids m arbitrary: m' rule: update_all.induct)
  case (2 now meshId ids m)
  then show ?case
    by (auto simp: MM_GetMesh_def [symmetric] split: option.splits if_splits sum.splits)
      (metis keeps_heartbeat mm_keeps_set mm_keeps_trans)
qed simp

lemma keeps_ignore_error:
  "ignore_error mesh r = Inr mesh' \<Longrightarrow> (\<And>mesh1. r = Inr mesh1 \<Longrightarrow> keeps mesh mesh1) \<Longrightarrow> keeps mesh mesh'"
  by (auto simp: ignore_error_def split: sum.splits ds_error.splits)

lemma mm_keeps_collect_mesh: "collect_mesh ks now mid m routes = (m', r) \<Longrightarrow> mm_keeps m m'"
  by (auto simp: collect_mesh_def Let_def split: option.splits bool.splits sum.splits if_splits
    intro!: mm_keeps_set elim: keeps_ignore_error dest: keeps_setters)

lemma mm_keeps_collect: "collect ks now mids m routes = (m', r) \<Longrightarrow> mm_keeps m m'"
proof (induction mids arbitrary: m routes)
  case (Cons mid mids)
  then show ?case
    by (auto split: prod.splits sum.splits dest: mm_keeps_collect_mesh) (metis mm_keeps_collect_mesh mm_keeps_trans)
qed simp

lemma keeps_install_mesh: "install_mesh ks now k rs mesh = Inr mesh' \<Longrightarrow> keeps mesh mesh'"
proof -
  assume "install_mesh ks now k rs mesh = Inr mesh'"
  then obtain nodeId toRemove mesh1 where 1: "ignore_error mesh (DS_RemoveRoutes now nodeId toRemove mesh) = Inr mesh1"
    and 2: "ignore_error mesh1 (DS_AddRoutes now nodeId rs mesh1) = Inr mesh'"
    by (auto simp: install_mesh_def Let_def split: sum.splits)
  have "keeps mesh mesh1" using 1 keeps_setters(6) by (rule keeps_ignore_error)
  moreover have "keeps mesh1 mesh'" using 2 keeps_setters(5) by (rule keeps_ignore_error)
  ultimately show ?thesis by (rule keeps_trans)
qed

lemma mm_keeps_install: "install ks now routes m = (m', r) \<Longrightarrow> mm_keeps m m'"
proof (induction ks now routes m rule: install.induct)
  case (2 ks now meshId meshRoutes routes m)
  then show ?case
    by (auto split: option.splits sum.splits) (metis keeps_install_mesh mm_keeps_set mm_keeps_trans)
qed simp

lemma mm_keeps_UpdateRoutes: "UpdateRoutes ks now m = (m', err) \<Longrightarrow> mm_keeps m m'"
  unfolding UpdateRoutes_def Let_def
  by (auto split: prod.splits sum.splits dest!: mm_keeps_collect mm_keeps_install intro: mm_keeps_trans)

subsection \<open>Sessions\<close>

abbreviation syncer_wf :: "('k, 'd) TwoPhaseSyncer \<Rightarrow> bool" where
  "syncer_wf s \<equiv> tp_wf (ts_store s)"

lemma generate_wf:
  "TS_GenerateMessage zero now s = Inr (s', msg, goon) \<Longrightarrow> syncer_wf s \<Longrightarrow> syncer_wf s'"
  by (auto simp: TS_GenerateMessage_def sync_hash_def prepare_def present_def exchange_def sync_merge_def
    IncrementState_def set_clock_def Let_def split: SyncState.splits if_splits intro!: TP_Merge_wf) (auto simp: tp_wf_def)

lemma recv_wf [simp]: "syncer_wf (recv_nonempty TS_RecvMessage msg s) = syncer_wf s"
  by (simp add: recv_nonempty_def TS_RecvMessage_def split: option.splits)

definition server_wf :: "('k, 'd) TwoPhaseSyncer server \<Rightarrow> bool" where
  "server_wf sv \<longleftrightarrow> (\<forall>s. sv_syncer sv = Some s \<longrightarrow> syncer_wf s)"

lemma serve_wf:
  assumes "serve (TS_GenerateMessage zero) TS_RecvMessage getMesh now meshId msg sv = Served sv' reply goon"
    and "server_wf sv" and "\<And>id s. getMesh id = Some s \<Longrightarrow> syncer_wf s"
  shows "server_wf sv'"
proof -
  obtain sv1 syncer syncer1 where "server_open getMesh meshId sv = Inr sv1" "sv_syncer sv1 = Some syncer"
    "TS_GenerateMessage zero now syncer = Inr (syncer1, reply, goon)"
    "sv' = sv1\<lparr>sv_syncer := Some (recv_nonempty TS_RecvMessage msg syncer1)\<rparr>"
    using assms(1) by (auto simp: serve_def split: sum.splits option.splits prod.splits)
  moreover from this(1) have "server_wf sv1"
    using assms(2,3) by (auto simp: server_open_def server_wf_def split: if_splits option.splits)
  ultimately show ?thesis by (auto simp: server_wf_def dest: generate_wf)
qed

lemma syncMesh_wf:
  assumes "\<And>id s. getMesh id = Some s \<Longrightarrow> syncer_wf s"
  shows "syncMesh (TS_GenerateMessage zero) TS_RecvMessage getMesh time meshId n s sv = Some r
    \<Longrightarrow> syncer_wf s \<Longrightarrow> server_wf sv \<Longrightarrow>
    (case r of Completed s' sv' \<Rightarrow> syncer_wf s' | ClientError s' sv' \<Rightarrow> syncer_wf s' | SessionPanic _ \<Rightarrow> True)"
proof (induction n arbitrary: s sv)
  case (Suc n)
  show ?case
  proof (cases "TS_GenerateMessage zero (time (2 * n)) s")
    case (Inr g)
    obtain s1 msg goon where g: "g = (s1, msg, goon)" by (cases g)
    then have s1: "syncer_wf s1" using Inr Suc.prems(2) by (auto intro: generate_wf)
    show ?thesis
    proof (cases "serve (TS_GenerateMessage zero) TS_RecvMessage getMesh (time (2 * n + 1)) meshId msg sv")
      case (Served sv1 reply serverMore)
      then have "server_wf sv1" using serve_wf [OF Served Suc.prems(3)] assms by blast
      then show ?thesis
        using Suc Inr g Served s1
        by (auto simp: Let_def split: if_splits sum.splits dest: generate_wf)
    qed (use Suc.prems Inr g s1 in auto)
  qed (use Suc.prems in auto)
qed simp

text \<open>A session with a reachable peer leaves the identifier of the mesh and a well-formed store.\<close>

definition session_ok :: "(TwoPhaseStoreMeshManager \<Rightarrow> TwoPhaseStoreMeshManager \<times> rpc_error option) \<Rightarrow> bool" where
  "session_ok f \<longleftrightarrow> (\<forall>mesh. keeps mesh (fst (f mesh)))"

lemma peer_session_ok:
  assumes "meshes_ok remote"
  shows "session_ok (peer_session time remote)"
proof -
  have get: "syncer_wf s" if "map_option DS_GetSyncer (MM_GetMesh meshId remote) = Some s" for meshId s
    using that assms by (auto simp: meshes_ok_def DS_GetSyncer_def NewTwoPhaseSyncer_def)
  have new: "server_wf NewServer" by (simp add: server_wf_def NewServer_def)
  have "keeps mesh (fst (peer_session time remote mesh))" for mesh
  proof -
    have "case r of Completed s' sv' \<Rightarrow> syncer_wf s' | ClientError s' sv' \<Rightarrow> syncer_wf s' | SessionPanic _ \<Rightarrow> True"
      if "syncMesh (TS_GenerateMessage zeroNode) TS_RecvMessage (\<lambda>meshId. map_option DS_GetSyncer (MM_GetMesh meshId remote))
        time (MeshId mesh) 5 (DS_GetSyncer mesh) NewServer = Some r" and "tp_wf (store mesh)" for r
      by (rule syncMesh_wf [OF get that(1) _ new]) (use that(2) in \<open>simp_all add: DS_GetSyncer_def NewTwoPhaseSyncer_def\<close>)
    then show ?thesis by (force simp: peer_session_def keeps_def split: option.splits session.splits)
  qed
  then show ?thesis by (simp add: session_ok_def)
qed

lemma serve_stream_wf:
  assumes get: "\<And>id s. getMesh id = Some s \<Longrightarrow> syncer_wf s"
  shows "serve_stream getMesh stream sv = Some sv' \<Longrightarrow> server_wf sv \<Longrightarrow> server_wf sv'"
proof (induction stream arbitrary: sv)
  case (Cons msg stream)
  obtain now inMeshId changes where msg: "msg = (now, inMeshId, changes)" by (cases msg)
  show ?case
  proof (cases "serve (TS_GenerateMessage zeroNode) TS_RecvMessage getMesh now inMeshId changes sv")
    case (Served sv1 reply goon)
    then have "server_wf sv1" using serve_wf [OF Served] Cons.prems(2) get by blast
    with Cons Served msg show ?thesis by (auto split: if_splits)
  qed (use Cons.prems msg in auto)
qed simp

lemma mm_keeps_serve: "SyncService_SyncMesh stream m = Some m' \<Longrightarrow> mm_keeps m m'"
proof -
  assume run: "SyncService_SyncMesh stream m = Some m'"
  let ?get = "\<lambda>meshId. map_option DS_GetSyncer (MM_GetMesh meshId m)"
  obtain sv where sv: "serve_stream ?get stream NewServer = Some sv"
    and m': "m' = (case (sv_syncer sv, MM_GetMesh (sv_meshId sv) m) of
      (Some syncer, Some mesh) \<Rightarrow> set_mesh (sv_meshId sv) (mesh\<lparr>store := ts_store syncer\<rparr>) m | _ \<Rightarrow> m)"
    using run by (auto simp: SyncService_SyncMesh_def)
  show ?thesis
  proof (cases "meshes_ok m")
    case True
    then have "syncer_wf s" if "?get meshId = Some s" for meshId s
      using that by (auto simp: meshes_ok_def DS_GetSyncer_def NewTwoPhaseSyncer_def)
    from serve_stream_wf [OF this sv] have "server_wf sv" by (simp add: server_wf_def NewServer_def)
    then show ?thesis
      using True by (auto simp: m' server_wf_def meshes_ok_def split: option.splits intro!: mm_keeps_set_new)
  qed (auto simp: m' mm_keeps_def split: option.splits)
qed


subsection \<open>Gossip\<close>

lemma keeps_Handle: "Handle close k err (mesh, conns) = Some ((mesh', conns'), ok) \<Longrightarrow> keeps mesh mesh'"
  by (auto simp: Handle_def handleFailed_def handleDeadlineExceeded_def Let_def keeps_ops
    split: Code.splits sum.splits)

lemma keeps_request:
  assumes "\<And>c. session_ok (rq_session R c)" and "RQ_SyncMesh W R node (mesh, conns) = Some ((mesh', conns'), err)"
  shows "keeps mesh mesh'"
proof -
  have "keeps mesh mesh1" if "rq_session R c mesh = (mesh1, e)" for c mesh1 e
    using assms(1) [of c] that by (metis fst_conv session_ok_def)
  then show ?thesis
    using assms(2)
    by (auto simp: RQ_SyncMesh_def handleErr_def split: prod.splits sum.splits option.splits
      intro: keeps_trans dest!: keeps_Handle)
qed


definition gossip_ok :: "'c gossip_env \<Rightarrow> bool" where
  "gossip_ok G \<longleftrightarrow> (\<forall>i c. session_ok (rq_session (ge_request G i) c))"

lemma keeps_gossip_loop:
  assumes "\<And>i c. session_ok (rq_session (N i) c)"
  shows "gossip_loop W N i nodes l succeeded = Some (l', ok) \<Longrightarrow> keeps (fst l) (fst l')"
proof (induction nodes arbitrary: i l succeeded)
  case (Cons node nodes)
  then show ?case
    by (auto split: sum.splits option.splits)
      (metis (no_types, lifting) assms keeps_request keeps_trans prod.collapse)
qed simp

text \<open>A round keeps the configuration and the cluster of the syncer and its counter within bounds.\<close>

definition syncer_keeps :: "SyncerImpl \<Rightarrow> SyncerImpl \<Rightarrow> bool" where
  "syncer_keeps s s' \<longleftrightarrow> configuration s' = configuration s \<and> cluster s' = cluster s \<and> (infection_ok s \<longrightarrow> infection_ok s')
     \<and> (gm_wf (lastSync s) \<longrightarrow> gm_wf (lastSync s')) \<and> (gm_wf (lastPoll s) \<longrightarrow> gm_wf (lastPoll s'))"

lemma syncer_keeps_refl [simp]: "syncer_keeps s s"
  by (simp add: syncer_keeps_def)

lemma syncer_keeps_trans: "syncer_keeps a b \<Longrightarrow> syncer_keeps b c \<Longrightarrow> syncer_keeps a c"
  by (simp add: syncer_keeps_def)

lemma finish_round_keeps:
  assumes "finish_round finished succeeded s l = Some (s', l', changes, err)"
  shows "syncer_keeps s s' \<and> keeps (fst l) (fst l')"
proof -
  have "infection_ok s'" if "infection_ok s"
    using assms that unfolding finish_round_eq [OF that]
    by (auto simp: infection_ok_def rounds_left_def)
  then show ?thesis
    using assms by (auto simp: finish_round_def Let_def syncer_keeps_def keeps_ops split: option.splits)
qed

lemma Pull_keeps:
  assumes "gossip_ok G" and "Pull G self s l = Some (s', l', changes, err)"
  shows "syncer_keeps s s' \<and> keeps (fst l) (fst l')"
proof -
  have "keeps (fst l) (fst l1)" if "RQ_SyncMesh W (ge_request G i) node l = Some (l1, e)" for W i node l1 e
    using keeps_request [of "ge_request G i" W node "fst l" "snd l" "fst l1" "snd l1" e] that assms(1)
    by (simp add: gossip_ok_def)
  then show ?thesis
    using assms(2)
    by (auto simp: Pull_def syncer_keeps_def infection_ok_def split: option.splits list.splits sum.splits if_splits)
qed

lemma Sync_keeps:
  assumes "gossip_ok G" and "Sync G k s (mesh, conns) = Some (s', (mesh', conns'), changes, err)"
  shows "syncer_keeps s s' \<and> keeps mesh mesh'"
proof -
  have loop: "keeps (DS_Prune mesh) (fst l2)"
    if "gossip_loop W (ge_request G) i nodes (DS_Prune mesh, conns) b = Some (l2, ok)" for W i nodes b l2 ok
    using keeps_gossip_loop [OF _ that] assms(1) by (simp add: gossip_ok_def)
  consider "s' = s" "mesh' = DS_Prune mesh"
    | self where "Pull G self s (DS_Prune mesh, conns) = Some (s', (mesh', conns'), changes, err)"
    | W i nodes b l2 ok where "gossip_loop W (ge_request G) i nodes (DS_Prune mesh, conns) b = Some (l2, ok)"
        "finish_round (ge_finished G) ok s l2 = Some (s', (mesh', conns'), changes, err)"
    using assms(2) by (auto simp: Sync_def Let_def split: if_splits option.splits)
  then have "syncer_keeps s s' \<and> keeps (DS_Prune mesh) mesh'"
  proof cases
    case 2 then show ?thesis using Pull_keeps [OF assms(1) 2] by simp
  next
    case 3 then show ?thesis using loop [OF 3(1)] finish_round_keeps [OF 3(2)] by (auto intro: keeps_trans)
  qed simp
  then show ?thesis using keeps_ops(3) [of mesh] by (blast intro: keeps_trans)
qed

lemma sync_each_keeps:
  assumes "\<And>i. gossip_ok (G i)"
  shows "sync_each G polled i ids s m conns results = Some (s', m', conns', results')
    \<Longrightarrow> syncer_keeps s s' \<and> mm_keeps m m'"
proof (induction ids arbitrary: i s m conns results)
  case (Cons meshId ids)
  show ?case
  proof (cases "MM_GetMesh meshId m")
    case (Some mesh)
    then obtain s1 mesh1 conns1 changes err where
      run: "Sync (G i) (mm_PublicKey m) s (mesh, conns) = Some (s1, (mesh1, conns1), changes, err)"
      and rest: "sync_each G polled (Suc i) ids (s1\<lparr>lastPoll := gm_put (MeshId mesh1) (polled i) (lastPoll s1)\<rparr>)
        (set_mesh meshId mesh1 m) conns1 (results @ [changes]) = Some (s', m', conns', results')"
      using Cons.prems by (auto split: option.splits)
    have "syncer_keeps s s1" "mm_keeps m (set_mesh meshId mesh1 m)"
      using Sync_keeps [OF assms run] mm_keeps_set [OF Some] by auto
    moreover have "syncer_keeps s1 (s1\<lparr>lastPoll := gm_put (MeshId mesh1) (polled i) (lastPoll s1)\<rparr>)"
      by (simp add: syncer_keeps_def infection_ok_def)
    ultimately show ?thesis using Cons.IH [OF rest] by (meson mm_keeps_trans syncer_keeps_trans)
  qed (use Cons in auto)
qed simp

lemma SyncMeshes_keeps:
  assumes "\<And>i. gossip_ok (G i)" and "SyncMeshes G polled now W A now64 s m conns = Some (s', m', conns', fx)"
  shows "syncer_keeps s s' \<and> mm_keeps m m'"
proof -
  obtain ids m1 results err where "sync_each G polled 0 ids s m conns [] = Some (s', m1, conns', results)"
    and "UpdateRoutes (keyText W) now64 m1 = (m', err)"
    using assms(2) by (auto simp: SyncMeshes_def Let_def split: option.splits prod.splits if_splits)
  then show ?thesis
    using sync_each_keeps [of G, OF assms(1)] mm_keeps_UpdateRoutes by (blast intro: mm_keeps_trans)
qed


subsection \<open>Requests of the user\<close>

lemma new_mesh_ok:
  "MeshId (Factory_CreateMesh cfg params) = pp_MeshId params" "tp_wf (store (Factory_CreateMesh cfg params))"
  by (simp_all add: Factory_CreateMesh_def New_wf)

lemma mm_keeps_CreateMesh: "MM_CreateMesh E port ovr m = (m', lg, r) \<Longrightarrow> mm_keeps m m'"
  by (auto simp: MM_CreateMesh_def Let_def new_mesh_ok provider_params_def
    split: sum.splits option.splits if_splits prod.splits intro!: mm_keeps_set_new)

lemma mm_keeps_AddSelf: "MM_AddSelf E meshId port endpoint m = Some (m', lg, r) \<Longrightarrow> mm_keeps m m'"
  by (cases r) (auto dest: MM_AddSelf_error elim!: MM_AddSelf_ok intro: mm_keeps_set keeps_ops)

lemma mm_keeps_AddMesh: "MM_AddMesh E meshId port bytes ovr m = (m', lg, r) \<Longrightarrow> mm_keeps m m'"
proof (cases r)
  case (Inr u)
  assume "MM_AddMesh E meshId port bytes ovr m = (m', lg, r)"
  with Inr obtain ifName cfg where m': "m' = set_mesh meshId (fst (DS_Load (env_now E) bytes
    (Factory_CreateMesh (mm_conf m) (provider_params ifName meshId cfg m)))) m" by (blast elim: MM_AddMesh_ok)
  have "keeps (Factory_CreateMesh (mm_conf m) (provider_params ifName meshId cfg m))
    (fst (DS_Load (env_now E) bytes (Factory_CreateMesh (mm_conf m) (provider_params ifName meshId cfg m))))"
    by (rule keeps_ops)
  then show ?thesis unfolding m' by (intro mm_keeps_set_new) (simp_all add: keeps_def new_mesh_ok provider_params_def)
qed (auto dest: MM_AddMesh_error)

lemma mm_keeps_LeaveMesh: "LeaveMesh E meshId m = (m', lg, r) \<Longrightarrow> mm_keeps m m'"
  by (auto simp: LeaveMesh_def Let_def mm_keeps_delete split: option.splits if_splits prod.splits)

text \<open>Every handler keeps the manager and the configuration of the server.\<close>

definition cs_keeps :: "'c MeshCtrlServer \<Rightarrow> 'c MeshCtrlServer \<Rightarrow> bool" where
  "cs_keeps n n' \<longleftrightarrow> mm_keeps (cs_MeshManager n) (cs_MeshManager n') \<and> cs_Conf n' = cs_Conf n"

lemma cs_keeps_CreateMesh: "CP_CreateMesh E args n = Some (n', lg, r) \<Longrightarrow> cs_keeps n n'"
  by (auto simp: CP_CreateMesh_def cs_keeps_def split: prod.splits sum.splits option.splits
    dest!: mm_keeps_CreateMesh mm_keeps_AddSelf intro: mm_keeps_trans)

lemma cs_keeps_JoinMesh: "CP_JoinMesh E J args n = Some (n', lg, r) \<Longrightarrow> cs_keeps n n'"
  by (auto simp: CP_JoinMesh_def Let_def cs_keeps_def split: prod.splits sum.splits option.splits if_splits
    dest!: mm_keeps_AddMesh mm_keeps_AddSelf intro: mm_keeps_trans)

lemma cs_keeps_LeaveMesh: "CP_LeaveMesh E meshId n = (n', lg, r) \<Longrightarrow> cs_keeps n n'"
  by (auto simp: CP_LeaveMesh_def cs_keeps_def split: prod.splits sum.splits dest!: mm_keeps_LeaveMesh)

lemma cs_keeps_setters:
  "CP_PutDescription now meshId v n = (n', lg, r) \<Longrightarrow> cs_keeps n n'"
  "CP_PutAlias now meshId v n = (n', lg, r) \<Longrightarrow> cs_keeps n n'"
  "CP_PutService now meshId k v n = (n', lg, r) \<Longrightarrow> cs_keeps n n'"
  "CP_DeleteService now meshId k n = (n', lg, r) \<Longrightarrow> cs_keeps n n'"
  by (auto simp: CP_PutDescription_def CP_PutAlias_def CP_PutService_def CP_DeleteService_def reply_with_def
    cs_keeps_def split: sum.splits if_splits dest!: mm_keeps_setters)

section \<open>Sessions with an arbitrary peer\<close>

text \<open>The client's loop (\<open>syncMesh\<close> of \<open>src/pkg/sync/syncrequester.go\<close>) when anything may come back: per round
  the time, and either the reply or the error of the stream. After the last answer the deadline of the
  request has passed. \<open>None\<close> is a panic of the syncer.\<close>

fun client_loop ::
  "(u64 \<times> (rpc_error + MeshNode SyncMsg option)) list \<Rightarrow> (string, MeshNode) TwoPhaseSyncer
    \<Rightarrow> ((string, MeshNode) TwoPhaseSyncer \<times> rpc_error option) option" where
  "client_loop [] syncer = Some (syncer, Some (Status DeadlineExceeded))"
| "client_loop ((now, answer) # answers) syncer =
     (case TS_GenerateMessage zeroNode now syncer of
        Inl _ \<Rightarrow> None
      | Inr (syncer1, msg, moreMessages) \<Rightarrow>
          (case answer of
             Inl err \<Rightarrow> Some (syncer1, Some err)
           | Inr changes \<Rightarrow>
               let syncer2 = recv_nonempty TS_RecvMessage changes syncer1
               in if \<not> moreMessages then Some (syncer2, None) else client_loop answers syncer2))"

definition client_session ::
  "(u64 \<times> (rpc_error + MeshNode SyncMsg option)) list \<Rightarrow> TwoPhaseStoreMeshManager
    \<Rightarrow> TwoPhaseStoreMeshManager \<times> rpc_error option" where
  "client_session answers mesh =
     (case client_loop answers (DS_GetSyncer mesh) of
        Some (syncer, err) \<Rightarrow> (mesh\<lparr>store := ts_store syncer\<rparr>, err)
      | None \<Rightarrow> (mesh, Some (Status Unavailable)))"

lemma client_loop_wf: "client_loop answers s = Some (s', err) \<Longrightarrow> syncer_wf s \<Longrightarrow> syncer_wf s'"
proof (induction answers arbitrary: s)
  case (Cons a answers)
  obtain now answer s1 msg goon where a: "a = (now, answer)" and g: "TS_GenerateMessage zeroNode now s = Inr (s1, msg, goon)"
    using Cons.prems(1) by (cases a) (auto split: sum.splits)
  have "syncer_wf s1" using g Cons.prems(2) by (rule generate_wf)
  then show ?case using Cons a g by (auto simp: Let_def split: sum.splits if_splits)
qed simp

lemma client_session_ok: "session_ok (client_session answers)"
  using client_loop_wf
  by (fastforce simp: session_ok_def client_session_def keeps_def DS_GetSyncer_def NewTwoPhaseSyncer_def split: option.splits)

text \<open>When a syncer cannot panic: it has been told something once it needs it.\<close>

definition told :: "(string, MeshNode) TwoPhaseSyncer \<Rightarrow> bool" where
  "told s \<longleftrightarrow> ts_state s \<noteq> FINISHED \<and> (ts_state s = PRESENT \<longrightarrow> ts_mapState s \<noteq> None)
     \<and> (ts_state s \<in> {HASH, PREPARE} \<or> ts_peerMsg s \<noteq> None)"

lemma told_generates:
  assumes "told s"
  shows "\<exists>s' msg goon. TS_GenerateMessage zeroNode now s = Inr (s', msg, goon) \<and> ts_peerMsg s' = ts_peerMsg s
    \<and> (goon \<longrightarrow> ts_state s' \<noteq> FINISHED \<and> (ts_state s' = PRESENT \<longrightarrow> ts_mapState s' \<noteq> None))"
proof (cases "ts_state s")
  case PRESENT
  with assms obtain own msg where "ts_mapState s = Some own" "ts_peerMsg s = Some msg" by (auto simp: told_def)
  with PRESENT show ?thesis by (auto simp: TS_GenerateMessage_def present_def IncrementState_def set_clock_def Let_def)
qed (use assms in \<open>auto simp: told_def TS_GenerateMessage_def sync_hash_def prepare_def exchange_def sync_merge_def
  IncrementState_def set_clock_def Let_def\<close>)


lemma told_round:
  assumes "told s" and "ts_peerMsg s \<noteq> None"
  obtains s' msg goon where "TS_GenerateMessage zeroNode now s = Inr (s', msg, goon)"
    "\<forall>changes. ts_peerMsg (recv_nonempty TS_RecvMessage changes s') \<noteq> None"
    "goon \<longrightarrow> (\<forall>changes. told (recv_nonempty TS_RecvMessage changes s'))"
  using told_generates [OF assms(1), of now] assms(2)
  by (auto simp: told_def recv_nonempty_def TS_RecvMessage_def split: option.splits)

lemma told_client: "told s \<Longrightarrow> ts_peerMsg s \<noteq> None \<Longrightarrow> client_loop answers s \<noteq> None"
proof (induction answers arbitrary: s)
  case (Cons a answers)
  obtain now answer where a: "a = (now, answer)" by (cases a)
  obtain s' msg goon where "TS_GenerateMessage zeroNode now s = Inr (s', msg, goon)"
    "\<forall>changes. ts_peerMsg (recv_nonempty TS_RecvMessage changes s') \<noteq> None"
    "goon \<longrightarrow> (\<forall>changes. told (recv_nonempty TS_RecvMessage changes s'))"
    by (rule told_round [where now = now, OF Cons.prems])
  then show ?case using Cons.IH by (simp add: a Let_def split: sum.splits)
qed simp

lemma told_stream:
  "sv_meshId sv \<noteq> [] \<Longrightarrow> sv_syncer sv = Some s \<Longrightarrow> told s \<Longrightarrow> ts_peerMsg s \<noteq> None \<Longrightarrow> serve_stream get stream sv \<noteq> None"
proof (induction stream arbitrary: sv s)
  case (Cons a stream)
  obtain now id changes where a: "a = (now, id, changes)" by (cases a)
  obtain s' msg goon where "TS_GenerateMessage zeroNode now s = Inr (s', msg, goon)"
    "\<forall>changes. ts_peerMsg (recv_nonempty TS_RecvMessage changes s') \<noteq> None"
    "goon \<longrightarrow> (\<forall>changes. told (recv_nonempty TS_RecvMessage changes s'))"
    by (rule told_round [where now = now, OF Cons.prems(3,4)])
  then show ?case
    using Cons.IH [of "sv\<lparr>sv_syncer := Some (recv_nonempty TS_RecvMessage changes s')\<rparr>"] Cons.prems(1,2)
    by (simp add: a serve_def server_open_def)
qed simp

text \<open>The first three messages of a syncer that is told nothing.\<close>

abbreviation hashed :: "TwoPhaseStoreMeshManager \<Rightarrow> (string, MeshNode) TwoPhaseSyncer" where
  "hashed mesh \<equiv> \<lparr>ts_store = store mesh, ts_state = PREPARE, ts_mapState = None, ts_peerMsg = None\<rparr>"

lemma first_message:
  "TS_GenerateMessage zeroNode now (DS_GetSyncer mesh) = Inr (hashed mesh, Some (HashMsg (VC_GetHash (tp_Clock (store mesh)))), True)"
  by (simp add: TS_GenerateMessage_def sync_hash_def IncrementState_def DS_GetSyncer_def NewTwoPhaseSyncer_def)

lemma second_message:
  obtains "VC_GetHash (tp_Clock (store mesh)) = 0" "TS_GenerateMessage zeroNode now (hashed mesh) = Inr (hashed mesh, None, False)"
  | s msg where "VC_GetHash (tp_Clock (store mesh)) \<noteq> 0" "TS_GenerateMessage zeroNode now (hashed mesh) = Inr (s, msg, True)"
      "ts_state s = PRESENT" "ts_mapState s \<noteq> None" "ts_peerMsg s = None"
  by (cases "VC_GetHash (tp_Clock (store mesh)) = 0")
    (simp_all add: TS_GenerateMessage_def prepare_def IncrementState_def set_clock_def Let_def)

lemma third_message: "ts_state s = PRESENT \<Longrightarrow> ts_peerMsg s = None \<Longrightarrow> TS_GenerateMessage zeroNode now s = Inl PeerMsgNil"
  by (simp add: TS_GenerateMessage_def present_def)

lemma recv_nothing [simp]: "recv_nonempty recv None s = s"
  by (simp add: recv_nonempty_def)

lemma recv_told [simp]: "recv_nonempty TS_RecvMessage (Some msg) s = s\<lparr>ts_peerMsg := Some msg\<rparr>"
  by (simp add: recv_nonempty_def TS_RecvMessage_def)

lemma told_now: "ts_state s = PREPARE \<or> ts_state s = PRESENT \<and> ts_mapState s \<noteq> None \<Longrightarrow> told (s\<lparr>ts_peerMsg := Some msg\<rparr>)"
  by (auto simp: told_def)

text \<open>Both loops, started on a mesh, panic in the third round if nothing came in the first two.\<close>

lemma client_second:
  assumes "TS_GenerateMessage zeroNode t2 (hashed mesh) = Inr (s, msg, True)" and "ts_state s = PRESENT"
    and "ts_mapState s \<noteq> None" and "ts_peerMsg s = None"
  shows "client_loop ((t2, r2) # rest) (hashed mesh) = None \<longleftrightarrow> r2 = Inr None \<and> rest \<noteq> []"
proof -
  have told: "client_loop rest (s\<lparr>ts_peerMsg := Some m\<rparr>) \<noteq> None" for m
    using assms(2,3) by (intro told_client told_now) auto
  have silent: "client_loop rest s = None \<longleftrightarrow> rest \<noteq> []"
    using assms(2,4) by (cases rest) (auto simp: third_message)
  show ?thesis
  proof (cases r2)
    case (Inr changes)
    with told silent assms(1) show ?thesis by (cases changes) simp_all
  qed (simp add: assms(1))
qed

lemma client_loop_panics:
  "client_loop answers (DS_GetSyncer mesh) = None \<longleftrightarrow> VC_GetHash (tp_Clock (store mesh)) \<noteq> 0
    \<and> (\<exists>t1 t2 rest. answers = (t1, Inr None) # (t2, Inr None) # rest \<and> rest \<noteq> [])"
proof (cases answers)
  case (Cons a1 as)
  obtain t1 r1 where a1: "a1 = (t1, r1)" by (cases a1)
  have told: "client_loop as ((hashed mesh)\<lparr>ts_peerMsg := Some m\<rparr>) \<noteq> None" for m
    by (intro told_client told_now) auto
  have silent: "client_loop as (hashed mesh) = None \<longleftrightarrow> VC_GetHash (tp_Clock (store mesh)) \<noteq> 0
    \<and> (\<exists>t2 rest. as = (t2, Inr None) # rest \<and> rest \<noteq> [])"
  proof (cases as)
    case (Cons a2 rest)
    obtain t2 r2 where a2: "a2 = (t2, r2)" by (cases a2)
    show ?thesis
    proof (rule second_message [of mesh t2])
      assume "VC_GetHash (tp_Clock (store mesh)) = 0" "TS_GenerateMessage zeroNode t2 (hashed mesh) = Inr (hashed mesh, None, False)"
      then show ?thesis by (simp add: Cons a2 split: sum.splits)
    qed (simp add: Cons a2 client_second del: client_loop.simps)
  qed simp
  show ?thesis
  proof (cases r1)
    case (Inr changes)
    with told silent show ?thesis by (cases changes) (auto simp: Cons a1 first_message)
  qed (simp add: Cons a1 first_message)
qed simp

text \<open>The same for the loop of the server.\<close>

lemma server_second:
  assumes "TS_GenerateMessage zeroNode t2 (hashed mesh) = Inr (s, msg, True)" and "ts_state s = PRESENT"
    and "ts_mapState s \<noteq> None" and "ts_peerMsg s = None" and "mid \<noteq> []"
  shows "serve_stream get ((t2, id2, c2) # rest) \<lparr>sv_meshId = mid, sv_syncer = Some (hashed mesh)\<rparr> = None
    \<longleftrightarrow> id2 = mid \<and> c2 = None \<and> (\<exists>t3 c3 rest'. rest = (t3, mid, c3) # rest')"
proof -
  have told: "serve_stream get rest \<lparr>sv_meshId = mid, sv_syncer = Some (s\<lparr>ts_peerMsg := Some m\<rparr>)\<rparr> \<noteq> None" for m
    using assms(2,3,5) by (intro told_stream [of _ "s\<lparr>ts_peerMsg := Some m\<rparr>"] told_now) auto
  have silent: "serve_stream get rest \<lparr>sv_meshId = mid, sv_syncer = Some s\<rparr> = None
      \<longleftrightarrow> (\<exists>t3 c3 rest'. rest = (t3, mid, c3) # rest')"
    using assms(2,4,5) by (cases rest) (auto simp: third_message serve_def server_open_def split: if_splits)
  show ?thesis
    using told silent assms(1,5) by (cases c2; cases "mid = id2") (simp_all add: serve_def server_open_def)
qed

lemma serve_stream_panics:
  assumes "f [] = None"
  shows "serve_stream (\<lambda>mid. map_option DS_GetSyncer (f mid)) stream NewServer = None \<longleftrightarrow>
    (\<exists>mid mesh t1 t2 t3 c3 rest. f mid = Some mesh \<and> VC_GetHash (tp_Clock (store mesh)) \<noteq> 0
      \<and> stream = (t1, mid, None) # (t2, mid, None) # (t3, mid, c3) # rest)"
    (is "serve_stream ?get _ _ = _ \<longleftrightarrow> _")
proof (cases stream)
  case (Cons a1 as)
  obtain t1 mid c1 where a1: "a1 = (t1, mid, c1)" by (cases a1)
  show ?thesis
  proof (cases "f mid")
    case (Some mesh)
    have mid: "mid \<noteq> []" using Some assms(1) by auto
    have first: "serve_stream ?get stream NewServer
        = serve_stream ?get as \<lparr>sv_meshId = mid, sv_syncer = Some (recv_nonempty TS_RecvMessage c1 (hashed mesh))\<rparr>"
      by (simp add: Cons a1 serve_def server_open_def NewServer_def Some first_message)
    have told: "serve_stream ?get as \<lparr>sv_meshId = mid, sv_syncer = Some ((hashed mesh)\<lparr>ts_peerMsg := Some m\<rparr>)\<rparr> \<noteq> None" for m
      using mid by (intro told_stream [of _ "(hashed mesh)\<lparr>ts_peerMsg := Some m\<rparr>"] told_now) auto
    have silent: "serve_stream ?get as \<lparr>sv_meshId = mid, sv_syncer = Some (hashed mesh)\<rparr> = None \<longleftrightarrow>
        VC_GetHash (tp_Clock (store mesh)) \<noteq> 0 \<and> (\<exists>t2 t3 c3 rest. as = (t2, mid, None) # (t3, mid, c3) # rest)"
    proof (cases as)
      case (Cons a2 rest)
      obtain t2 id2 c2 where a2: "a2 = (t2, id2, c2)" by (cases a2)
      show ?thesis
      proof (rule second_message [of mesh t2])
        assume "VC_GetHash (tp_Clock (store mesh)) = 0" "TS_GenerateMessage zeroNode t2 (hashed mesh) = Inr (hashed mesh, None, False)"
        then show ?thesis by (simp add: Cons a2 serve_def server_open_def mid)
      qed (simp add: Cons a2 server_second mid del: serve_stream.simps)
    qed simp
    show ?thesis
    proof (cases c1)
      case None
      then show ?thesis unfolding first using silent by (simp add: Cons a1 Some)
    next
      case (Some m)
      then show ?thesis unfolding first using told [of m] by (simp add: Cons a1)
    qed
  qed (simp add: Cons a1 serve_def server_open_def NewServer_def)
qed simp

text \<open>C14: what a peer can do to a daemon by staying silent in a session. The end that another node opened
  panics exactly when, for a mesh that it has and whose clock does not hash to 0, the first two
  messages carry no content and a third message follows; the end that asked for the session panics
  exactly when the first two replies carry no content and it goes on to a third round. In every
  other case, whatever the messages are, both loops return.\<close>

theorem silent_peer_crashes_the_daemon:
  assumes "MM_GetMesh [] m = None"
  shows "(SyncService_SyncMesh stream m = None \<longleftrightarrow>
      (\<exists>mid mesh' t1 t2 t3 c3 rest. MM_GetMesh mid m = Some mesh' \<and> VC_GetHash (tp_Clock (store mesh')) \<noteq> 0
        \<and> stream = (t1, mid, None) # (t2, mid, None) # (t3, mid, c3) # rest))
    \<and> (client_loop answers (DS_GetSyncer mesh) = None \<longleftrightarrow> VC_GetHash (tp_Clock (store mesh)) \<noteq> 0
      \<and> (\<exists>t1 t2 rest. answers = (t1, Inr None) # (t2, Inr None) # rest \<and> rest \<noteq> []))"
  using serve_stream_panics [of "\<lambda>mid. MM_GetMesh mid m", OF assms] client_loop_panics
  by (simp add: SyncService_SyncMesh_def)

theorem silent_peer_crashes_the_daemon_witness:
  "SyncService_SyncMesh (replicate 3 (9, ''mesh'', None)) (set_mesh ''mesh'' demo_mesh demo_manager) = None
    \<and> client_loop (replicate 3 (9, Inr None)) (DS_GetSyncer demo_mesh) = None
    \<and> SyncService_SyncMesh (replicate 2 (9, ''mesh'', None)) (set_mesh ''mesh'' demo_mesh demo_manager) \<noteq> None"
proof -
  let ?m = "set_mesh ''mesh'' demo_mesh demo_manager"
  have get: "MM_GetMesh ''mesh'' ?m = Some demo_mesh" "MM_GetMesh [] ?m = None"
    by (simp_all add: MM_GetMesh_def create_frame demo_manager_def NewMeshManager_def)
  have h: "VC_GetHash (tp_Clock (store demo_mesh)) \<noteq> 0" by code_simp
  note crash = silent_peer_crashes_the_daemon [OF get(2), of _ _ demo_mesh]
  have "SyncService_SyncMesh [(9, ''mesh'', None), (9, ''mesh'', None), (9, ''mesh'', None)] ?m = None"
    by (rule iffD2 [OF conjunct1 [OF crash]]) (simp add: get h)
  moreover have "client_loop [(9, Inr None), (9, Inr None), (9, Inr None)] (DS_GetSyncer demo_mesh) = None"
    by (rule iffD2 [OF conjunct2 [OF crash]]) (simp add: h)
  moreover have "SyncService_SyncMesh [(9, ''mesh'', None), (9, ''mesh'', None)] ?m \<noteq> None"
    by (subst conjunct1 [OF crash]) simp
  ultimately show ?thesis by (simp add: numeral_3_eq_3 numeral_2_eq_2)
qed

section \<open>The running daemon\<close>

definition D_Heartbeat :: "u64 \<Rightarrow> 'c Daemon \<Rightarrow> 'c Daemon option" where
  "D_Heartbeat now d =
     (let n = d_server d in
      case MM_UpdateTimeStamp now (cs_MeshManager n) of
        (m1, Some err) \<Rightarrow> None
      | (m1, None) \<Rightarrow> Some (d\<lparr>d_server := n\<lparr>cs_MeshManager := m1\<rparr>\<rparr>))"

text \<open>The function of the heartbeat timer never returns an error, so its loop is never left; it panics when
  the clock of a mesh has no entry for the node.\<close>

lemma heartbeat_no_error: "MM_UpdateTimeStamp now m = (m', Some err) \<Longrightarrow> err = NilDereference"
proof -
  have "update_all now ids m = (m', Some err) \<Longrightarrow> err = NilDereference" for ids
  proof (induction now ids m rule: update_all.induct)
    case (2 now meshId ids m)
    have "e = NilDereference" if "DS_NodeExists k mesh" "DS_UpdateTimeStamp now k mesh = Inl e" for k mesh e
      using that by (auto simp: DS_UpdateTimeStamp_def DS_NodeExists_def Let_def split: if_splits list.splits option.splits)
    with 2 show ?case by (auto split: option.splits sum.splits if_splits)
  qed simp
  then show "MM_UpdateTimeStamp now m = (m', Some err) \<Longrightarrow> err = NilDereference"
    by (simp add: MM_UpdateTimeStamp_def)
qed

definition D_SyncMeshes ::
  "(nat \<Rightarrow> 'c gossip_env) \<Rightarrow> (nat \<Rightarrow> int) \<Rightarrow> int \<Rightarrow> wg_keys \<Rightarrow> wg_env \<Rightarrow> u64 \<Rightarrow> 'c Daemon \<Rightarrow> 'c Daemon option" where
  "D_SyncMeshes G polled now W A now64 d =
     (let n = d_server d in
      map_option (\<lambda>(s1, m1, conns1, fx). d\<lparr>d_server := n\<lparr>cs_MeshManager := m1, cs_ConnectionManager := conns1\<rparr>, d_syncer := s1\<rparr>)
        (SyncMeshes G polled now W A now64 (d_syncer d) (cs_MeshManager n) (cs_ConnectionManager n)))"


text \<open>A session over any connection: the peer answers anything, but not with silence, which is a crash.\<close>

fun responsive :: "(u64 \<times> (rpc_error + MeshNode SyncMsg option)) list \<Rightarrow> bool" where
  "responsive ((_, Inr None) # _) = False"
| "responsive _ = True"

definition network_env :: "'c gossip_env \<Rightarrow> bool" where
  "network_env G \<longleftrightarrow> (\<forall>i c. \<exists>answers. responsive answers \<and> rq_session (ge_request G i) c = client_session answers)"

lemma responsive_returns: "responsive answers \<Longrightarrow> client_loop answers (DS_GetSyncer mesh) \<noteq> None"
  by (auto simp: client_loop_panics)

lemma network_gossip_ok: "network_env G \<Longrightarrow> gossip_ok G"
  unfolding network_env_def gossip_ok_def by (metis client_session_ok)

text \<open>The steps: the ticks of the two timers, the requests of the user that change something, and the
  requests of other nodes. Reading requests and \<open>GetMesh\<close> leave the state as it is. The environment of each step
  is arbitrary.\<close>

inductive daemon_step :: "'c Daemon \<Rightarrow> 'c Daemon \<Rightarrow> bool" where
  sync_tick: "D_SyncMeshes G polled now W A now64 d = Some d' \<Longrightarrow> (\<And>i. network_env (G i)) \<Longrightarrow> daemon_step d d'"
| heartbeat_tick: "D_Heartbeat now d = Some d' \<Longrightarrow> daemon_step d d'"
| create: "CP_CreateMesh E args (d_server d) = Some (n', lg, r) \<Longrightarrow> daemon_step d (d\<lparr>d_server := n'\<rparr>)"
| join: "CP_JoinMesh E J jargs (d_server d) = Some (n', lg, r) \<Longrightarrow> daemon_step d (d\<lparr>d_server := n'\<rparr>)"
| leave: "D_LeaveMesh e G' mid d = Some (d', lg, r) \<Longrightarrow> network_env G' \<Longrightarrow> daemon_step d d'"
| put_description: "CP_PutDescription now mid v (d_server d) = (n', lg, r) \<Longrightarrow> daemon_step d (d\<lparr>d_server := n'\<rparr>)"
| put_alias: "CP_PutAlias now mid v (d_server d) = (n', lg, r) \<Longrightarrow> daemon_step d (d\<lparr>d_server := n'\<rparr>)"
| put_service: "CP_PutService now mid k v (d_server d) = (n', lg, r) \<Longrightarrow> daemon_step d (d\<lparr>d_server := n'\<rparr>)"
| delete_service: "CP_DeleteService now mid k (d_server d) = (n', lg, r) \<Longrightarrow> daemon_step d (d\<lparr>d_server := n'\<rparr>)"
| serve_session: "SyncService_SyncMesh stream (cs_MeshManager (d_server d)) = Some m'
    \<Longrightarrow> daemon_step d (d\<lparr>d_server := (d_server d)\<lparr>cs_MeshManager := m'\<rparr>\<rparr>)"

definition d_keeps :: "'c Daemon \<Rightarrow> 'c Daemon \<Rightarrow> bool" where
  "d_keeps d d' \<longleftrightarrow> cs_keeps (d_server d) (d_server d') \<and> syncer_keeps (d_syncer d) (d_syncer d')"

lemma d_keeps_server: "cs_keeps (d_server d) n' \<Longrightarrow> d_keeps d (d\<lparr>d_server := n'\<rparr>)"
  by (simp add: d_keeps_def)

lemma d_keeps_leave:
  assumes "D_LeaveMesh e G mid d = Some (d', lg, r)" and "gossip_ok G"
  shows "d_keeps d d'"
proof -
  obtain n1 lg1 r1 where leave: "CP_LeaveMesh e mid (d_server d) = (n1, lg1, r1)" by (metis prod_cases3)
  have keeps: "cs_keeps (d_server d) (n1\<lparr>cs_ConnectionManager := conns\<rparr>)" "cs_keeps (d_server d) n1" for conns
    using cs_keeps_LeaveMesh [OF leave] by (simp_all add: cs_keeps_def)
  have "syncer_keeps s s1" if "Sync G k s (mesh, conns) = Some (s1, l, b, err)" for k s mesh conns s1 l b err
    using Sync_keeps [OF assms(2), of k s mesh conns s1 "fst l" "snd l" b err] that by simp
  then show ?thesis
    using assms(1) leave keeps by (auto simp: D_LeaveMesh_def d_keeps_def Let_def split: option.splits)
qed

lemma step_keeps: "daemon_step d d' \<Longrightarrow> d_keeps d d'"
proof (induction rule: daemon_step.induct)
  case (sync_tick G polled now W A now64 d d')
  then obtain s1 m1 conns1 fx where
    "SyncMeshes G polled now W A now64 (d_syncer d) (cs_MeshManager (d_server d)) (cs_ConnectionManager (d_server d))
       = Some (s1, m1, conns1, fx)"
    and d': "d' = d\<lparr>d_server := (d_server d)\<lparr>cs_MeshManager := m1, cs_ConnectionManager := conns1\<rparr>, d_syncer := s1\<rparr>"
    by (auto simp: D_SyncMeshes_def Let_def)
  from SyncMeshes_keeps [OF network_gossip_ok [OF sync_tick(2)] this(1)] show ?case
    by (simp add: d' d_keeps_def cs_keeps_def)
next
  case (heartbeat_tick now d d')
  then show ?case
    by (auto simp: D_Heartbeat_def MM_UpdateTimeStamp_def d_keeps_def cs_keeps_def Let_def
      split: prod.splits option.splits dest: mm_keeps_update_all)
next
  case (serve_session stream d m')
  then show ?case by (simp add: d_keeps_def cs_keeps_def mm_keeps_serve)
qed (auto intro!: d_keeps_server d_keeps_leave network_gossip_ok
  dest: cs_keeps_CreateMesh cs_keeps_JoinMesh cs_keeps_setters)

lemma d_keeps_trans: "d_keeps a b \<Longrightarrow> d_keeps b c \<Longrightarrow> d_keeps a c"
  unfolding d_keeps_def cs_keeps_def by (metis mm_keeps_trans syncer_keeps_trans)

lemma d_keeps_refl [simp]: "d_keeps d d"
  by (simp add: d_keeps_def cs_keeps_def)

lemma run_keeps: "daemon_step\<^sup>*\<^sup>* d d' \<Longrightarrow> d_keeps d d'"
  by (induction rule: rtranclp_induct) (auto intro: d_keeps_trans step_keeps)


lemma new_daemon_ok:
  assumes "NewCtrlServer loadKeyPair readFile parsePEM key cfg = Inr d" and "1 \<le> dc_InfectionCount cfg"
  shows "meshes_ok (cs_MeshManager (d_server d))" "infection_ok (d_syncer d)"
    "gm_wf (lastSync (d_syncer d))" "gm_wf (lastPoll (d_syncer d))"
    "mm_conf (cs_MeshManager (d_server d)) = cfg" "cs_Conf (d_server d) = cfg" "configuration (d_syncer d) = cfg"
    "mm_PublicKey (cs_MeshManager (d_server d)) = fst key" "mm_KeyBytes (cs_MeshManager (d_server d)) = snd key"
  using assms by (auto simp: NewCtrlServer_def NewMeshManager_def NewSyncer_def meshes_ok_def infection_ok_def
    MM_GetMesh_def split: sum.splits)

text \<open>What holds in every state that a daemon reaches from its start.\<close>

lemma daemon_well_formed:
  assumes "NewCtrlServer loadKeyPair readFile parsePEM key cfg = Inr d0" and "1 \<le> dc_InfectionCount cfg"
    and "daemon_step\<^sup>*\<^sup>* d0 d"
  shows "gm_wf (mm_meshes (cs_MeshManager (d_server d)))
    \<and> (\<forall>mid mesh. MM_GetMesh mid (cs_MeshManager (d_server d)) = Some mesh \<longrightarrow> MeshId mesh = mid \<and> tp_wf (store mesh))
    \<and> gm_wf (lastSync (d_syncer d)) \<and> gm_wf (lastPoll (d_syncer d))
    \<and> 0 \<le> infectionCount (d_syncer d) \<and> infectionCount (d_syncer d) \<le> dc_InfectionCount cfg
    \<and> mm_conf (cs_MeshManager (d_server d)) = cfg \<and> cs_Conf (d_server d) = cfg \<and> configuration (d_syncer d) = cfg
    \<and> mm_PublicKey (cs_MeshManager (d_server d)) = fst key \<and> mm_KeyBytes (cs_MeshManager (d_server d)) = snd key"
proof -
  have keeps: "cs_keeps (d_server d0) (d_server d)" "syncer_keeps (d_syncer d0) (d_syncer d)"
    using run_keeps [OF assms(3)] by (simp_all add: d_keeps_def)
  note start = new_daemon_ok [OF assms(1,2)]
  have "meshes_ok (cs_MeshManager (d_server d))" "infection_ok (d_syncer d)"
    using keeps start(1,2) by (simp_all add: cs_keeps_def mm_keeps_def syncer_keeps_def)
  moreover have "configuration (d_syncer d) = cfg" using keeps(2) start by (simp add: syncer_keeps_def)
  ultimately show ?thesis
    using keeps start by (simp add: meshes_ok_def infection_ok_def cs_keeps_def mm_keeps_def syncer_keeps_def)
qed

end
