(* ===== verification/Smegd.thy ===== *)
theory Smegd
  imports Daemon
begin

text \<open>
  \<open>src/cmd/smegd/main.go\<close>: the program of the daemon, from its arguments to the running server. The
  configuration file, the WireGuard client, the certificates and the socket are answers of the
  system. The property of the running daemon starts here, at the command line.
\<close>

section \<open>The program\<close>

datatype 'e smegd_exit =
    NoConfiguration
  | BadConfiguration 'e
  | NoClient
  | StartPanic "'e new_error"
  | ListenFailed 'e
  | Finished

text \<open>What the system answers while the daemon starts: the file, its decoder and the validator, whether the
  WireGuard client can be opened, the key pair of the certificate, its file, and the key of the host.\<close>

record ('e, 'b, 'p) start_env =
  se_readFile :: "string \<Rightarrow> 'e + 'b"
  se_unmarshal :: "'b \<Rightarrow> 'e + DaemonConfiguration"
  se_validate :: "DaemonConfiguration \<Rightarrow> 'e option"
  se_wgctrl :: bool
  se_loadKeyPair :: "string \<Rightarrow> string \<Rightarrow> 'e option"
  se_readCert :: "string \<Rightarrow> 'e + 'p"
  se_parsePEM :: "'p \<Rightarrow> bool"
  se_key :: "string \<times> u8 list"

definition smegd_start :: "('e, 'b, 'p) start_env \<Rightarrow> string list \<Rightarrow> 'e smegd_exit + 'c Daemon" where
  "smegd_start S args =
     (if length args \<noteq> 2 then Inl NoConfiguration
      else case ParseDaemonConfiguration (se_readFile S) (se_unmarshal S) (se_validate S) (args ! 1) of (parsed, err) \<Rightarrow>
        (case err of
           Some e \<Rightarrow> Inl (BadConfiguration e)
         | None \<Rightarrow>
             if \<not> se_wgctrl S then Inl NoClient
             else case NewCtrlServer (se_loadKeyPair S) (se_readCert S) (se_parsePEM S) (se_key S) (the parsed) of
               Inl e \<Rightarrow> Inl (StartPanic e)
             | Inr ctrlServer \<Rightarrow> Inr ctrlServer))"

text \<open>The function that the handler of interrupts calls before it ends the program, and that is started when
  the server ends; closing the WireGuard client leaves nothing behind.\<close>

definition closeResources :: "env \<Rightarrow> 'e option \<Rightarrow> 'c Daemon \<Rightarrow> ('c Daemon \<times> effect list) option" where
  "closeResources E closeErr ctrlServer = CS_Close E closeErr ctrlServer"

text \<open>The program ends when the server does. The resources are then closed in a goroutine that the end of the
  program does not wait for, so they are still open when it returns.\<close>

definition smegd_main ::
  "('e, 'b, 'p) start_env \<Rightarrow> (int \<Rightarrow> 'e option) \<Rightarrow> 'e option \<Rightarrow> string list \<Rightarrow> 'e smegd_exit \<times> 'c Daemon option" where
  "smegd_main S listen served args =
     (case smegd_start S args of
        Inl e \<Rightarrow> (e, None)
      | Inr ctrlServer \<Rightarrow>
          (case Listen listen served (d_connServer ctrlServer) of (server, err) \<Rightarrow>
             (case err of Some e \<Rightarrow> ListenFailed e | None \<Rightarrow> Finished, Some (ctrlServer\<lparr>d_connServer := server\<rparr>))))"

section \<open>Start\<close>

text \<open>The validator: the tag of the field asks for at least one.\<close>

definition validator_law :: "(DaemonConfiguration \<Rightarrow> 'e option) \<Rightarrow> bool" where
  "validator_law validate \<longleftrightarrow> (\<forall>cfg. validate cfg = None \<longrightarrow> 1 \<le> dc_InfectionCount cfg)"

lemma started:
  assumes "smegd_start S args = Inr d"
  obtains cfg where "se_validate S cfg = None"
    "NewCtrlServer (se_loadKeyPair S) (se_readCert S) (se_parsePEM S) (se_key S) cfg = Inr d"
  using assms
  by (auto simp: smegd_start_def ParseDaemonConfiguration_def ValidateDaemonConfiguration_def Let_def
    split: if_splits prod.splits option.splits sum.splits)

text \<open>No path through the start closes what it opened: when listening fails the server is not stopped.\<close>

lemma main_leaves_server_open: "smegd_main S listen served args = (e, Some d) \<Longrightarrow> \<not> sv_stopped (d_connServer d)"
  by (auto simp: smegd_main_def smegd_start_def Listen_def NewCtrlServer_def NewConnectionServer_def
    split: if_splits prod.splits option.splits sum.splits)

text \<open>C5: what holds in every state that the daemon reaches from the start of the program with a configuration
  that the validator accepts, through any sequence of timer ticks, requests of its user, sessions it
  opens with peers that answer anything, and sessions that other nodes open and fill with anything:
  each mesh is filed once, under its own identifier, with a well-formed store; the times of the last
  rounds are maps; the infection counter is between 0 and the configured count; all parts have the one
  configuration that was validated, and the key of the host never changes.\<close>

theorem reachable_daemon_well_formed:
  assumes "smegd_start S args = Inr d0" and "validator_law (se_validate S)" and "daemon_step\<^sup>*\<^sup>* d0 d"
  shows "\<exists>cfg. se_validate S cfg = None
    \<and> gm_wf (mm_meshes (cs_MeshManager (d_server d)))
    \<and> (\<forall>mid mesh. MM_GetMesh mid (cs_MeshManager (d_server d)) = Some mesh \<longrightarrow> MeshId mesh = mid \<and> tp_wf (store mesh))
    \<and> gm_wf (lastSync (d_syncer d)) \<and> gm_wf (lastPoll (d_syncer d))
    \<and> 0 \<le> infectionCount (d_syncer d) \<and> infectionCount (d_syncer d) \<le> dc_InfectionCount cfg
    \<and> mm_conf (cs_MeshManager (d_server d)) = cfg \<and> cs_Conf (d_server d) = cfg \<and> configuration (d_syncer d) = cfg
    \<and> mm_PublicKey (cs_MeshManager (d_server d)) = fst (se_key S) \<and> mm_KeyBytes (cs_MeshManager (d_server d)) = snd (se_key S)"
proof -
  obtain cfg where cfg: "se_validate S cfg = None"
    "NewCtrlServer (se_loadKeyPair S) (se_readCert S) (se_parsePEM S) (se_key S) cfg = Inr d0"
    using started [OF assms(1)] by blast
  then have "1 \<le> dc_InfectionCount cfg" using assms(2) by (simp add: validator_law_def)
  from cfg(1) daemon_well_formed [OF cfg(2) this assms(3)] show ?thesis by blast
qed

definition demo_start :: "(string, unit, unit) start_env" where
  "demo_start = \<lparr>se_readFile = (\<lambda>_. Inr ()), se_unmarshal = (\<lambda>_. Inr (demo_daemon\<lparr>dc_InfectionCount := 3\<rparr>)),
     se_validate = (\<lambda>cfg. if 1 \<le> dc_InfectionCount cfg then None else Some ''infectionCount''), se_wgctrl = True,
     se_loadKeyPair = (\<lambda>_ _. None), se_readCert = (\<lambda>_. Inr ()), se_parsePEM = (\<lambda>_. True), se_key = (''k1'', replicate 32 5)\<rparr>"

theorem reachable_daemon_well_formed_witness:
  "\<exists>d n' lg r. smegd_start demo_start [''smegd'', ''config.yaml''] = Inr (d :: nat Daemon)
    \<and> CP_CreateMesh (\<lambda>_. demo_env) (ja_WgArgs demo_join) (d_server d) = Some (n', lg, r)
    \<and> daemon_step\<^sup>*\<^sup>* d (d\<lparr>d_server := n'\<rparr>)
    \<and> gm_wf (mm_meshes (cs_MeshManager n')) \<and> mm_PublicKey (cs_MeshManager n') = ''k1''"
proof -
  obtain d :: "nat Daemon" where d: "smegd_start demo_start [''smegd'', ''config.yaml''] = Inr d"
    by (simp add: smegd_start_def demo_start_def ParseDaemonConfiguration_def ValidateDaemonConfiguration_def Let_def
      NewCtrlServer_def NewConnectionManager_def NewConnectionServer_def conn_params_def demo_daemon_def zeroConfiguration_def)
  obtain n' lg r where run: "CP_CreateMesh (\<lambda>_. demo_env) (ja_WgArgs demo_join) (d_server d) = Some (n', lg, r)"
    using CP_CreateMesh_returns by (metis not_None_eq prod_cases3)
  then have step: "daemon_step\<^sup>*\<^sup>* d (d\<lparr>d_server := n'\<rparr>)"
    by (blast intro: r_into_rtranclp daemon_step.create)
  have "validator_law (se_validate demo_start)" by (simp add: validator_law_def demo_start_def)
  from reachable_daemon_well_formed [OF d this step] d run step show ?thesis by (auto simp: demo_start_def)
qed

end
