(* ===== verification/Spec2Isabelle.thy ===== *)
theory Spec2Isabelle
  imports Prelude Lib Vector_Clock G_Map Two_Phase_Map Two_Phase_Syncer Network Net Conf Datastore Automerge_Store Ip
    Ip_Text Rt_Netlink What8words Mesh_Manager Route_Manager Config_Applier Cluster Conn_Manager Gossip Ctrl_Plane
    Ipc Api Dot Dns Ctl Timer Daemon Smegd
begin

text \<open>
  Smegmesh keeps full-mesh WireGuard networks alive without a coordinator. Every node runs a daemon
  (\<open>src/cmd/smegd\<close>) that holds, for each mesh it is part of, a replicated map from public keys to
  node descriptions. The daemons gossip the maps to each other, compute routes between the meshes
  they have in common, and turn the result into WireGuard peers and routes. Its user controls the
  daemon over a local socket, with a command line tool, an HTTP server and a DNS resolver on top. This
  library models these parts of \<open>src/pkg\<close> and proves that replicas converge, that the gossip terminates
  and reaches the right nodes, what configuration and routes come out, what the requests of the user
  do, and what holds in every state of a running daemon.

  \<^bold>\<open>Parts and theories.\<close> In the order in which they import each other:

    \<^item> \<open>Prelude\<close>: Go maps as association lists with distinct keys (the order of the list is the order of
      iteration), FNV hashing, maxima over maps, the collections of simplification rules.
    \<^item> \<open>Lib\<close> (\<open>lib/conv.go\<close>, \<open>lib/hashing.go\<close>, \<open>lib/random.go\<close>): list and map helpers, consistent hashing
      on a ring, random subsets. The owner of a key on the ring is unique, and a new candidate takes
      keys for itself only.
    \<^item> \<open>Vector_Clock\<close> (\<open>crdt/vector_clock.go\<close>), \<open>G_Map\<close> (\<open>crdt/g_map.go\<close>), \<open>Two_Phase_Map\<close>
      (\<open>crdt/two_phase_map.go\<close>): the replicated map. A store is a map of additions, a map of removals and
      a shared clock. Shown: the invariant of every reachable store, what put, remove, mark, merge and
      prune do to membership, that merging is a join (locale \<open>keyed_store\<close> and the last-writer-wins
      join of \<open>G_Map\<close>), convergence of replicas for messages in any order and number, and that
      exchanging differences equals exchanging whole maps.
    \<^item> \<open>Two_Phase_Syncer\<close> (\<open>crdt/two_phase_map_syncer.go\<close>, \<open>syncMesh\<close> of \<open>sync/syncrequester.go\<close>, \<open>SyncMesh\<close>
      of \<open>sync/syncservice.go\<close>): the protocol of a session and the loops at both ends. Locale
      \<open>mesh_syncer\<close> is Go's interface \<open>MeshSyncer\<close> with the progress the loops rely on. Shown: a session
      ends within five rounds, joins the stores, and makes replicas of one run agree. \<open>Network\<close> lifts this
      to any number of nodes that gossip in any order: it refines the specification of who has heard
      of whom, and the nodes agree once everyone has heard of everyone.
    \<^item> \<open>Net\<close> (the part of Go's package \<open>net\<close> that is used, \<open>RouteEqual\<close> and \<open>RouteStub\<close> of \<open>mesh/types.go\<close>)
      and \<open>Conf\<close> (\<open>conf/conf.go\<close>).
    \<^item> \<open>Datastore\<close> (\<open>crdt/datastore.go\<close>, \<open>crdt/factory.go\<close>): the mesh provider on top of the replicated map:
      nodes, services, aliases, time stamps, routes. Shown: what each setter changes, that routes are
      kept and combined with the least number of hops, who sends the heartbeat.
      \<open>Automerge_Store\<close> (\<open>automerge\<close>) is the older provider on a document of the automerge library, which is a
      parameter with laws; it is shown to refine a map from identifiers to nodes.
    \<^item> \<open>Ip\<close> (\<open>ip/ula.go\<close>, \<open>ip/cga.go\<close>): the prefix of a mesh and the addresses of its nodes, SHA-1 included.
      \<open>Ip_Text\<close> (with \<open>lib/ip.go\<close>) shows that the text of every IPv6 address parses back to it, so that the address a node is
      built with is the one its routes, its interface and the resolver read.
    \<^item> \<open>Mesh_Manager\<close> (\<open>mesh/manager.go\<close>, \<open>cmd/cmd.go\<close>): creating, joining and leaving meshes, with the
      effects on the system as a list.
    \<^item> \<open>Route_Manager\<close> (\<open>mesh/route.go\<close>): the routes a node leaks from one mesh into another; no route loops
      and stale ones are withdrawn.
    \<^item> \<open>Config_Applier\<close> (\<open>mesh/config.go\<close>): which peers a node configures in WireGuard.
    \<^item> \<open>Cluster\<close> (\<open>conn/cluster.go\<close>), \<open>Conn_Manager\<close> (\<open>conn/connectionmanager.go\<close>, locale \<open>cache\<close>): the
      neighbours of a node and the cache of connections.
    \<^item> \<open>Gossip\<close> (\<open>sync/syncer.go\<close>, \<open>sync/syncererror.go\<close>, the rest of \<open>sync/syncrequester.go\<close>): whom a node
      synchronises with, how many rounds a change is gossiped, what happens to peers that fail.
    \<^item> \<open>Rt_Netlink\<close> (\<open>lib/rtnetlink.go\<close>, \<open>route/route.go\<close>, \<open>wg/wg.go\<close>): links, addresses and routes in the
      kernel, which is a parameter with laws; after an installation the routes of a device are the
      given ones.
    \<^item> \<open>Ctrl_Plane\<close> (\<open>cplane\<close>, \<open>query/query.go\<close>, \<open>ctrlserver/ctrltypes.go\<close>): the handlers of the control
      socket, the nodes as the user sees them, queries, and how a mesh is fetched from a peer to join it.
    \<^item> \<open>Ipc\<close> (\<open>ipc/ipc.go\<close>): the client of the control socket; locale \<open>mesh_client\<close> is what its readers rely on.
      On top of it \<open>Api\<close> (\<open>api\<close>, the HTTP server), \<open>Dot\<close> (\<open>dot\<close>, graphs), \<open>Dns\<close> (\<open>dns/dns.go\<close>,
      \<open>lib/regex.go\<close>) and \<open>Ctl\<close> (\<open>cmd/smegctl\<close>, the command line tool); \<open>What8words\<close>
      (\<open>what8words\<close>) names nodes without alias.
    \<^item> \<open>Timer\<close> (\<open>lib/timer.go\<close>) and \<open>Daemon\<close> (\<open>ctrlserver/ctrlserver.go\<close>, \<open>conn/connectionserver.go\<close>, the whole
      stream of \<open>sync/syncservice.go\<close>): the parts put together. The running daemon is a step relation; the
      invariant of its reachable states is proved by rule induction over what every operation keeps
      (\<open>keeps\<close>, \<open>mm_keeps\<close>, \<open>syncer_keeps\<close>, \<open>cs_keeps\<close>). \<open>Smegd\<close> (\<open>cmd/smegd\<close>) is the program around it, at
      whose command line the property of the running daemon starts.

  This theory adds the property that spans the network stack: a request of the gossip, over the
  cached connection and the protocol, joins the stores of the two nodes.

  \<^bold>\<open>How the code is modelled.\<close> A Go struct is a record, with prefixes where field names clash; a pointer
  to shared state (the clock of a store) is passed explicitly. An \<open>uint64\<close> is a 64-bit word with
  wrap-around; lemmas on vectors carry a hypothesis that the clock has room for the next increments
  (\<open>tp_room\<close>, \<open>ds_ready\<close>). A Go \<open>int\<close> that counts rounds or hops is unbounded. Returned errors and
  panics are values of sum and option types. The wall clock, random draws, the network, the
  operating system, the WireGuard library and the validator are arguments; where an argument has
  laws they are hypotheses of the theorem that needs them. Each operation is atomic: locks are left
  out, the goroutines of \<open>SyncMeshes\<close> run one after the other in an arbitrary order, and a session that
  another node opens is one step of the daemon.

  \<^bold>\<open>Bounds.\<close> A session is given five rounds, one for each state of the protocol, and always ends within
  them. The search of \<open>Cluster\<close> has one round more than there are peers, since every round removes a
  peer from the window. Duplicate address detection is given 256 rounds and needs one. A random
  subset is read off a list of draws and exists once the draws hit every index.

  \<^bold>\<open>Not modelled.\<close> Encoding of messages by \<open>gob\<close>, \<open>net/rpc\<close> and gRPC (typed values stand for bytes), TLS, the
  kernel behind netlink, JSON, JMESPath, the web framework and the DNS library (parameters), logging,
  argument parsing, signals, random identifiers, generated stubs and test doubles.
\<close>

section \<open>A request end to end\<close>

lemma session_completed:
  "session_stores r = Some (a, b) \<Longrightarrow> \<exists>s sv. r = Some (Completed s sv) \<and> ts_store s = a"
  by (cases r rule: session_stores.cases) auto

lemma peer_session_joins:
  assumes "MeshId mesh \<noteq> []" and "MM_GetMesh (MeshId mesh) remote = Some r"
    and "VC_GetHash (tp_Clock (store mesh)) \<noteq> VC_GetHash (tp_Clock (store r))"
  shows "peer_session time remote mesh = (mesh\<lparr>store :=
    synced zeroNode (time 4) (time 0) (bump (time 6) (store mesh)) (bump (time 7) (store r))\<rparr>, None)"
proof -
  let ?meshes = "\<lambda>meshId. map_option store (MM_GetMesh meshId remote)"
  have get: "(\<lambda>meshId. map_option DS_GetSyncer (MM_GetMesh meshId remote)) = map_option NewTwoPhaseSyncer \<circ> ?meshes"
    by (rule ext) (simp add: DS_GetSyncer_def [abs_def] option.map_comp comp_def)
  have "session_stores (run_session zeroNode time (MeshId mesh) ?meshes (store mesh)) = Some
    (synced zeroNode (time 4) (time 0) (bump (time 6) (store mesh)) (bump (time 7) (store r)),
     synced zeroNode (time 5) (time 1) (bump (time 7) (store r)) (bump (time 6) (store mesh)))"
    using assms by (intro session_different_hashes) simp_all
  from session_completed [OF this] obtain s sv where
    "run_session zeroNode time (MeshId mesh) ?meshes (store mesh) = Some (Completed s sv)"
    "ts_store s = synced zeroNode (time 4) (time 0) (bump (time 6) (store mesh)) (bump (time 7) (store r))"
    by blast
  then show ?thesis by (simp add: peer_session_def get DS_GetSyncer_def)
qed



end
